(* ===== verification/Prelude.thy ===== *)
theory Prelude
  imports Main "HOL-Library.Word" "HOL-Library.Monad_Syntax"
begin

unbundle bit_operations_syntax

section \<open>Machine types, memory and shared automation\<close>

text \<open>
  Vocabulary shared by every component theory.

  \<^item> Machine integers: \<open>uint8_t\<close>, \<open>uint16_t\<close>, \<open>uint32_t\<close> and \<open>uint64_t\<close> are words of that
    width. \<open>size_t\<close> is a \<open>nat\<close> below \<open>2 ^ 64\<close>, with the wrap-around of its additions and
    subtractions written out (\<open>size_add\<close>, \<open>size_sub\<close>). Signed integers are \<open>int\<close>; every signed
    addition or subtraction goes through \<open>i32\<close>, which is undefined outside the range, because
    signed overflow is undefined behaviour in C.
  \<^item> Undefined behaviour: an operation that can read or write outside an object, or overflow a
    signed integer, returns an \<open>option\<close>; \<open>None\<close> is undefined behaviour and \<open>Some r\<close> a
    defined execution with result \<open>r\<close>. Theorems of the form \<open>\<exists>r. f x = Some r\<close> are therefore
    memory-safety theorems.
  \<^item> Pointers: a pointer that the code compares with \<open>NULL\<close> is a \<open>ptr\<close>; the memory it points to
    is the list of the elements from there to the end of the object, so \<open>p + k\<close> is \<open>drop k p\<close>.
    An output parameter is passed in and returned updated.
\<close>

subsection \<open>Types\<close>

type_synonym byte = "8 word"
type_synonym u16 = "16 word"
type_synonym u32 = "32 word"
type_synonym u64 = "64 word"

datatype 'a ptr = NULL | Ptr 'a

definition UINT32_MAX :: nat where
  "UINT32_MAX = 4294967295"

definition INT32_MAX :: int where
  "INT32_MAX = 2147483647"

definition INT32_MIN :: int where
  "INT32_MIN = - 2147483648"

definition SIZE_MAX :: nat where
  "SIZE_MAX = 18446744073709551615"

named_theorems c_limits \<open>the numeric limits of the C types\<close>

lemmas [c_limits] = UINT32_MAX_def INT32_MAX_def INT32_MIN_def SIZE_MAX_def

subsection \<open>Arithmetic of the C types\<close>

definition size_add :: "nat \<Rightarrow> nat \<Rightarrow> nat" where
  "size_add a b = (a + b) mod 2 ^ 64"

definition size_sub :: "nat \<Rightarrow> nat \<Rightarrow> nat" where
  "size_sub a b = (if b \<le> a then a - b else 2 ^ 64 + a - b)"

text \<open>An \<open>int32_t\<close> result: undefined outside the range.\<close>

definition i32 :: "int \<Rightarrow> int option" where
  "i32 x = (if INT32_MIN \<le> x \<and> x \<le> INT32_MAX then Some x else None)"

text \<open>The casts \<open>(int32_t)x\<close> of an unsigned value and \<open>(size_t)x\<close> of a signed one, which
  reduce modulo the width.\<close>

definition cast_i32 :: "int \<Rightarrow> int" where
  "cast_i32 x = (x + 2147483648) mod 4294967296 - 2147483648"

definition cast_size :: "int \<Rightarrow> nat" where
  "cast_size x = nat (x mod 2 ^ 64)"

lemma size_add_small [simp]: "a + b < 2 ^ 64 \<Longrightarrow> size_add a b = a + b"
  by (simp add: size_add_def)

lemma size_sub_le [simp]: "b \<le> a \<Longrightarrow> size_sub a b = a - b"
  by (simp add: size_sub_def)

lemma i32_eq_Some: "i32 x = Some y \<longleftrightarrow> y = x \<and> INT32_MIN \<le> x \<and> x \<le> INT32_MAX"
  by (auto simp: i32_def)

lemma i32_in_range: "INT32_MIN \<le> x \<Longrightarrow> x \<le> INT32_MAX \<Longrightarrow> i32 x = Some x"
  by (simp add: i32_def)

lemma cast_i32_id: "INT32_MIN \<le> x \<Longrightarrow> x \<le> INT32_MAX \<Longrightarrow> cast_i32 x = x"
  by (simp add: cast_i32_def INT32_MIN_def INT32_MAX_def)

lemma cast_i32_nonneg: "0 \<le> x \<Longrightarrow> x \<le> INT32_MAX \<Longrightarrow> cast_i32 x = x"
  by (rule cast_i32_id) (simp_all add: INT32_MIN_def)

lemma cast_size_id [simp]: "0 \<le> x \<Longrightarrow> x < 2 ^ 64 \<Longrightarrow> cast_size x = nat x"
  by (simp add: cast_size_def)

subsection \<open>Memory\<close>

definition rd :: "'a list \<Rightarrow> nat \<Rightarrow> 'a option" where
  "rd p i = (if i < length p then Some (p ! i) else None)"

definition wr :: "'a list \<Rightarrow> nat \<Rightarrow> 'a \<Rightarrow> 'a list option" where
  "wr p i x = (if i < length p then Some (p[i := x]) else None)"

text \<open>\<open>memcpy\<close> from \<open>p\<close>: the bytes it reads. \<open>memcpy\<close> to \<open>p + off\<close>: the object it leaves.\<close>

definition rd_block :: "'a list \<Rightarrow> nat \<Rightarrow> 'a list option" where
  "rd_block p n = (if n \<le> length p then Some (take n p) else None)"

definition wr_block :: "'a list \<Rightarrow> nat \<Rightarrow> 'a list \<Rightarrow> 'a list option" where
  "wr_block p off xs =
     (if off + length xs \<le> length p
      then Some (take off p @ xs @ drop (off + length xs) p) else None)"

text \<open>An array with a used length: only the used part is kept, and appending past the
  capacity is undefined.\<close>

definition append_within :: "nat \<Rightarrow> 'a list \<Rightarrow> 'a list \<Rightarrow> 'a list option" where
  "append_within cap p xs = (if length p + length xs \<le> cap then Some (p @ xs) else None)"

named_theorems mem_simps \<open>the defined memory accesses\<close>

lemma rd_in [mem_simps]: "i < length p \<Longrightarrow> rd p i = Some (p ! i)"
  by (simp add: rd_def)

lemma wr_in [mem_simps]: "i < length p \<Longrightarrow> wr p i x = Some (p[i := x])"
  by (simp add: wr_def)

lemma rd_block_in [mem_simps]: "n \<le> length p \<Longrightarrow> rd_block p n = Some (take n p)"
  by (simp add: rd_block_def)

lemma wr_block_in [mem_simps]:
  "off + length xs \<le> length p \<Longrightarrow>
     wr_block p off xs = Some (take off p @ xs @ drop (off + length xs) p)"
  by (simp add: wr_block_def)

lemma append_within_in [mem_simps]:
  "length p + length xs \<le> cap \<Longrightarrow> append_within cap p xs = Some (p @ xs)"
  by (simp add: append_within_def)

lemma rd_eq_Some: "rd p i = Some x \<longleftrightarrow> i < length p \<and> x = p ! i"
  by (auto simp: rd_def)

lemma rd_Cons_0 [simp]: "rd (x # p) 0 = Some x"
  by (simp add: rd_def)

lemma rd_Cons_Suc [simp]: "rd (x # p) (Suc i) = rd p i"
  by (simp add: rd_def)

lemma rd_append_left: "i < length p \<Longrightarrow> rd (p @ q) i = Some (p ! i)"
  by (simp add: rd_def nth_append)

lemma rd_drop: "rd (drop k p) i = rd p (k + i)"
  by (auto simp: rd_def)

lemma rd_block_eq_Some: "rd_block p n = Some q \<longleftrightarrow> n \<le> length p \<and> q = take n p"
  by (auto simp: rd_block_def)

lemma rd_block_0 [simp]: "rd_block p 0 = Some []"
  by (simp add: rd_block_def)

lemma wr_block_length: "wr_block p off xs = Some q \<Longrightarrow> length q = length p"
  by (auto simp: wr_block_def split: if_splits)

lemma append_within_eq_Some:
  "append_within cap p xs = Some q \<longleftrightarrow> length p + length xs \<le> cap \<and> q = p @ xs"
  by (auto simp: append_within_def)

text \<open>Following a pointer: undefined for \<open>NULL\<close>.\<close>

fun deref :: "'a ptr \<Rightarrow> 'a option" where
  "deref NULL = None"
| "deref (Ptr x) = Some x"

lemma deref_eq_Some [simp]: "deref p = Some x \<longleftrightarrow> p = Ptr x"
  by (cases p) auto

subsection \<open>Overwriting a stretch of an object\<close>

text \<open>\<open>patch w off xs\<close> is the object \<open>w\<close> with \<open>xs\<close> stored at \<open>off\<close>: the closed form of every
  sequence of adjacent stores.\<close>

definition patch :: "'a list \<Rightarrow> nat \<Rightarrow> 'a list \<Rightarrow> 'a list" where
  "patch w off xs = take off w @ xs @ drop (off + length xs) w"

lemma length_patch [simp]: "off + length xs \<le> length w \<Longrightarrow> length (patch w off xs) = length w"
  by (simp add: patch_def)

lemma wr_patch: "off < length w \<Longrightarrow> wr w off b = Some (patch w off [b])"
  by (simp add: wr_def patch_def upd_conv_take_nth_drop)

lemma wr_block_patch: "off + length xs \<le> length w \<Longrightarrow> wr_block w off xs = Some (patch w off xs)"
  by (simp add: wr_block_def patch_def)

lemma patch_patch:
  "off + length xs + length ys \<le> length w \<Longrightarrow> k = off + length xs \<Longrightarrow>
     patch (patch w off xs) k ys = patch w off (xs @ ys)"
  by (simp add: patch_def ac_simps)

lemma take_patch:
  "off + length xs \<le> length w \<Longrightarrow> n = off + length xs \<Longrightarrow> take n (patch w off xs) = take off w @ xs"
  by (simp add: patch_def)

lemma drop_patch:
  "off + length xs \<le> length w \<Longrightarrow> n = off + length xs \<Longrightarrow> drop n (patch w off xs) = drop n w"
  by (simp add: patch_def)

lemma patch_0: "patch w 0 xs = xs @ drop (length xs) w"
  by (simp add: patch_def)

lemma patch_all: "length xs = length w \<Longrightarrow> patch w 0 xs = xs"
  by (simp add: patch_def)

lemmas patch_steps = wr_patch wr_block_patch patch_patch

subsection \<open>Inversion of defined executions\<close>

text \<open>A defined sequence of steps is one whose every step is defined. The collection
  \<open>run_iff\<close> opens such a sequence, as the clients' proofs need it.\<close>

named_theorems run_iff \<open>when a composed step is defined, and with which result\<close>

lemma bind_run_iff [run_iff]: "Option.bind m f = Some y \<longleftrightarrow> (\<exists>x. m = Some x \<and> f x = Some y)"
  by (cases m) auto

lemma rd_run_iff [run_iff]: "rd p i = Some x \<longleftrightarrow> i < length p \<and> x = p ! i"
  by (rule rd_eq_Some)

lemma rd_block_run_iff [run_iff]: "rd_block p n = Some q \<longleftrightarrow> n \<le> length p \<and> q = take n p"
  by (rule rd_block_eq_Some)

lemma i32_run_iff [run_iff]: "i32 x = Some y \<longleftrightarrow> y = x \<and> INT32_MIN \<le> x \<and> x \<le> INT32_MAX"
  by (rule i32_eq_Some)

lemma append_within_run_iff [run_iff]:
  "append_within cap p xs = Some q \<longleftrightarrow> length p + length xs \<le> cap \<and> q = p @ xs"
  by (rule append_within_eq_Some)

subsection \<open>Strings\<close>

text \<open>A C string is the bytes of its array before the terminator. A literal becomes the
  list of its character codes.\<close>

definition lit :: "string \<Rightarrow> byte list" where
  "lit s = map of_char s"

definition cstr :: "byte list \<Rightarrow> byte list" where
  "cstr buf = takeWhile (\<lambda>c. c \<noteq> 0) buf"

text \<open>A character array of \<open>cap\<close> bytes is represented by the bytes written to it before the final
  terminator. Storing a string needs room for it and its terminator.\<close>

definition store_str :: "nat \<Rightarrow> byte list \<Rightarrow> byte list option" where
  "store_str cap s = (if length s < cap then Some s else None)"

lemma store_str_in [mem_simps]: "length s < cap \<Longrightarrow> store_str cap s = Some s"
  by (simp add: store_str_def)

lemma store_str_run_iff [run_iff]: "store_str cap s = Some t \<longleftrightarrow> length s < cap \<and> t = s"
  by (auto simp: store_str_def)

lemma length_lit [simp]: "length (lit s) = length s"
  by (simp add: lit_def)

lemma cstr_no_nul: "0 \<notin> set (cstr buf)"
  by (auto simp: cstr_def dest: set_takeWhileD)

lemma length_cstr: "length (cstr buf) \<le> length buf"
  by (simp add: cstr_def length_takeWhile_le)

lemma cstr_id: "0 \<notin> set s \<Longrightarrow> cstr s = s"
  by (auto simp: cstr_def takeWhile_eq_all_conv)

lemma cstr_cstr [simp]: "cstr (cstr buf) = cstr buf"
  by (rule cstr_id) (rule cstr_no_nul)

subsection \<open>Searching a table\<close>

text \<open>The loop \<open>for (pos = k; ...)\<close> that returns the first slot of an array satisfying a test.\<close>

fun scan :: "('a \<Rightarrow> bool) \<Rightarrow> 'a list \<Rightarrow> nat \<Rightarrow> nat ptr" where
  "scan P [] pos = NULL"
| "scan P (x # xs) pos = (if P x then Ptr pos else scan P xs (Suc pos))"

lemma scan_NULL_iff: "scan P xs k = NULL \<longleftrightarrow> (\<forall>x \<in> set xs. \<not> P x)"
  by (induction xs arbitrary: k) auto

lemma scan_PtrD:
  "scan P xs k = Ptr i \<Longrightarrow> k \<le> i \<and> i < k + length xs \<and> P (xs ! (i - k)) \<and> (\<forall>j < i - k. \<not> P (xs ! j))"
proof (induction xs arbitrary: k)
  case (Cons x xs)
  show ?case
  proof (cases "P x")
    case False
    with Cons.IH [of "Suc k"] Cons.prems
    have *: "Suc k \<le> i" "i < Suc k + length xs" "P (xs ! (i - Suc k))" "\<forall>j < i - Suc k. \<not> P (xs ! j)"
      by simp_all
    then have "i - k = Suc (i - Suc k)" by simp
    with * False show ?thesis by (auto simp: less_Suc_eq_0_disj)
  qed (use Cons.prems in auto)
qed simp

lemma scan_Ptr: "scan P xs 0 = Ptr i \<Longrightarrow> i < length xs \<and> P (xs ! i)"
  using scan_PtrD [of P xs 0 i] by simp

lemma scan_first: "i < length xs \<Longrightarrow> P (xs ! i) \<Longrightarrow> (\<forall>j < i. \<not> P (xs ! j)) \<Longrightarrow> scan P xs k = Ptr (k + i)"
proof (induction xs arbitrary: i k)
  case (Cons x xs)
  show ?case
  proof (cases i)
    case (Suc j)
    then have "\<not> P x" using Cons.prems(3) by force
    with Suc Cons show ?thesis by fastforce
  qed (use Cons in simp)
qed simp

subsection \<open>Words\<close>

lemma unat_u8_less: "unat (b :: byte) < 256"
  using unsigned_less [of b] by simp

lemma unat_u16_less: "unat (w :: u16) < 65536"
  using unsigned_less [of w] by simp

lemma unat_u32_less: "unat (w :: u32) < 4294967296"
  using unsigned_less [of w] by simp

lemma unat_of_nat_u32: "n < 4294967296 \<Longrightarrow> unat (of_nat n :: u32) = n"
  by (simp add: unat_of_nat take_bit_nat_def)

lemma unat_of_nat_u8: "n < 256 \<Longrightarrow> unat (of_nat n :: byte) = n"
  by (simp add: unat_of_nat take_bit_eq_mod)

end
