(* ===== verification/Frame.thy ===== *)
theory Frame
  imports Prelude
begin

section \<open>The frame layer\<close>

text \<open>
  \<open>include/http2/frame.h\<close> and \<open>src/frame.c\<close>: the wire format of HTTP/2 frames. The constants and
  structures of the header file come first, then the byte accessors, the 9-byte frame header, the
  validation of a header, the ten payload parsers and the ten encoders, in the order of the source.
  An output parameter is an argument and a component of the result, so a field that the code writes
  before it fails is visible in the model.
\<close>

subsection \<open>Constants and structures\<close>

definition H2_FRAME_HEADER_LEN :: nat where
  "H2_FRAME_HEADER_LEN = 9"

definition H2_DEFAULT_MAX_FRAME_SIZE :: nat where
  "H2_DEFAULT_MAX_FRAME_SIZE = 16384"

definition H2_MAX_FRAME_SIZE :: nat where
  "H2_MAX_FRAME_SIZE = 16777215"

definition H2_DEFAULT_WINDOW_SIZE :: int where
  "H2_DEFAULT_WINDOW_SIZE = 65535"

named_theorems h2_consts \<open>the constants of the header files\<close>

lemmas [h2_consts] = H2_FRAME_HEADER_LEN_def H2_DEFAULT_MAX_FRAME_SIZE_def
  H2_MAX_FRAME_SIZE_def H2_DEFAULT_WINDOW_SIZE_def

datatype h2_error_code =
    H2_OK | H2_PROTOCOL_ERROR | H2_INTERNAL_ERROR | H2_FLOW_CONTROL_ERROR | H2_SETTINGS_TIMEOUT
  | H2_STREAM_CLOSED | H2_FRAME_SIZE_ERROR | H2_REFUSED_STREAM | H2_CANCEL | H2_COMPRESSION_ERROR
  | H2_CONNECT_ERROR | H2_ENHANCE_YOUR_CALM | H2_INADEQUATE_SECURITY | H2_HTTP_1_1_REQUIRED

text \<open>The value of an error code, as the casts \<open>(uint32_t)ret\<close> put it on the wire.\<close>

fun h2_error_value :: "h2_error_code \<Rightarrow> u32" where
  "h2_error_value H2_OK = 0x0"
| "h2_error_value H2_PROTOCOL_ERROR = 0x1"
| "h2_error_value H2_INTERNAL_ERROR = 0x2"
| "h2_error_value H2_FLOW_CONTROL_ERROR = 0x3"
| "h2_error_value H2_SETTINGS_TIMEOUT = 0x4"
| "h2_error_value H2_STREAM_CLOSED = 0x5"
| "h2_error_value H2_FRAME_SIZE_ERROR = 0x6"
| "h2_error_value H2_REFUSED_STREAM = 0x7"
| "h2_error_value H2_CANCEL = 0x8"
| "h2_error_value H2_COMPRESSION_ERROR = 0x9"
| "h2_error_value H2_CONNECT_ERROR = 0xa"
| "h2_error_value H2_ENHANCE_YOUR_CALM = 0xb"
| "h2_error_value H2_INADEQUATE_SECURITY = 0xc"
| "h2_error_value H2_HTTP_1_1_REQUIRED = 0xd"

text \<open>The type byte of a frame is compared with the enumerators of \<open>h2_frame_type\<close>; a frame may
  carry any other byte, so they are constants and not a datatype.\<close>

abbreviation (input) H2_FRAME_DATA :: byte where "H2_FRAME_DATA \<equiv> 0x0"
abbreviation (input) H2_FRAME_HEADERS :: byte where "H2_FRAME_HEADERS \<equiv> 0x1"
abbreviation (input) H2_FRAME_PRIORITY :: byte where "H2_FRAME_PRIORITY \<equiv> 0x2"
abbreviation (input) H2_FRAME_RST_STREAM :: byte where "H2_FRAME_RST_STREAM \<equiv> 0x3"
abbreviation (input) H2_FRAME_SETTINGS :: byte where "H2_FRAME_SETTINGS \<equiv> 0x4"
abbreviation (input) H2_FRAME_PUSH_PROMISE :: byte where "H2_FRAME_PUSH_PROMISE \<equiv> 0x5"
abbreviation (input) H2_FRAME_PING :: byte where "H2_FRAME_PING \<equiv> 0x6"
abbreviation (input) H2_FRAME_GOAWAY :: byte where "H2_FRAME_GOAWAY \<equiv> 0x7"
abbreviation (input) H2_FRAME_WINDOW_UPDATE :: byte where "H2_FRAME_WINDOW_UPDATE \<equiv> 0x8"
abbreviation (input) H2_FRAME_CONTINUATION :: byte where "H2_FRAME_CONTINUATION \<equiv> 0x9"

abbreviation (input) H2_FLAG_END_STREAM :: byte where "H2_FLAG_END_STREAM \<equiv> 0x1"
abbreviation (input) H2_FLAG_ACK :: byte where "H2_FLAG_ACK \<equiv> 0x1"
abbreviation (input) H2_FLAG_END_HEADERS :: byte where "H2_FLAG_END_HEADERS \<equiv> 0x4"
abbreviation (input) H2_FLAG_PADDED :: byte where "H2_FLAG_PADDED \<equiv> 0x8"
abbreviation (input) H2_FLAG_PRIORITY :: byte where "H2_FLAG_PRIORITY \<equiv> 0x20"

abbreviation (input) H2_SETTINGS_HEADER_TABLE_SIZE :: u16 where "H2_SETTINGS_HEADER_TABLE_SIZE \<equiv> 0x1"
abbreviation (input) H2_SETTINGS_ENABLE_PUSH :: u16 where "H2_SETTINGS_ENABLE_PUSH \<equiv> 0x2"
abbreviation (input) H2_SETTINGS_MAX_CONCURRENT_STREAMS :: u16 where "H2_SETTINGS_MAX_CONCURRENT_STREAMS \<equiv> 0x3"
abbreviation (input) H2_SETTINGS_INITIAL_WINDOW_SIZE :: u16 where "H2_SETTINGS_INITIAL_WINDOW_SIZE \<equiv> 0x4"
abbreviation (input) H2_SETTINGS_MAX_FRAME_SIZE :: u16 where "H2_SETTINGS_MAX_FRAME_SIZE \<equiv> 0x5"
abbreviation (input) H2_SETTINGS_MAX_HEADER_LIST_SIZE :: u16 where "H2_SETTINGS_MAX_HEADER_LIST_SIZE \<equiv> 0x6"

record h2_frame_header =
  fh_length :: u32
  fh_type :: byte
  fh_flags :: byte
  fh_stream_id :: u32

record h2_setting =
  st_id :: u16
  st_value :: u32

record h2_priority_payload =
  pr_exclusive :: bool
  pr_stream_dependency :: u32
  pr_weight :: byte

record h2_data_payload =
  dp_data :: "byte list"
  dp_data_len :: nat
  dp_pad_len :: byte

record h2_headers_payload =
  hp_header_block :: "byte list"
  hp_header_block_len :: nat
  hp_pad_len :: byte
  hp_has_priority :: bool
  hp_priority :: h2_priority_payload

record h2_push_promise_payload =
  pp_promised_stream_id :: u32
  pp_header_block :: "byte list"
  pp_header_block_len :: nat
  pp_pad_len :: byte

record h2_goaway_payload =
  ga_last_stream_id :: u32
  ga_error_code :: u32
  ga_debug_data :: "byte list"
  ga_debug_len :: nat

record h2_continuation_payload =
  cn_header_block :: "byte list"
  cn_header_block_len :: nat

subsection \<open>Big-endian accessors\<close>

definition h2_read_u16 :: "byte list \<Rightarrow> u16 option" where
  "h2_read_u16 wire = do {
     b0 \<leftarrow> rd wire 0;
     b1 \<leftarrow> rd wire 1;
     Some (push_bit 8 (ucast b0) OR ucast b1)
   }"

definition h2_read_u31 :: "byte list \<Rightarrow> u32 option" where
  "h2_read_u31 wire = do {
     b0 \<leftarrow> rd wire 0;
     b1 \<leftarrow> rd wire 1;
     b2 \<leftarrow> rd wire 2;
     b3 \<leftarrow> rd wire 3;
     Some (push_bit 24 (ucast b0 AND 0x7f) OR push_bit 16 (ucast b1) OR push_bit 8 (ucast b2) OR ucast b3)
   }"

definition h2_read_u32 :: "byte list \<Rightarrow> u32 option" where
  "h2_read_u32 wire = do {
     b0 \<leftarrow> rd wire 0;
     b1 \<leftarrow> rd wire 1;
     b2 \<leftarrow> rd wire 2;
     b3 \<leftarrow> rd wire 3;
     Some (push_bit 24 (ucast b0) OR push_bit 16 (ucast b1) OR push_bit 8 (ucast b2) OR ucast b3)
   }"

text \<open>The writers store at an offset of the object, one byte at a time.\<close>

definition h2_write_u16 :: "byte list \<Rightarrow> nat \<Rightarrow> u16 \<Rightarrow> byte list option" where
  "h2_write_u16 wire off value = do {
     w \<leftarrow> wr wire off (ucast (drop_bit 8 value));
     wr w (off + 1) (ucast value)
   }"

definition h2_write_u32 :: "byte list \<Rightarrow> nat \<Rightarrow> u32 \<Rightarrow> byte list option" where
  "h2_write_u32 wire off value = do {
     w \<leftarrow> wr wire off (ucast (drop_bit 24 value));
     w \<leftarrow> wr w (off + 1) (ucast (drop_bit 16 value));
     w \<leftarrow> wr w (off + 2) (ucast (drop_bit 8 value));
     wr w (off + 3) (ucast value)
   }"

subsection \<open>The frame header\<close>

definition h2_validate_stream_nonzero :: "h2_frame_header \<Rightarrow> h2_error_code" where
  "h2_validate_stream_nonzero header = (if fh_stream_id header = 0 then H2_PROTOCOL_ERROR else H2_OK)"

definition h2_frame_parse_header ::
  "byte list ptr \<Rightarrow> nat \<Rightarrow> h2_frame_header ptr \<Rightarrow> (h2_error_code \<times> h2_frame_header ptr) option" where
  "h2_frame_parse_header wire wire_len out =
     (case (wire, out) of
        (Ptr w, Ptr _) \<Rightarrow>
          if wire_len < H2_FRAME_HEADER_LEN then Some (H2_FRAME_SIZE_ERROR, out)
          else do {
            b0 \<leftarrow> rd w 0;
            b1 \<leftarrow> rd w 1;
            b2 \<leftarrow> rd w 2;
            ty \<leftarrow> rd w 3;
            fl \<leftarrow> rd w 4;
            sid \<leftarrow> h2_read_u31 (drop 5 w);
            Some (H2_OK, Ptr \<lparr>fh_length = push_bit 16 (ucast b0) OR push_bit 8 (ucast b1) OR ucast b2,
                              fh_type = ty, fh_flags = fl, fh_stream_id = sid\<rparr>)
          }
      | _ \<Rightarrow> Some (H2_FRAME_SIZE_ERROR, out))"

definition h2_frame_write_header ::
  "byte list ptr \<Rightarrow> nat \<Rightarrow> h2_frame_header ptr \<Rightarrow> (h2_error_code \<times> byte list ptr) option" where
  "h2_frame_write_header wire cap header =
     (case (wire, header) of
        (Ptr w, Ptr h) \<Rightarrow>
          if cap < H2_FRAME_HEADER_LEN \<or> unat (fh_length h) > H2_MAX_FRAME_SIZE
          then Some (H2_FRAME_SIZE_ERROR, wire)
          else do {
            w \<leftarrow> wr w 0 (ucast (drop_bit 16 (fh_length h)));
            w \<leftarrow> wr w 1 (ucast (drop_bit 8 (fh_length h)));
            w \<leftarrow> wr w 2 (ucast (fh_length h));
            w \<leftarrow> wr w 3 (fh_type h);
            w \<leftarrow> wr w 4 (fh_flags h);
            w \<leftarrow> h2_write_u32 w 5 (fh_stream_id h AND 0x7fffffff);
            Some (H2_OK, Ptr w)
          }
      | _ \<Rightarrow> Some (H2_FRAME_SIZE_ERROR, wire))"

definition h2_frame_validate_payload :: "h2_frame_header ptr \<Rightarrow> h2_error_code" where
  "h2_frame_validate_payload header =
     (case header of
        NULL \<Rightarrow> H2_FRAME_SIZE_ERROR
      | Ptr h \<Rightarrow>
          if unat (fh_length h) > H2_MAX_FRAME_SIZE then H2_FRAME_SIZE_ERROR
          else if fh_type h = H2_FRAME_DATA then h2_validate_stream_nonzero h
          else if fh_type h = H2_FRAME_HEADERS then h2_validate_stream_nonzero h
          else if fh_type h = H2_FRAME_PRIORITY then
            (if fh_stream_id h = 0 then H2_PROTOCOL_ERROR
             else if fh_length h = 5 then H2_OK else H2_FRAME_SIZE_ERROR)
          else if fh_type h = H2_FRAME_RST_STREAM then
            (if fh_stream_id h = 0 then H2_PROTOCOL_ERROR
             else if fh_length h = 4 then H2_OK else H2_FRAME_SIZE_ERROR)
          else if fh_type h = H2_FRAME_SETTINGS then
            (if fh_stream_id h \<noteq> 0 then H2_PROTOCOL_ERROR
             else if fh_flags h AND H2_FLAG_ACK \<noteq> 0 then
               (if fh_length h = 0 then H2_OK else H2_FRAME_SIZE_ERROR)
             else if fh_length h mod 6 = 0 then H2_OK else H2_FRAME_SIZE_ERROR)
          else if fh_type h = H2_FRAME_PUSH_PROMISE then
            (if fh_stream_id h = 0 then H2_PROTOCOL_ERROR
             else if fh_length h \<ge> (if fh_flags h AND H2_FLAG_PADDED \<noteq> 0 then 5 else 4)
             then H2_OK else H2_FRAME_SIZE_ERROR)
          else if fh_type h = H2_FRAME_PING then
            (if fh_stream_id h \<noteq> 0 then H2_PROTOCOL_ERROR
             else if fh_length h = 8 then H2_OK else H2_FRAME_SIZE_ERROR)
          else if fh_type h = H2_FRAME_GOAWAY then
            (if fh_stream_id h \<noteq> 0 then H2_PROTOCOL_ERROR
             else if fh_length h \<ge> 8 then H2_OK else H2_FRAME_SIZE_ERROR)
          else if fh_type h = H2_FRAME_WINDOW_UPDATE then
            (if fh_length h = 4 then H2_OK else H2_FRAME_SIZE_ERROR)
          else if fh_type h = H2_FRAME_CONTINUATION then h2_validate_stream_nonzero h
          else H2_OK)"

subsection \<open>Payload parsers\<close>

definition h2_frame_parse_data ::
  "h2_frame_header ptr \<Rightarrow> byte list ptr \<Rightarrow> h2_data_payload ptr \<Rightarrow> (h2_error_code \<times> h2_data_payload ptr) option" where
  "h2_frame_parse_data header payload out =
     (case (header, payload, out) of
        (Ptr h, Ptr p, Ptr _) \<Rightarrow>
          if fh_type h \<noteq> H2_FRAME_DATA \<or> h2_frame_validate_payload header \<noteq> H2_OK
          then Some (H2_PROTOCOL_ERROR, out)
          else
            let data_len = unat (fh_length h) in
            if fh_flags h AND H2_FLAG_PADDED \<noteq> 0 then
              if data_len = 0 then Some (H2_FRAME_SIZE_ERROR, out)
              else do {
                pad_len \<leftarrow> rd p 0;
                let p = drop 1 p;
                let data_len = size_sub data_len 1;
                if unat pad_len > data_len then Some (H2_PROTOCOL_ERROR, out)
                else Some (H2_OK, Ptr \<lparr>dp_data = p, dp_data_len = size_sub data_len (unat pad_len),
                                       dp_pad_len = pad_len\<rparr>)
              }
            else Some (H2_OK, Ptr \<lparr>dp_data = p, dp_data_len = data_len, dp_pad_len = 0\<rparr>)
      | _ \<Rightarrow> Some (H2_INTERNAL_ERROR, out))"

definition h2_frame_parse_priority ::
  "h2_frame_header ptr \<Rightarrow> byte list ptr \<Rightarrow> h2_priority_payload ptr \<Rightarrow> (h2_error_code \<times> h2_priority_payload ptr) option" where
  "h2_frame_parse_priority header payload out =
     (case (header, payload, out) of
        (Ptr h, Ptr p, Ptr pr) \<Rightarrow>
          if fh_type h \<noteq> H2_FRAME_PRIORITY \<or> h2_frame_validate_payload header \<noteq> H2_OK
          then Some (H2_FRAME_SIZE_ERROR, out)
          else do {
            b0 \<leftarrow> rd p 0;
            dep \<leftarrow> h2_read_u31 p;
            let pr = pr\<lparr>pr_exclusive := (b0 AND 0x80 \<noteq> 0), pr_stream_dependency := dep\<rparr>;
            if dep = fh_stream_id h then Some (H2_PROTOCOL_ERROR, Ptr pr)
            else do {
              weight \<leftarrow> rd p 4;
              Some (H2_OK, Ptr (pr\<lparr>pr_weight := weight\<rparr>))
            }
          }
      | _ \<Rightarrow> Some (H2_INTERNAL_ERROR, out))"

text \<open>The optional priority fields of a HEADERS frame: a local PRIORITY header is made up and the
  priority parser is run on the bytes after the pad length. The result is the error, the output
  structure, and the two locals \<open>payload_pos\<close> and \<open>block_len\<close>.\<close>

definition h2_frame_parse_headers_priority ::
  "h2_frame_header \<Rightarrow> byte list \<Rightarrow> nat \<Rightarrow> nat \<Rightarrow> h2_headers_payload \<Rightarrow> (h2_error_code \<times> h2_headers_payload \<times> nat \<times> nat) option" where
  "h2_frame_parse_headers_priority h p payload_pos block_len hp =
     (let hp = hp\<lparr>hp_has_priority := (fh_flags h AND H2_FLAG_PRIORITY \<noteq> 0)\<rparr> in
      if hp_has_priority hp then
        if block_len < 5 then Some (H2_FRAME_SIZE_ERROR, hp, payload_pos, block_len)
        else do {
          let priority_header = \<lparr>fh_length = 5, fh_type = H2_FRAME_PRIORITY, fh_flags = 0,
                                 fh_stream_id = fh_stream_id h\<rparr>;
          (ret, pr) \<leftarrow> h2_frame_parse_priority (Ptr priority_header) (Ptr (drop payload_pos p)) (Ptr (hp_priority hp));
          let hp = (case pr of Ptr q \<Rightarrow> hp\<lparr>hp_priority := q\<rparr> | NULL \<Rightarrow> hp);
          if ret \<noteq> H2_OK then Some (ret, hp, payload_pos, block_len)
          else Some (H2_OK, hp, payload_pos + 5, size_sub block_len 5)
        }
      else Some (H2_OK, hp, payload_pos, block_len))"

definition h2_frame_parse_headers ::
  "h2_frame_header ptr \<Rightarrow> byte list ptr \<Rightarrow> h2_headers_payload ptr \<Rightarrow> (h2_error_code \<times> h2_headers_payload ptr) option" where
  "h2_frame_parse_headers header payload out =
     (case (header, payload, out) of
        (Ptr h, Ptr p, Ptr hp) \<Rightarrow>
          if fh_type h \<noteq> H2_FRAME_HEADERS \<or> h2_frame_validate_payload header \<noteq> H2_OK
          then Some (H2_PROTOCOL_ERROR, out)
          else
            let block_len = unat (fh_length h);
                finish = (\<lambda>payload_pos block_len pad_len. do {
                  (ret, hp, payload_pos, block_len) \<leftarrow> h2_frame_parse_headers_priority h p payload_pos block_len hp;
                  if ret \<noteq> H2_OK then Some (ret, Ptr hp)
                  else Some (H2_OK, Ptr (hp\<lparr>hp_header_block := drop payload_pos p,
                                            hp_header_block_len := block_len, hp_pad_len := pad_len\<rparr>))
                })
            in
            if fh_flags h AND H2_FLAG_PADDED \<noteq> 0 then
              if block_len = 0 then Some (H2_FRAME_SIZE_ERROR, out)
              else do {
                pad_len \<leftarrow> rd p 0;
                let block_len = size_sub block_len 1;
                if unat pad_len > block_len then Some (H2_PROTOCOL_ERROR, out)
                else finish 1 (size_sub block_len (unat pad_len)) pad_len
              }
            else finish 0 block_len 0
      | _ \<Rightarrow> Some (H2_INTERNAL_ERROR, out))"

text \<open>The loop of \<open>h2_frame_parse_settings\<close> from \<open>item_index\<close> on, \<open>n\<close> items to go.\<close>

fun h2_frame_parse_settings_loop ::
  "byte list \<Rightarrow> nat \<Rightarrow> nat \<Rightarrow> h2_setting list \<Rightarrow> h2_setting list option" where
  "h2_frame_parse_settings_loop p item_index 0 settings = Some settings"
| "h2_frame_parse_settings_loop p item_index (Suc n) settings = do {
     sid \<leftarrow> h2_read_u16 (drop (item_index * 6) p);
     val \<leftarrow> h2_read_u32 (drop (item_index * 6 + 2) p);
     settings \<leftarrow> wr settings item_index \<lparr>st_id = sid, st_value = val\<rparr>;
     h2_frame_parse_settings_loop p (Suc item_index) n settings
   }"

definition h2_frame_parse_settings ::
  "h2_frame_header ptr \<Rightarrow> byte list ptr \<Rightarrow> h2_setting list ptr \<Rightarrow> nat \<Rightarrow> nat ptr \<Rightarrow>
     (h2_error_code \<times> h2_setting list ptr \<times> nat ptr) option" where
  "h2_frame_parse_settings header payload settings max_settings settings_len =
     (case (header, settings_len) of
        (Ptr h, Ptr _) \<Rightarrow>
          if fh_type h \<noteq> H2_FRAME_SETTINGS then Some (H2_PROTOCOL_ERROR, settings, settings_len)
          else if h2_frame_validate_payload header \<noteq> H2_OK
          then Some (h2_frame_validate_payload header, settings, settings_len)
          else if fh_flags h AND H2_FLAG_ACK \<noteq> 0 then Some (H2_OK, settings, Ptr 0)
          else if fh_length h > 0 \<and> payload = NULL then Some (H2_INTERNAL_ERROR, settings, settings_len)
          else
            let item_count = unat (fh_length h div 6) in
            if item_count > max_settings \<or> (item_count > 0 \<and> settings = NULL)
            then Some (H2_INTERNAL_ERROR, settings, settings_len)
            else (case (payload, settings) of
                (Ptr p, Ptr s) \<Rightarrow> do {
                  s \<leftarrow> h2_frame_parse_settings_loop p 0 item_count s;
                  Some (H2_OK, Ptr s, Ptr item_count)
                }
              | _ \<Rightarrow> Some (H2_OK, settings, Ptr item_count))
      | _ \<Rightarrow> Some (H2_INTERNAL_ERROR, settings, settings_len))"

definition h2_frame_parse_window_update ::
  "h2_frame_header ptr \<Rightarrow> byte list ptr \<Rightarrow> u32 ptr \<Rightarrow> (h2_error_code \<times> u32 ptr) option" where
  "h2_frame_parse_window_update header payload increment =
     (case (header, payload, increment) of
        (Ptr h, Ptr p, Ptr _) \<Rightarrow>
          if fh_type h \<noteq> H2_FRAME_WINDOW_UPDATE then Some (H2_PROTOCOL_ERROR, increment)
          else if h2_frame_validate_payload header \<noteq> H2_OK
          then Some (h2_frame_validate_payload header, increment)
          else do {
            inc \<leftarrow> h2_read_u31 p;
            Some (if inc = 0 then H2_PROTOCOL_ERROR else H2_OK, Ptr inc)
          }
      | _ \<Rightarrow> Some (H2_INTERNAL_ERROR, increment))"

definition h2_frame_parse_ping ::
  "h2_frame_header ptr \<Rightarrow> byte list ptr \<Rightarrow> byte list ptr \<Rightarrow> (h2_error_code \<times> byte list ptr) option" where
  "h2_frame_parse_ping header payload opaque =
     (case (header, payload, opaque) of
        (Ptr h, Ptr p, Ptr q) \<Rightarrow>
          if fh_type h \<noteq> H2_FRAME_PING then Some (H2_PROTOCOL_ERROR, opaque)
          else if h2_frame_validate_payload header \<noteq> H2_OK
          then Some (h2_frame_validate_payload header, opaque)
          else do {
            bytes \<leftarrow> rd_block p 8;
            q \<leftarrow> wr_block q 0 bytes;
            Some (H2_OK, Ptr q)
          }
      | _ \<Rightarrow> Some (H2_INTERNAL_ERROR, opaque))"

definition h2_frame_parse_goaway ::
  "h2_frame_header ptr \<Rightarrow> byte list ptr \<Rightarrow> h2_goaway_payload ptr \<Rightarrow> (h2_error_code \<times> h2_goaway_payload ptr) option" where
  "h2_frame_parse_goaway header payload out =
     (case (header, payload, out) of
        (Ptr h, Ptr p, Ptr _) \<Rightarrow>
          if fh_type h \<noteq> H2_FRAME_GOAWAY then Some (H2_PROTOCOL_ERROR, out)
          else if h2_frame_validate_payload header \<noteq> H2_OK
          then Some (h2_frame_validate_payload header, out)
          else do {
            last \<leftarrow> h2_read_u31 p;
            code \<leftarrow> h2_read_u32 (drop 4 p);
            Some (H2_OK, Ptr \<lparr>ga_last_stream_id = last, ga_error_code = code,
                              ga_debug_data = drop 8 p, ga_debug_len = unat (fh_length h - 8)\<rparr>)
          }
      | _ \<Rightarrow> Some (H2_INTERNAL_ERROR, out))"

definition h2_frame_parse_rst_stream ::
  "h2_frame_header ptr \<Rightarrow> byte list ptr \<Rightarrow> u32 ptr \<Rightarrow> (h2_error_code \<times> u32 ptr) option" where
  "h2_frame_parse_rst_stream header payload error_code =
     (case (header, payload, error_code) of
        (Ptr h, Ptr p, Ptr _) \<Rightarrow>
          if fh_type h \<noteq> H2_FRAME_RST_STREAM then Some (H2_PROTOCOL_ERROR, error_code)
          else if h2_frame_validate_payload header \<noteq> H2_OK
          then Some (h2_frame_validate_payload header, error_code)
          else do {
            code \<leftarrow> h2_read_u32 p;
            Some (H2_OK, Ptr code)
          }
      | _ \<Rightarrow> Some (H2_INTERNAL_ERROR, error_code))"

definition h2_frame_parse_continuation ::
  "h2_frame_header ptr \<Rightarrow> byte list ptr \<Rightarrow> h2_continuation_payload ptr \<Rightarrow> (h2_error_code \<times> h2_continuation_payload ptr) option" where
  "h2_frame_parse_continuation header payload out =
     (case (header, payload, out) of
        (Ptr h, Ptr p, Ptr _) \<Rightarrow>
          if fh_type h \<noteq> H2_FRAME_CONTINUATION \<or> h2_frame_validate_payload header \<noteq> H2_OK
          then Some (H2_PROTOCOL_ERROR, out)
          else Some (H2_OK, Ptr \<lparr>cn_header_block = p, cn_header_block_len = unat (fh_length h)\<rparr>)
      | _ \<Rightarrow> Some (H2_INTERNAL_ERROR, out))"

definition h2_frame_parse_push_promise ::
  "h2_frame_header ptr \<Rightarrow> byte list ptr \<Rightarrow> h2_push_promise_payload ptr \<Rightarrow> (h2_error_code \<times> h2_push_promise_payload ptr) option" where
  "h2_frame_parse_push_promise header payload out =
     (case (header, payload, out) of
        (Ptr h, Ptr p, Ptr _) \<Rightarrow>
          if fh_type h \<noteq> H2_FRAME_PUSH_PROMISE \<or> h2_frame_validate_payload header \<noteq> H2_OK
          then Some (H2_PROTOCOL_ERROR, out)
          else
            let block_len = unat (fh_length h);
                finish = (\<lambda>payload_pos block_len pad_len.
                  if block_len < 4 then Some (H2_FRAME_SIZE_ERROR, out)
                  else do {
                    sid \<leftarrow> h2_read_u31 (drop payload_pos p);
                    Some (H2_OK, Ptr \<lparr>pp_promised_stream_id = sid,
                                      pp_header_block = drop (payload_pos + 4) p,
                                      pp_header_block_len = size_sub block_len 4,
                                      pp_pad_len = pad_len\<rparr>)
                  })
            in
            if fh_flags h AND H2_FLAG_PADDED \<noteq> 0 then do {
              pad_len \<leftarrow> rd p 0;
              let block_len = size_sub block_len 1;
              if unat pad_len > block_len then Some (H2_PROTOCOL_ERROR, out)
              else finish 1 (size_sub block_len (unat pad_len)) pad_len
            }
            else finish 0 block_len 0
      | _ \<Rightarrow> Some (H2_INTERNAL_ERROR, out))"

subsection \<open>Local structures\<close>

text \<open>The callers pass the parsers a local structure that is not initialised; it is filled with
  zeros here. The parsers' results do not depend on it where they succeed.\<close>

definition local_frame_header :: h2_frame_header where
  "local_frame_header = \<lparr>fh_length = 0, fh_type = 0, fh_flags = 0, fh_stream_id = 0\<rparr>"

definition local_setting :: h2_setting where
  "local_setting = \<lparr>st_id = 0, st_value = 0\<rparr>"

definition local_priority_payload :: h2_priority_payload where
  "local_priority_payload = \<lparr>pr_exclusive = False, pr_stream_dependency = 0, pr_weight = 0\<rparr>"

definition local_data_payload :: h2_data_payload where
  "local_data_payload = \<lparr>dp_data = [], dp_data_len = 0, dp_pad_len = 0\<rparr>"

definition local_headers_payload :: h2_headers_payload where
  "local_headers_payload = \<lparr>hp_header_block = [], hp_header_block_len = 0, hp_pad_len = 0,
     hp_has_priority = False, hp_priority = local_priority_payload\<rparr>"

definition local_continuation_payload :: h2_continuation_payload where
  "local_continuation_payload = \<lparr>cn_header_block = [], cn_header_block_len = 0\<rparr>"

subsection \<open>Encoders\<close>

text \<open>An encoder returns the number of bytes it wrote, 0 when it refused, and the object behind
  \<open>wire\<close>. A local array is an object of its size; it is filled with zeros here, and every byte
  that is read from it has been written before.\<close>

definition local_array :: "nat \<Rightarrow> byte list" where
  "local_array n = replicate n 0"

lemma length_local_array [simp]: "length (local_array n) = n"
  by (simp add: local_array_def)

definition h2_frame_encode_raw ::
  "byte list ptr \<Rightarrow> nat \<Rightarrow> byte \<Rightarrow> byte \<Rightarrow> u32 \<Rightarrow> byte list ptr \<Rightarrow> nat \<Rightarrow> (nat \<times> byte list ptr) option" where
  "h2_frame_encode_raw wire cap type flags stream_id payload payload_len =
     (if wire = NULL \<or> payload_len > H2_MAX_FRAME_SIZE \<or> cap < size_add H2_FRAME_HEADER_LEN payload_len
      then Some (0, wire)
      else if payload_len > 0 \<and> payload = NULL then Some (0, wire)
      else do {
        let header = \<lparr>fh_length = of_nat payload_len, fh_type = type, fh_flags = flags, fh_stream_id = stream_id\<rparr>;
        (ret, wire) \<leftarrow> h2_frame_write_header wire cap (Ptr header);
        if ret \<noteq> H2_OK then Some (0, wire)
        else (case (wire, payload) of
            (Ptr w, Ptr p) \<Rightarrow>
              if payload_len > 0 then do {
                bytes \<leftarrow> rd_block p payload_len;
                w \<leftarrow> wr_block w H2_FRAME_HEADER_LEN bytes;
                Some (size_add H2_FRAME_HEADER_LEN payload_len, Ptr w)
              }
              else Some (size_add H2_FRAME_HEADER_LEN payload_len, wire)
          | _ \<Rightarrow> Some (size_add H2_FRAME_HEADER_LEN payload_len, wire))
      })"

definition h2_frame_encode_data ::
  "byte list ptr \<Rightarrow> nat \<Rightarrow> u32 \<Rightarrow> byte \<Rightarrow> byte list ptr \<Rightarrow> nat \<Rightarrow> (nat \<times> byte list ptr) option" where
  "h2_frame_encode_data wire cap stream_id flags data data_len =
     (if stream_id = 0 \<or> flags AND H2_FLAG_PADDED \<noteq> 0 then Some (0, wire)
      else h2_frame_encode_raw wire cap H2_FRAME_DATA flags stream_id data data_len)"

definition h2_frame_encode_headers ::
  "byte list ptr \<Rightarrow> nat \<Rightarrow> u32 \<Rightarrow> byte \<Rightarrow> byte list ptr \<Rightarrow> nat \<Rightarrow> (nat \<times> byte list ptr) option" where
  "h2_frame_encode_headers wire cap stream_id flags header_block header_block_len =
     (if stream_id = 0 \<or> flags AND (H2_FLAG_PADDED OR H2_FLAG_PRIORITY) \<noteq> 0 then Some (0, wire)
      else h2_frame_encode_raw wire cap H2_FRAME_HEADERS flags stream_id header_block header_block_len)"

definition h2_frame_encode_priority ::
  "byte list ptr \<Rightarrow> nat \<Rightarrow> u32 \<Rightarrow> h2_priority_payload ptr \<Rightarrow> (nat \<times> byte list ptr) option" where
  "h2_frame_encode_priority wire cap stream_id priority =
     (case priority of
        NULL \<Rightarrow> Some (0, wire)
      | Ptr pr \<Rightarrow>
          if stream_id = 0 then Some (0, wire)
          else do {
            let dependency = pr_stream_dependency pr AND 0x7fffffff;
            let dependency = (if pr_exclusive pr then dependency OR 0x80000000 else dependency);
            payload \<leftarrow> h2_write_u32 (local_array 5) 0 dependency;
            payload \<leftarrow> wr payload 4 (pr_weight pr);
            h2_frame_encode_raw wire cap H2_FRAME_PRIORITY 0 stream_id (Ptr payload) 5
          })"

definition h2_frame_encode_rst_stream ::
  "byte list ptr \<Rightarrow> nat \<Rightarrow> u32 \<Rightarrow> u32 \<Rightarrow> (nat \<times> byte list ptr) option" where
  "h2_frame_encode_rst_stream wire cap stream_id error_code =
     (if stream_id = 0 then Some (0, wire)
      else do {
        payload \<leftarrow> h2_write_u32 (local_array 4) 0 error_code;
        h2_frame_encode_raw wire cap H2_FRAME_RST_STREAM 0 stream_id (Ptr payload) 4
      })"

text \<open>The loop of \<open>h2_frame_encode_settings\<close>, over the 96-byte array \<open>payload\<close>.\<close>

fun h2_frame_encode_settings_loop ::
  "h2_setting list \<Rightarrow> nat \<Rightarrow> nat \<Rightarrow> byte list \<Rightarrow> byte list option" where
  "h2_frame_encode_settings_loop settings setting_index 0 payload = Some payload"
| "h2_frame_encode_settings_loop settings setting_index (Suc n) payload = do {
     s \<leftarrow> rd settings setting_index;
     payload \<leftarrow> h2_write_u16 payload (setting_index * 6) (st_id s);
     payload \<leftarrow> h2_write_u32 payload (setting_index * 6 + 2) (st_value s);
     h2_frame_encode_settings_loop settings (Suc setting_index) n payload
   }"

definition h2_frame_encode_settings ::
  "byte list ptr \<Rightarrow> nat \<Rightarrow> byte \<Rightarrow> h2_setting list ptr \<Rightarrow> nat \<Rightarrow> (nat \<times> byte list ptr) option" where
  "h2_frame_encode_settings wire cap flags settings settings_len =
     (if flags AND H2_FLAG_ACK \<noteq> 0 then
        (if settings_len = 0 then h2_frame_encode_raw wire cap H2_FRAME_SETTINGS H2_FLAG_ACK 0 NULL 0
         else Some (0, wire))
      else if settings_len > 96 div 6 \<or> (settings_len > 0 \<and> settings = NULL) then Some (0, wire)
      else do {
        payload \<leftarrow> h2_frame_encode_settings_loop (case settings of Ptr s \<Rightarrow> s | NULL \<Rightarrow> []) 0 settings_len (local_array 96);
        h2_frame_encode_raw wire cap H2_FRAME_SETTINGS flags 0 (Ptr payload) (settings_len * 6)
      })"

definition h2_frame_encode_push_promise ::
  "byte list ptr \<Rightarrow> nat \<Rightarrow> u32 \<Rightarrow> byte \<Rightarrow> u32 \<Rightarrow> byte list ptr \<Rightarrow> nat \<Rightarrow> (nat \<times> byte list ptr) option" where
  "h2_frame_encode_push_promise wire cap stream_id flags promised_stream_id header_block header_block_len =
     (if stream_id = 0 \<or> promised_stream_id = 0 \<or> flags AND H2_FLAG_PADDED \<noteq> 0 \<or>
         header_block_len > SIZE_MAX - 4 \<or> header_block_len > H2_DEFAULT_MAX_FRAME_SIZE - 4 \<or>
         (header_block_len > 0 \<and> header_block = NULL)
      then Some (0, wire)
      else do {
        payload \<leftarrow> h2_write_u32 (local_array H2_DEFAULT_MAX_FRAME_SIZE) 0 (promised_stream_id AND 0x7fffffff);
        payload \<leftarrow> (case header_block of
            Ptr b \<Rightarrow> if header_block_len > 0
                     then do { bytes \<leftarrow> rd_block b header_block_len; wr_block payload 4 bytes }
                     else Some payload
          | NULL \<Rightarrow> Some payload);
        h2_frame_encode_raw wire cap H2_FRAME_PUSH_PROMISE flags stream_id (Ptr payload) (size_add header_block_len 4)
      })"

definition h2_frame_encode_ping ::
  "byte list ptr \<Rightarrow> nat \<Rightarrow> byte \<Rightarrow> byte list ptr \<Rightarrow> (nat \<times> byte list ptr) option" where
  "h2_frame_encode_ping wire cap flags opaque =
     (if opaque = NULL then Some (0, wire)
      else h2_frame_encode_raw wire cap H2_FRAME_PING flags 0 opaque 8)"

text \<open>The guard of \<open>h2_frame_encode_goaway\<close> adds 8 to \<open>debug_len\<close> in \<open>size_t\<close> arithmetic.\<close>

definition h2_frame_encode_goaway ::
  "byte list ptr \<Rightarrow> nat \<Rightarrow> u32 \<Rightarrow> u32 \<Rightarrow> byte list ptr \<Rightarrow> nat \<Rightarrow> (nat \<times> byte list ptr) option" where
  "h2_frame_encode_goaway wire cap last_stream_id error_code debug_data debug_len =
     (if size_add debug_len 8 > H2_DEFAULT_MAX_FRAME_SIZE \<or> (debug_len > 0 \<and> debug_data = NULL)
      then Some (0, wire)
      else do {
        payload \<leftarrow> h2_write_u32 (local_array H2_DEFAULT_MAX_FRAME_SIZE) 0 (last_stream_id AND 0x7fffffff);
        payload \<leftarrow> h2_write_u32 payload 4 error_code;
        payload \<leftarrow> (case debug_data of
            Ptr d \<Rightarrow> if debug_len > 0
                     then do { bytes \<leftarrow> rd_block d debug_len; wr_block payload 8 bytes }
                     else Some payload
          | NULL \<Rightarrow> Some payload);
        h2_frame_encode_raw wire cap H2_FRAME_GOAWAY 0 0 (Ptr payload) (size_add debug_len 8)
      })"

definition h2_frame_encode_window_update ::
  "byte list ptr \<Rightarrow> nat \<Rightarrow> u32 \<Rightarrow> u32 \<Rightarrow> (nat \<times> byte list ptr) option" where
  "h2_frame_encode_window_update wire cap stream_id increment =
     (if increment = 0 \<or> increment AND 0x80000000 \<noteq> 0 then Some (0, wire)
      else do {
        payload \<leftarrow> h2_write_u32 (local_array 4) 0 increment;
        h2_frame_encode_raw wire cap H2_FRAME_WINDOW_UPDATE 0 stream_id (Ptr payload) 4
      })"

definition h2_frame_encode_continuation ::
  "byte list ptr \<Rightarrow> nat \<Rightarrow> u32 \<Rightarrow> byte \<Rightarrow> byte list ptr \<Rightarrow> nat \<Rightarrow> (nat \<times> byte list ptr) option" where
  "h2_frame_encode_continuation wire cap stream_id flags header_block header_block_len =
     (if stream_id = 0 then Some (0, wire)
      else h2_frame_encode_raw wire cap H2_FRAME_CONTINUATION flags stream_id header_block header_block_len)"

end
