(* ===== verification/Hpack_Static.thy ===== *)
theory Hpack_Static
  imports Prelude
begin

section \<open>The HPACK static table\<close>

text \<open>
  \<open>include/http2/hpack_static.h\<close> and \<open>src/hpack_static.c\<close>: the 61 predefined header fields and the
  lookup by index. Entry 0 holds two null pointers and is never returned.
\<close>

definition H2_HPACK_STATIC_TABLE_LEN :: u32 where
  "H2_HPACK_STATIC_TABLE_LEN = 61"

record h2_hpack_static_entry =
  se_name :: "byte list ptr"
  se_value :: "byte list ptr"

definition static_entry :: "string \<Rightarrow> string \<Rightarrow> h2_hpack_static_entry" where
  "static_entry n v = \<lparr>se_name = Ptr (lit n), se_value = Ptr (lit v)\<rparr>"

definition h2_static_table :: "h2_hpack_static_entry list" where
  "h2_static_table =
    [\<lparr>se_name = NULL, se_value = NULL\<rparr>,
     static_entry '':authority'' '''',
     static_entry '':method'' ''GET'',
     static_entry '':method'' ''POST'',
     static_entry '':path'' ''/'',
     static_entry '':path'' ''/index.html'',
     static_entry '':scheme'' ''http'',
     static_entry '':scheme'' ''https'',
     static_entry '':status'' ''200'',
     static_entry '':status'' ''204'',
     static_entry '':status'' ''206'',
     static_entry '':status'' ''304'',
     static_entry '':status'' ''400'',
     static_entry '':status'' ''404'',
     static_entry '':status'' ''500'',
     static_entry ''accept-charset'' '''',
     static_entry ''accept-encoding'' ''gzip, deflate'',
     static_entry ''accept-language'' '''',
     static_entry ''accept-ranges'' '''',
     static_entry ''accept'' '''',
     static_entry ''access-control-allow-origin'' '''',
     static_entry ''age'' '''',
     static_entry ''allow'' '''',
     static_entry ''authorization'' '''',
     static_entry ''cache-control'' '''',
     static_entry ''content-disposition'' '''',
     static_entry ''content-encoding'' '''',
     static_entry ''content-language'' '''',
     static_entry ''content-length'' '''',
     static_entry ''content-location'' '''',
     static_entry ''content-range'' '''',
     static_entry ''content-type'' '''',
     static_entry ''cookie'' '''',
     static_entry ''date'' '''',
     static_entry ''etag'' '''',
     static_entry ''expect'' '''',
     static_entry ''expires'' '''',
     static_entry ''from'' '''',
     static_entry ''host'' '''',
     static_entry ''if-match'' '''',
     static_entry ''if-modified-since'' '''',
     static_entry ''if-none-match'' '''',
     static_entry ''if-range'' '''',
     static_entry ''if-unmodified-since'' '''',
     static_entry ''last-modified'' '''',
     static_entry ''link'' '''',
     static_entry ''location'' '''',
     static_entry ''max-forwards'' '''',
     static_entry ''proxy-authenticate'' '''',
     static_entry ''proxy-authorization'' '''',
     static_entry ''range'' '''',
     static_entry ''referer'' '''',
     static_entry ''refresh'' '''',
     static_entry ''retry-after'' '''',
     static_entry ''server'' '''',
     static_entry ''set-cookie'' '''',
     static_entry ''strict-transport-security'' '''',
     static_entry ''transfer-encoding'' '''',
     static_entry ''user-agent'' '''',
     static_entry ''vary'' '''',
     static_entry ''via'' '''',
     static_entry ''www-authenticate'' '''']"

definition h2_hpack_static_get :: "u32 \<Rightarrow> h2_hpack_static_entry ptr" where
  "h2_hpack_static_get index =
     (if index = 0 \<or> index > H2_HPACK_STATIC_TABLE_LEN then NULL else Ptr (h2_static_table ! unat index))"

subsection \<open>Facts about the table\<close>

lemma length_static_table [simp]: "length h2_static_table = 62"
  by (simp add: h2_static_table_def)

text \<open>Every entry but the first holds two strings, short enough for the arrays of a header field
  and without an embedded terminator.\<close>

definition entry_ok :: "h2_hpack_static_entry \<Rightarrow> bool" where
  "entry_ok e = (case (se_name e, se_value e) of
     (Ptr n, Ptr v) \<Rightarrow> n \<noteq> [] \<and> length n < 64 \<and> length v < 256 \<and> 0 \<notin> set n \<and> 0 \<notin> set v
   | _ \<Rightarrow> False)"

lemma static_table_ok: "list_all entry_ok (tl h2_static_table)"
  by (simp add: h2_static_table_def static_entry_def entry_ok_def lit_def)

lemma static_get_cases:
  "h2_hpack_static_get index = NULL \<and> (index = 0 \<or> 61 < index) \<or>
   (\<exists>n v. h2_hpack_static_get index = Ptr \<lparr>se_name = Ptr n, se_value = Ptr v\<rparr> \<and> index \<noteq> 0 \<and> index \<le> 61 \<and>
      n \<noteq> [] \<and> length n < 64 \<and> length v < 256 \<and> 0 \<notin> set n \<and> 0 \<notin> set v)"
proof (cases "index = 0 \<or> 61 < index")
  case True
  then show ?thesis by (auto simp: h2_hpack_static_get_def H2_HPACK_STATIC_TABLE_LEN_def)
next
  case False
  then have i: "0 < unat index" "unat index < 62"
    by (simp_all add: word_less_nat_alt unat_gt_0 not_less)
  then have "tl h2_static_table ! (unat index - 1) = h2_static_table ! unat index"
    by (subst nth_tl) simp_all
  moreover have "entry_ok (tl h2_static_table ! (unat index - 1))"
    using static_table_ok i by (simp add: list_all_length)
  ultimately have "entry_ok (h2_static_table ! unat index)" by simp
  then show ?thesis
    using False
    by (cases "h2_static_table ! unat index")
       (auto simp: entry_ok_def h2_hpack_static_get_def H2_HPACK_STATIC_TABLE_LEN_def split: ptr.splits)
qed

end
