(* ===== verification/Hpack.thy ===== *)
theory Hpack
  imports Frame Hpack_Static
begin

unbundle bit_operations_syntax

section \<open>HPACK header compression\<close>

text \<open>
  \<open>include/http2/hpack.h\<close> and \<open>src/hpack.c\<close>: the prefixed integers and plain string literals of
  RFC 7541, the encoders the server uses for its response, the decoder of a header list, and the
  decoder that only extracts the request path. A \<open>uint64_t\<close> local is a \<open>nat\<close> with the wrap-around
  of 64 bits written out, as for \<open>size_t\<close>.
\<close>

definition H2_HEADER_NAME_CAP :: nat where
  "H2_HEADER_NAME_CAP = 64"

definition H2_HEADER_VALUE_CAP :: nat where
  "H2_HEADER_VALUE_CAP = 256"

lemmas [h2_consts] = H2_HEADER_NAME_CAP_def H2_HEADER_VALUE_CAP_def

record h2_header_field =
  hf_name :: "byte list"
  hf_value :: "byte list"

definition h2_copy_text ::
  "byte list ptr \<Rightarrow> nat \<Rightarrow> byte list ptr \<Rightarrow> (h2_error_code \<times> byte list ptr) option" where
  "h2_copy_text dst dst_cap src =
     (case (dst, src) of
        (Ptr _, Ptr s) \<Rightarrow>
          if dst_cap = 0 then Some (H2_COMPRESSION_ERROR, dst)
          else
            let src_len = length (cstr s) in
            if src_len \<ge> dst_cap then Some (H2_REFUSED_STREAM, dst)
            else do {
              d \<leftarrow> store_str dst_cap (cstr s);
              Some (H2_OK, Ptr d)
            }
      | _ \<Rightarrow> Some (H2_COMPRESSION_ERROR, dst))"

subsection \<open>Integers\<close>

definition prefix_max :: "nat \<Rightarrow> nat" where
  "prefix_max prefix_bits = 2 ^ prefix_bits - 1"

text \<open>The continuation bytes of an integer: the \<open>while\<close> loop with its locals \<open>pos\<close>, \<open>shift\<close> and
  \<open>result\<close>. The result is the error code with the value and the position after the integer.\<close>

function h2_hpack_decode_integer_loop ::
  "byte list \<Rightarrow> nat \<Rightarrow> nat \<Rightarrow> nat \<Rightarrow> nat \<Rightarrow> (h2_error_code \<times> u32 \<times> nat) option" where
  "h2_hpack_decode_integer_loop w wire_len pos shift result =
     (if pos < wire_len then do {
        byte \<leftarrow> rd w pos;
        if pos > 5 then Some (H2_COMPRESSION_ERROR, 0, 0)
        else if shift \<ge> 32 then Some (H2_COMPRESSION_ERROR, 0, 0)
        else do {
          let byte_value = unat (byte AND 0x7f);
          if byte_value > UINT32_MAX div 2 ^ shift then Some (H2_COMPRESSION_ERROR, 0, 0)
          else do {
            let addition = (byte_value * 2 ^ shift) mod 2 ^ 64;
            if result > size_sub UINT32_MAX addition then Some (H2_COMPRESSION_ERROR, 0, 0)
            else do {
              let result = size_add result addition;
              let pos = pos + 1;
              if byte AND 0x80 = 0 then Some (H2_OK, of_nat result, pos)
              else h2_hpack_decode_integer_loop w wire_len pos (shift + 7) result
            }
          }
        }
      }
      else Some (H2_COMPRESSION_ERROR, 0, 0))"
  by pat_completeness auto
termination
  by (relation "measure (\<lambda>(w, wire_len, pos, shift, result). wire_len - pos)") auto

declare h2_hpack_decode_integer_loop.simps [simp del]

definition h2_hpack_decode_integer ::
  "byte list ptr \<Rightarrow> nat \<Rightarrow> nat \<Rightarrow> u32 ptr \<Rightarrow> nat ptr \<Rightarrow> (h2_error_code \<times> u32 ptr \<times> nat ptr) option" where
  "h2_hpack_decode_integer wire wire_len prefix_bits value used =
     (case (wire, value, used) of
        (Ptr w, Ptr _, Ptr _) \<Rightarrow>
          if wire_len = 0 \<or> prefix_bits = 0 \<or> prefix_bits > 8 then Some (H2_COMPRESSION_ERROR, value, used)
          else do {
            b \<leftarrow> rd w 0;
            let result = unat (b AND of_nat (prefix_max prefix_bits));
            if result < prefix_max prefix_bits then Some (H2_OK, Ptr (of_nat result), Ptr 1)
            else do {
              (ret, v, n) \<leftarrow> h2_hpack_decode_integer_loop w wire_len 1 0 result;
              if ret = H2_OK then Some (H2_OK, Ptr v, Ptr n) else Some (ret, value, used)
            }
          }
      | _ \<Rightarrow> Some (H2_COMPRESSION_ERROR, value, used))"

text \<open>The continuation bytes written by the encoder. The number returned is 0 when the capacity is
  reached.\<close>

function h2_hpack_encode_integer_loop ::
  "byte list \<Rightarrow> nat \<Rightarrow> nat \<Rightarrow> u32 \<Rightarrow> (nat \<times> byte list) option" where
  "h2_hpack_encode_integer_loop w cap pos value =
     (if value \<ge> 128 then
        if pos \<ge> cap then Some (0, w)
        else do {
          w \<leftarrow> wr w pos (ucast ((value AND 0x7f) OR 0x80));
          h2_hpack_encode_integer_loop w cap (pos + 1) (drop_bit 7 value)
        }
      else if pos \<ge> cap then Some (0, w)
      else do {
        w \<leftarrow> wr w pos (ucast value);
        Some (pos + 1, w)
      })"
  by pat_completeness auto
termination
proof (relation "measure (\<lambda>(w, cap, pos, value). unat value)", goal_cases)
  case (2 w cap pos v w')
  then have "128 \<le> unat v" by (simp add: word_le_nat_alt)
  moreover have "unat (drop_bit 7 v) = unat v div 128"
    by (simp add: drop_bit_eq_div unat_div)
  ultimately show ?case by simp
qed simp

declare h2_hpack_encode_integer_loop.simps [simp del]

definition h2_hpack_encode_integer ::
  "byte list ptr \<Rightarrow> nat \<Rightarrow> nat \<Rightarrow> byte \<Rightarrow> u32 \<Rightarrow> (nat \<times> byte list ptr) option" where
  "h2_hpack_encode_integer wire cap prefix_bits high_bits value =
     (case wire of
        NULL \<Rightarrow> Some (0, wire)
      | Ptr w \<Rightarrow>
          if cap = 0 \<or> prefix_bits = 0 \<or> prefix_bits > 8 then Some (0, wire)
          else if unat value < prefix_max prefix_bits then do {
            w \<leftarrow> wr w 0 (high_bits OR ucast value);
            Some (1, Ptr w)
          }
          else do {
            w \<leftarrow> wr w 0 (high_bits OR of_nat (prefix_max prefix_bits));
            (n, w) \<leftarrow> h2_hpack_encode_integer_loop w cap 1 (value - of_nat (prefix_max prefix_bits));
            Some (n, Ptr w)
          })"

subsection \<open>Encoders\<close>

definition h2_hpack_encode_indexed :: "byte list ptr \<Rightarrow> nat \<Rightarrow> u32 \<Rightarrow> (nat \<times> byte list ptr) option" where
  "h2_hpack_encode_indexed wire cap static_index =
     (if h2_hpack_static_get static_index = NULL then Some (0, wire)
      else h2_hpack_encode_integer wire cap 7 0x80 static_index)"

definition h2_hpack_encode_string ::
  "byte list ptr \<Rightarrow> nat \<Rightarrow> byte list ptr \<Rightarrow> (nat \<times> byte list ptr) option" where
  "h2_hpack_encode_string wire cap text =
     (case (wire, text) of
        (Ptr _, Ptr t) \<Rightarrow>
          let text_len = length (cstr t) in
          if text_len > UINT32_MAX then Some (0, wire)
          else do {
            (prefix_len, wire) \<leftarrow> h2_hpack_encode_integer wire cap 7 0x00 (of_nat text_len);
            if prefix_len = 0 \<or> size_add prefix_len text_len > cap then Some (0, wire)
            else do {
              w \<leftarrow> deref wire;
              w \<leftarrow> wr_block w prefix_len (cstr t);
              Some (size_add prefix_len text_len, Ptr w)
            }
          }
      | _ \<Rightarrow> Some (0, wire))"

text \<open>A call on the sub-object at \<open>wire + pos\<close>: the part before it is kept.\<close>

definition at_offset ::
  "byte list \<Rightarrow> nat \<Rightarrow> (byte list ptr \<Rightarrow> (nat \<times> byte list ptr) option) \<Rightarrow> (nat \<times> byte list) option" where
  "at_offset w pos f = do {
     (n, sub) \<leftarrow> f (Ptr (drop pos w));
     sub \<leftarrow> deref sub;
     Some (n, take pos w @ sub)
   }"

definition h2_hpack_encode_literal_new_name ::
  "byte list ptr \<Rightarrow> nat \<Rightarrow> byte list ptr \<Rightarrow> byte list ptr \<Rightarrow> (nat \<times> byte list ptr) option" where
  "h2_hpack_encode_literal_new_name wire cap name value =
     (case wire of
        NULL \<Rightarrow> Some (0, wire)
      | Ptr w \<Rightarrow>
          if cap = 0 \<or> name = NULL \<or> value = NULL then Some (0, wire)
          else do {
            w \<leftarrow> wr w 0 0x00;
            let pos = 1;
            (chunk_len, w) \<leftarrow> at_offset w pos (\<lambda>q. h2_hpack_encode_string q (size_sub cap pos) name);
            if chunk_len = 0 then Some (0, Ptr w)
            else do {
              let pos = size_add pos chunk_len;
              (chunk_len, w) \<leftarrow> at_offset w pos (\<lambda>q. h2_hpack_encode_string q (size_sub cap pos) value);
              if chunk_len = 0 then Some (0, Ptr w)
              else Some (size_add pos chunk_len, Ptr w)
            }
          })"

subsection \<open>String literals\<close>

definition h2_hpack_decode_string ::
  "byte list ptr \<Rightarrow> nat \<Rightarrow> byte list ptr \<Rightarrow> nat \<Rightarrow> nat ptr \<Rightarrow> (h2_error_code \<times> byte list ptr \<times> nat ptr) option" where
  "h2_hpack_decode_string wire wire_len out out_cap used =
     (case (wire, out, used) of
        (Ptr w, Ptr _, Ptr _) \<Rightarrow>
          if out_cap = 0 \<or> wire_len = 0 then Some (H2_COMPRESSION_ERROR, out, used)
          else do {
            b \<leftarrow> rd w 0;
            if b AND 0x80 \<noteq> 0 then Some (H2_COMPRESSION_ERROR, out, used)
            else do {
              (ret, v, n) \<leftarrow> h2_hpack_decode_integer wire wire_len 7 (Ptr 0) (Ptr 0);
              if ret \<noteq> H2_OK then Some (H2_COMPRESSION_ERROR, out, used)
              else do {
                value_len \<leftarrow> deref v;
                prefix_len \<leftarrow> deref n;
                if size_add prefix_len (unat value_len) > wire_len then Some (H2_COMPRESSION_ERROR, out, used)
                else if unat value_len \<ge> out_cap then Some (H2_REFUSED_STREAM, out, used)
                else do {
                  bytes \<leftarrow> rd_block (drop prefix_len w) (unat value_len);
                  s \<leftarrow> store_str out_cap bytes;
                  Some (H2_OK, Ptr s, Ptr (size_add prefix_len (unat value_len)))
                }
              }
            }
          }
      | _ \<Rightarrow> Some (H2_COMPRESSION_ERROR, out, used))"

definition h2_hpack_skip_string_capped ::
  "byte list ptr \<Rightarrow> nat \<Rightarrow> nat \<Rightarrow> nat ptr \<Rightarrow> (h2_error_code \<times> nat ptr) option" where
  "h2_hpack_skip_string_capped wire wire_len value_cap used =
     (case (wire, used) of
        (Ptr w, Ptr _) \<Rightarrow>
          if wire_len = 0 then Some (H2_COMPRESSION_ERROR, used)
          else do {
            (ret, v, n) \<leftarrow> h2_hpack_decode_integer wire wire_len 7 (Ptr 0) (Ptr 0);
            if ret \<noteq> H2_OK then Some (H2_COMPRESSION_ERROR, used)
            else do {
              value_len \<leftarrow> deref v;
              prefix_len \<leftarrow> deref n;
              if size_add prefix_len (unat value_len) > wire_len then Some (H2_COMPRESSION_ERROR, used)
              else if unat value_len \<ge> value_cap then Some (H2_REFUSED_STREAM, used)
              else Some (H2_OK, Ptr (size_add prefix_len (unat value_len)))
            }
          }
      | _ \<Rightarrow> Some (H2_COMPRESSION_ERROR, used))"

text \<open>\<open>pos\<close> is an in-out parameter; the name array is returned with the new position.\<close>

definition h2_hpack_decode_indexed_literal_name ::
  "byte list \<Rightarrow> nat \<Rightarrow> nat \<Rightarrow> byte list \<Rightarrow> nat \<Rightarrow> nat \<Rightarrow> (h2_error_code \<times> byte list \<times> nat) option" where
  "h2_hpack_decode_indexed_literal_name w wire_len prefix_bits name name_cap pos = do {
     (ret, v, n) \<leftarrow> h2_hpack_decode_integer (Ptr (drop pos w)) (size_sub wire_len pos) prefix_bits (Ptr 0) (Ptr 0);
     if ret \<noteq> H2_OK then Some (H2_COMPRESSION_ERROR, name, pos)
     else do {
       name_index \<leftarrow> deref v;
       used \<leftarrow> deref n;
       let pos = size_add pos used;
       if name_index = 0 then do {
         (ret, nm, n) \<leftarrow> h2_hpack_decode_string (Ptr (drop pos w)) (size_sub wire_len pos) (Ptr name) name_cap (Ptr 0);
         name \<leftarrow> deref nm;
         if ret \<noteq> H2_OK then Some (ret, name, pos)
         else do {
           used \<leftarrow> deref n;
           Some (H2_OK, name, size_add pos used)
         }
       }
       else (case h2_hpack_static_get name_index of
           NULL \<Rightarrow> Some (H2_COMPRESSION_ERROR, name, pos)
         | Ptr e \<Rightarrow> do {
             (ret, nm) \<leftarrow> h2_copy_text (Ptr name) name_cap (se_name e);
             name \<leftarrow> deref nm;
             Some (ret, name, pos)
           })
     }
   }"

subsection \<open>Header lists\<close>

text \<open>One iteration of the loop of \<open>h2_hpack_decode_headers\<close>, with the locals \<open>pos\<close> and \<open>count\<close> and the
  caller's array: \<open>Inl\<close> is a \<open>return\<close>, \<open>Inr\<close> the state of the next iteration.\<close>

definition h2_hpack_decode_headers_step ::
  "byte list \<Rightarrow> nat \<Rightarrow> nat \<Rightarrow> nat \<times> nat \<times> h2_header_field list \<Rightarrow>
     ((h2_error_code \<times> h2_header_field list) + (nat \<times> nat \<times> h2_header_field list)) option" where
  "h2_hpack_decode_headers_step w wire_len field_cap = (\<lambda>(pos, count, flds).
     if count \<ge> field_cap then Some (Inl (H2_REFUSED_STREAM, flds))
     else do {
       b \<leftarrow> rd w pos;
       if b AND 0x80 \<noteq> 0 then do {
         (ret, v, n) \<leftarrow> h2_hpack_decode_integer (Ptr (drop pos w)) (size_sub wire_len pos) 7 (Ptr 0) (Ptr 0);
         if ret \<noteq> H2_OK then Some (Inl (H2_COMPRESSION_ERROR, flds))
         else do {
           index \<leftarrow> deref v;
           used \<leftarrow> deref n;
           (case h2_hpack_static_get index of
              NULL \<Rightarrow> Some (Inl (H2_COMPRESSION_ERROR, flds))
            | Ptr e \<Rightarrow> do {
                f \<leftarrow> rd flds count;
                (ret, nm) \<leftarrow> h2_copy_text (Ptr (hf_name f)) H2_HEADER_NAME_CAP (se_name e);
                nm \<leftarrow> deref nm;
                let f = f\<lparr>hf_name := nm\<rparr>;
                flds \<leftarrow> wr flds count f;
                if ret \<noteq> H2_OK then Some (Inl (H2_REFUSED_STREAM, flds))
                else do {
                  (ret, vl) \<leftarrow> h2_copy_text (Ptr (hf_value f)) H2_HEADER_VALUE_CAP (se_value e);
                  vl \<leftarrow> deref vl;
                  flds \<leftarrow> wr flds count (f\<lparr>hf_value := vl\<rparr>);
                  if ret \<noteq> H2_OK then Some (Inl (H2_REFUSED_STREAM, flds))
                  else Some (Inr (size_add pos used, count + 1, flds))
                }
              })
         }
       }
       else if b AND 0xe0 = 0x20 then do {
         (ret, v, n) \<leftarrow> h2_hpack_decode_integer (Ptr (drop pos w)) (size_sub wire_len pos) 5 (Ptr 0) (Ptr 0);
         if ret \<noteq> H2_OK then Some (Inl (H2_COMPRESSION_ERROR, flds))
         else do {
           used \<leftarrow> deref n;
           Some (Inr (size_add pos used, count, flds))
         }
       }
       else do {
         f \<leftarrow> rd flds count;
         (ret, nm, pos) \<leftarrow> h2_hpack_decode_indexed_literal_name w wire_len (if b AND 0x40 \<noteq> 0 then 6 else 4)
                            (hf_name f) H2_HEADER_NAME_CAP pos;
         let f = f\<lparr>hf_name := nm\<rparr>;
         flds \<leftarrow> wr flds count f;
         if ret \<noteq> H2_OK then Some (Inl (ret, flds))
         else do {
           (ret, vl, n) \<leftarrow> h2_hpack_decode_string (Ptr (drop pos w)) (size_sub wire_len pos) (Ptr (hf_value f))
                            H2_HEADER_VALUE_CAP (Ptr 0);
           vl \<leftarrow> deref vl;
           flds \<leftarrow> wr flds count (f\<lparr>hf_value := vl\<rparr>);
           if ret \<noteq> H2_OK then Some (Inl (ret, flds))
           else do {
             used \<leftarrow> deref n;
             Some (Inr (size_add pos used, count + 1, flds))
           }
         }
       }
     })"

text \<open>One iteration of the loop of \<open>h2_hpack_extract_path\<close>, with the local \<open>pos\<close> and the path array.\<close>

definition h2_maybe_copy_path ::
  "byte list ptr \<Rightarrow> byte list ptr \<Rightarrow> byte list \<Rightarrow> nat \<Rightarrow> (h2_error_code \<times> byte list) option" where
  "h2_maybe_copy_path name val path path_cap = do {
     nm \<leftarrow> deref name;
     if cstr nm = lit '':path'' then do {
       (ret, p) \<leftarrow> h2_copy_text (Ptr path) path_cap val;
       p \<leftarrow> deref p;
       Some (ret, p)
     }
     else Some (H2_OK, path)
   }"

definition h2_hpack_extract_path_step ::
  "byte list \<Rightarrow> nat \<Rightarrow> nat \<Rightarrow> nat \<times> byte list \<Rightarrow> ((h2_error_code \<times> byte list) + (nat \<times> byte list)) option" where
  "h2_hpack_extract_path_step w wire_len path_cap = (\<lambda>(pos, path). do {
     b \<leftarrow> rd w pos;
     if b AND 0x80 \<noteq> 0 then do {
       (ret, v, n) \<leftarrow> h2_hpack_decode_integer (Ptr (drop pos w)) (size_sub wire_len pos) 7 (Ptr 0) (Ptr 0);
       if ret \<noteq> H2_OK then Some (Inl (H2_COMPRESSION_ERROR, path))
       else do {
         index \<leftarrow> deref v;
         used \<leftarrow> deref n;
         (case h2_hpack_static_get index of
            NULL \<Rightarrow> Some (Inl (H2_COMPRESSION_ERROR, path))
          | Ptr e \<Rightarrow> do {
              (ret, path) \<leftarrow> h2_maybe_copy_path (se_name e) (se_value e) path path_cap;
              if ret \<noteq> H2_OK then Some (Inl (ret, path))
              else Some (Inr (size_add pos used, path))
            })
       }
     }
     else if b AND 0xe0 = 0x20 then do {
       (ret, v, n) \<leftarrow> h2_hpack_decode_integer (Ptr (drop pos w)) (size_sub wire_len pos) 5 (Ptr 0) (Ptr 0);
       if ret \<noteq> H2_OK then Some (Inl (H2_COMPRESSION_ERROR, path))
       else do {
         used \<leftarrow> deref n;
         Some (Inr (size_add pos used, path))
       }
     }
     else do {
       (ret, name, pos) \<leftarrow> h2_hpack_decode_indexed_literal_name w wire_len (if b AND 0x40 \<noteq> 0 then 6 else 4)
                            [] H2_HEADER_NAME_CAP pos;
       if ret \<noteq> H2_OK then Some (Inl (ret, path))
       else if cstr name = lit '':path'' then do {
         (ret, vl, n) \<leftarrow> h2_hpack_decode_string (Ptr (drop pos w)) (size_sub wire_len pos) (Ptr [])
                          H2_HEADER_VALUE_CAP (Ptr 0);
         if ret \<noteq> H2_OK then Some (Inl (ret, path))
         else do {
           used \<leftarrow> deref n;
           (ret, p) \<leftarrow> h2_copy_text (Ptr path) path_cap vl;
           path \<leftarrow> deref p;
           if ret \<noteq> H2_OK then Some (Inl (ret, path))
           else Some (Inr (size_add pos used, path))
         }
       }
       else do {
         (ret, n) \<leftarrow> h2_hpack_skip_string_capped (Ptr (drop pos w)) (size_sub wire_len pos) H2_HEADER_VALUE_CAP (Ptr 0);
         if ret \<noteq> H2_OK then Some (Inl (ret, path))
         else do {
           used \<leftarrow> deref n;
           Some (Inr (size_add pos used, path))
         }
       }
     }
   })"

text \<open>The two loops. They stop because every iteration moves \<open>pos\<close> forward, which is proved in
  \<open>Hpack_Blocks\<close>; until then a run that would not stop has the value \<open>None\<close>.\<close>

partial_function (option) h2_hpack_decode_headers_loop ::
  "byte list \<Rightarrow> nat \<Rightarrow> nat \<Rightarrow> nat \<times> nat \<times> h2_header_field list \<Rightarrow>
     (h2_error_code \<times> h2_header_field list \<times> nat option) option" where
  "h2_hpack_decode_headers_loop w wire_len field_cap st =
     (if fst st < wire_len then do {
        r \<leftarrow> h2_hpack_decode_headers_step w wire_len field_cap st;
        (case r of
           Inl (ret, flds) \<Rightarrow> Some (ret, flds, None)
         | Inr st \<Rightarrow> h2_hpack_decode_headers_loop w wire_len field_cap st)
      }
      else Some (H2_OK, snd (snd st), Some (fst (snd st))))"

definition h2_hpack_decode_headers ::
  "byte list ptr \<Rightarrow> nat \<Rightarrow> h2_header_field list ptr \<Rightarrow> nat \<Rightarrow> nat ptr \<Rightarrow>
     (h2_error_code \<times> h2_header_field list ptr \<times> nat ptr) option" where
  "h2_hpack_decode_headers wire wire_len flds field_cap field_len =
     (case (wire, flds, field_len) of
        (Ptr w, Ptr fs, Ptr _) \<Rightarrow> do {
          (ret, fs, count) \<leftarrow> h2_hpack_decode_headers_loop w wire_len field_cap (0, 0, fs);
          Some (ret, Ptr fs, (case count of Some c \<Rightarrow> Ptr c | None \<Rightarrow> field_len))
        }
      | _ \<Rightarrow> Some (H2_COMPRESSION_ERROR, flds, field_len))"

partial_function (option) h2_hpack_extract_path_loop ::
  "byte list \<Rightarrow> nat \<Rightarrow> nat \<Rightarrow> nat \<times> byte list \<Rightarrow> (h2_error_code \<times> byte list) option" where
  "h2_hpack_extract_path_loop w wire_len path_cap st =
     (if fst st < wire_len then do {
        r \<leftarrow> h2_hpack_extract_path_step w wire_len path_cap st;
        (case r of
           Inl (ret, path) \<Rightarrow> Some (ret, path)
         | Inr st \<Rightarrow> h2_hpack_extract_path_loop w wire_len path_cap st)
      }
      else Some (if cstr (snd st) = [] then H2_PROTOCOL_ERROR else H2_OK, snd st))"

definition h2_hpack_extract_path ::
  "byte list ptr \<Rightarrow> nat \<Rightarrow> byte list ptr \<Rightarrow> nat \<Rightarrow> (h2_error_code \<times> byte list ptr) option" where
  "h2_hpack_extract_path wire wire_len path path_cap =
     (case (wire, path) of
        (Ptr w, Ptr _) \<Rightarrow>
          if path_cap = 0 then Some (H2_COMPRESSION_ERROR, path)
          else do {
            (ret, p) \<leftarrow> h2_hpack_extract_path_loop w wire_len path_cap (0, []);
            Some (ret, Ptr p)
          }
      | _ \<Rightarrow> Some (H2_COMPRESSION_ERROR, path))"

end
