(* ===== verification/Hpack_Codec.thy ===== *)
theory Hpack_Codec
  imports Hpack
begin

unbundle bit_operations_syntax

section \<open>Integers and strings: the wire format they implement\<close>

text \<open>
  Reference definitions on byte lists for RFC 7541 section 5: \<open>rfc_integer\<close> reads an integer with an
  N-bit prefix and at most five continuation bytes, \<open>integer_bytes\<close> writes one, and \<open>wire_string\<close> /
  \<open>string_bytes\<close> do so for a string literal. The lemmas \<open>decode_integer_eq\<close>, \<open>encode_integer_eq\<close>,
  \<open>decode_string_eq\<close>, \<open>skip_string_eq\<close> and \<open>encode_string_eq\<close> show that the code computes exactly
  these, without an access outside its objects; the round trip follows on the references.
\<close>

subsection \<open>Decoding an integer\<close>

lemma and_7f: "b AND 0x7f = take_bit 7 (b :: byte)"
  by (simp add: take_bit_eq_mask mask_eq_exp_minus_1)

lemma unat_and_7f: "unat (b AND 0x7f :: byte) = unat b mod 128"
  unfolding and_7f by (simp add: unsigned_take_bit_eq take_bit_eq_mod unat_mod)

fun varint :: "byte list \<Rightarrow> (nat \<times> nat) option" where
  "varint [] = None"
| "varint (b # bs) =
     (if b AND 0x80 = 0 then Some (unat b mod 128, 1)
      else map_option (\<lambda>(v, n). (unat b mod 128 + 128 * v, n + 1)) (varint bs))"

lemma varint_used: "varint bs = Some (v, n) \<Longrightarrow> 1 \<le> n \<and> n \<le> length bs"
  by (induction bs arbitrary: v n) (auto split: if_splits)

lemma fits_iff: "UINT32_MAX div 2 ^ s < c \<longleftrightarrow> UINT32_MAX < c * 2 ^ s"
  by (simp add: div_less_iff_less_mult)

lemma decode_integer_loop_step:
  assumes "pos < len" "len \<le> length w" "pos \<le> 5" "1 \<le> pos" "shift = 7 * (pos - 1)" "r \<le> UINT32_MAX"
  shows "h2_hpack_decode_integer_loop w len pos shift r =
     (let c = unat (w ! pos) mod 128 * 2 ^ shift in
      if r + c > UINT32_MAX then Some (H2_COMPRESSION_ERROR, 0, 0)
      else if w ! pos AND 0x80 = 0 then Some (H2_OK, of_nat (r + c), pos + 1)
      else h2_hpack_decode_integer_loop w len (pos + 1) (shift + 7) (r + c))"
proof -
  let ?v = "unat (w ! pos) mod 128"
  have shift: "shift < 32" "shift \<le> 28" using assms by auto
  have "?v * 2 ^ shift < 128 * 2 ^ 28"
    using power_increasing [OF shift(2), of "2 :: nat"] by (intro mult_less_le_imp_less) simp_all
  then have c: "(?v * 2 ^ shift) mod 18446744073709551616 = ?v * 2 ^ shift" by simp
  have rd: "rd w pos = Some (w ! pos)" using assms by (simp add: rd_in)
  show ?thesis
  proof (cases "?v * 2 ^ shift \<le> UINT32_MAX")
    case True
    moreover from this have "size_sub UINT32_MAX (?v * 2 ^ shift) = UINT32_MAX - ?v * 2 ^ shift" by simp
    moreover have "r + ?v * 2 ^ shift \<le> UINT32_MAX \<Longrightarrow> size_add r (?v * 2 ^ shift) = r + ?v * 2 ^ shift"
      by (simp add: UINT32_MAX_def)
    ultimately show ?thesis
      using assms(1,3) shift rd
      by (subst h2_hpack_decode_integer_loop.simps) (auto simp: unat_and_7f c Let_def fits_iff)
  next
    case False
    then show ?thesis
      using assms(1,3) shift rd
      by (subst h2_hpack_decode_integer_loop.simps) (simp add: unat_and_7f fits_iff Let_def)
  qed
qed

lemma decode_integer_loop_eq:
  assumes "len \<le> length w" "1 \<le> pos" "shift = 7 * (pos - 1)" "r \<le> UINT32_MAX"
  shows "h2_hpack_decode_integer_loop w len pos shift r =
    Some (case varint (drop pos (take len w)) of
       Some (x, k) \<Rightarrow> if pos + k \<le> 6 \<and> r + x * 2 ^ shift \<le> UINT32_MAX
                      then (H2_OK, of_nat (r + x * 2 ^ shift), pos + k) else (H2_COMPRESSION_ERROR, 0, 0)
     | None \<Rightarrow> (H2_COMPRESSION_ERROR, 0, 0))"
  using assms
proof (induction "len - pos" arbitrary: pos shift r)
  case 0
  then show ?case by (simp add: h2_hpack_decode_integer_loop.simps)
next
  case (Suc d)
  then have pos: "pos < len" by simp
  let ?b = "w ! pos" and ?rest = "drop (Suc pos) (take len w)"
  have bytes: "drop pos (take len w) = ?b # ?rest"
    using pos Suc.prems(1) Cons_nth_drop_Suc [of pos "take len w"] by simp
  show ?case
  proof (cases "pos \<le> 5")
    case False
    with pos Suc.prems(1) show ?thesis
      by (subst h2_hpack_decode_integer_loop.simps)
         (auto simp: rd_in split: option.splits dest!: varint_used)
  next
    case True
    let ?c = "unat ?b mod 128 * 2 ^ shift"
    note step = decode_integer_loop_step [OF pos Suc.prems(1) True Suc.prems(2,3,4)]
    show ?thesis
    proof (cases "r + ?c \<le> UINT32_MAX \<and> ?b AND 0x80 \<noteq> 0")
      case cont: True
      have "h2_hpack_decode_integer_loop w len (pos + 1) (shift + 7) (r + ?c) =
        Some (case varint (drop (pos + 1) (take len w)) of
           Some (x, k) \<Rightarrow> if pos + 1 + k \<le> 6 \<and> r + ?c + x * 2 ^ (shift + 7) \<le> UINT32_MAX
                          then (H2_OK, of_nat (r + ?c + x * 2 ^ (shift + 7)), pos + 1 + k) else (H2_COMPRESSION_ERROR, 0, 0)
         | None \<Rightarrow> (H2_COMPRESSION_ERROR, 0, 0))"
        using Suc.hyps(2) Suc.prems cont by (intro Suc.hyps(1)) auto
      with cont step show ?thesis
        by (simp add: bytes Let_def algebra_simps power_add split: option.splits)
    next
      case False
      with step \<open>pos \<le> 5\<close> show ?thesis
        by (auto simp add: bytes Let_def algebra_simps not_le split: option.splits)
    qed
  qed
qed

definition rfc_integer :: "nat \<Rightarrow> byte list \<Rightarrow> (nat \<times> nat) option" where
  "rfc_integer prefix_bits bs =
     (case bs of
        [] \<Rightarrow> None
      | b # rest \<Rightarrow>
          let p = unat b mod 2 ^ prefix_bits in
          if p < prefix_max prefix_bits then Some (p, 1)
          else (case varint rest of
              None \<Rightarrow> None
            | Some (x, k) \<Rightarrow> if k \<le> 5 \<and> p + x \<le> UINT32_MAX then Some (p + x, k + 1) else None))"

lemma prefix_mask: "1 \<le> n \<Longrightarrow> n \<le> 8 \<Longrightarrow> (of_nat (prefix_max n) :: byte) = mask n"
  by (simp add: prefix_max_def mask_eq_exp_minus_1 of_nat_diff)

lemma and_prefix: 
  assumes "1 \<le> n" "n \<le> 8" 
  shows "unat (b AND of_nat (prefix_max n) :: byte) = unat b mod 2 ^ n"
proof -
  have "b AND of_nat (prefix_max n) = take_bit n b" 
    using prefix_mask [OF assms] by (simp add: take_bit_eq_mask)
  then have "unat (b AND of_nat (prefix_max n)) = take_bit n (unat b)" by (simp only: unsigned_take_bit_eq)
  then show ?thesis by (simp only: take_bit_eq_mod)
qed

lemma decode_integer_eq:
  assumes "len \<le> length w" "1 \<le> prefix_bits" "prefix_bits \<le> 8"
  shows "h2_hpack_decode_integer (Ptr w) len prefix_bits (Ptr v0) (Ptr n0) =
    Some (case rfc_integer prefix_bits (take len w) of
        Some (v, n) \<Rightarrow> (H2_OK, Ptr (of_nat v), Ptr n)
      | None \<Rightarrow> (H2_COMPRESSION_ERROR, Ptr v0, Ptr n0))"
proof (cases len)
  case 0
  then show ?thesis by (simp add: h2_hpack_decode_integer_def rfc_integer_def)
next
  case (Suc m)
  with assms(1) obtain b rest where w: "w = b # rest" by (cases w) auto
  let ?p = "unat b mod 2 ^ prefix_bits"
  have "(2 :: nat) ^ prefix_bits \<le> 2 ^ 8" using assms(3) by (intro power_increasing) simp_all
  moreover have "?p < 2 ^ prefix_bits" by simp
  ultimately have p: "?p \<le> UINT32_MAX" by (simp add: UINT32_MAX_def del: mod_less_divisor)
  from decode_integer_loop_eq [OF assms(1) _ _ p, of 1 0]
  show ?thesis
    using assms(2,3) Suc
    by (simp add: h2_hpack_decode_integer_def rfc_integer_def w and_prefix Let_def split: option.splits)
qed

subsection \<open>Encoding an integer\<close>

lemma rfc_integer_used: "rfc_integer p bs = Some (v, n) \<Longrightarrow> 1 \<le> n \<and> n \<le> length bs \<and> v \<le> UINT32_MAX \<or> p > 8"
proof (cases bs)
  case (Cons b rest)
  assume r: "rfc_integer p bs = Some (v, n)"
  show ?thesis
  proof (cases "p \<le> 8")
    case True
    have "prefix_max p < 256"
      using power_increasing [OF True, of "2 :: nat"] by (simp add: prefix_max_def less_imp_diff_less)
    then show ?thesis
      using r Cons by (auto simp: rfc_integer_def Let_def UINT32_MAX_def split: if_splits option.splits dest: varint_used)
  qed simp
qed (simp add: rfc_integer_def)

function enc_varint :: "nat \<Rightarrow> byte list" where
  "enc_varint v = (if v < 128 then [of_nat v] else (of_nat (v mod 128) OR 0x80) # enc_varint (v div 128))"
  by pat_completeness auto
termination by (relation "measure id") auto

declare enc_varint.simps [simp del]

lemma more_bit: "unat (of_nat (v mod 128) OR (0x80 :: byte)) mod 128 = v mod 128"
proof -
  have "take_bit 7 (of_nat (v mod 128) OR (0x80 :: byte)) = take_bit 7 (of_nat (v mod 128))"
    by (simp add: take_bit_or)
  then have "take_bit 7 (unat (of_nat (v mod 128) OR (0x80 :: byte))) = take_bit 7 (unat (of_nat (v mod 128) :: byte))"
    by (metis unsigned_take_bit_eq)
  then show ?thesis by (simp only: take_bit_eq_mod) (simp add: unat_of_nat take_bit_eq_mod)
qed

lemma more_bit_set: "(x OR 0x80) AND (0x80 :: byte) \<noteq> 0"
proof
  assume "(x OR 0x80) AND (0x80 :: byte) = 0"
  then have "bit ((x OR 0x80) AND (0x80 :: byte)) 7 = bit (0 :: byte) 7" by simp
  then show False by (simp add: bit_simps)
qed

lemma and_7f_80: "take_bit 7 x AND (0x80 :: byte) = 0"
proof -
  have "take_bit 7 x AND (0x80 :: byte) = x AND (0x7f AND 0x80)"
    by (simp only: and_7f [symmetric] and.assoc)
  then show ?thesis by simp
qed

lemma more_bit_clear:
  assumes "v < 128"
  shows "of_nat v AND (0x80 :: byte) = 0"
proof -
  have "v = take_bit 7 v" using assms by (simp add: take_bit_eq_mod)
  then have "(of_nat v :: byte) = take_bit 7 (of_nat v)" by (metis of_nat_take_bit)
  then show ?thesis by (metis (no_types) and_7f_80)
qed

lemma varint_enc: "varint (enc_varint v @ rest) = Some (v, length (enc_varint v))"
proof (induction v rule: enc_varint.induct)
  case (1 v)
  show ?case
  proof (cases "v < 128")
    case True
    then show ?thesis by (simp add: enc_varint.simps more_bit_clear unat_of_nat take_bit_eq_mod)
  next
    case False
    then show ?thesis
      using 1 by (simp add: enc_varint.simps [of v] more_bit_set more_bit)
  qed
qed

lemma length_enc_varint: "v < 128 ^ k \<Longrightarrow> 1 \<le> k \<Longrightarrow> length (enc_varint v) \<le> k"
proof (induction k arbitrary: v)
  case (Suc k)
  show ?case
  proof (cases "v < 128")
    case False
    then have "k \<noteq> 0" using Suc.prems by (cases k) auto
    moreover have "v div 128 < 128 ^ k" using Suc.prems by (simp add: less_mult_imp_div_less mult.commute)
    ultimately show ?thesis using Suc.IH [of "v div 128"] False by (simp add: enc_varint.simps [of v])
  qed (simp add: enc_varint.simps)
qed simp

lemma length_enc_varint_u32: "v < 4294967296 \<Longrightarrow> length (enc_varint v) \<le> 5"
  by (rule length_enc_varint) simp_all

lemma enc_varint_nonempty [simp]: "enc_varint v \<noteq> []"
  by (simp add: enc_varint.simps)

lemma pow7: "(2 :: nat) ^ 7 = 128"
  by simp

lemma low_byte: "ucast ((v AND 0x7f) OR 0x80 :: u32) = (of_nat (unat v mod 128) OR 0x80 :: byte)"
proof -
  have "v AND 0x7f = take_bit 7 v" by (simp add: take_bit_eq_mask mask_eq_exp_minus_1)
  then have "unat (v AND 0x7f) = take_bit 7 (unat v)" by (simp only: unsigned_take_bit_eq)
  moreover have "(ucast (v AND 0x7f) :: byte) = of_nat (unat (v AND 0x7f))" by (simp only: of_nat_unat)
  ultimately have "ucast (v AND 0x7f) = (of_nat (unat v mod 128) :: byte)"
    by (simp only: take_bit_eq_mod pow7)
  then show ?thesis by (simp add: unsigned_or_eq)
qed


text \<open>The encoder, when the object is at least as long as the capacity it is given.\<close>

lemma encode_integer_loop_eq:
  assumes "cap \<le> length w" "pos + length (enc_varint (unat v)) \<le> cap"
  shows "h2_hpack_encode_integer_loop w cap pos v =
           Some (pos + length (enc_varint (unat v)), patch w pos (enc_varint (unat v)))"
  using assms
proof (induction "unat v" arbitrary: v w pos rule: less_induct)
  case less
  show ?case
  proof (cases "v < 128")
    case True
    then have "unat v < 128" by (simp add: word_less_nat_alt)
    moreover have "(ucast v :: byte) = of_nat (unat v)" by (simp only: of_nat_unat)
    ultimately show ?thesis
      using less.prems True True [folded not_le]
      by (subst h2_hpack_encode_integer_loop.simps) (simp add: enc_varint.simps wr_patch)
  next
    case False
    then have v: "\<not> unat v < 128" "128 \<le> v" by (simp_all add: word_less_nat_alt word_le_nat_alt)
    have d: "unat (drop_bit 7 v) = unat v div 128" by (simp add: drop_bit_eq_div unat_div)
    have e: "enc_varint (unat v) = (of_nat (unat v mod 128) OR 0x80) # enc_varint (unat v div 128)"
      using v by (simp add: enc_varint.simps [of "unat v"])
    let ?b = "of_nat (unat v mod 128) OR (0x80 :: byte)"
    have "h2_hpack_encode_integer_loop (patch w pos [?b]) cap (pos + 1) (drop_bit 7 v) =
       Some (pos + 1 + length (enc_varint (unat v div 128)), patch (patch w pos [?b]) (pos + 1) (enc_varint (unat v div 128)))"
      using less.hyps [of "drop_bit 7 v" "patch w pos [?b]" "pos + 1"] less.prems v by (simp add: d e)
    then show ?thesis
      using less.prems v
      by (subst h2_hpack_encode_integer_loop.simps) (simp add: low_byte wr_patch patch_patch e)
  qed
qed

text \<open>It gives up when the capacity is too small, never writing past it.\<close>

lemma encode_integer_loop_full:
  assumes "cap \<le> length w" "cap < pos + length (enc_varint (unat v))"
  shows "\<exists>w'. h2_hpack_encode_integer_loop w cap pos v = Some (0, w') \<and> length w' = length w \<and>
    drop cap w' = drop cap w \<and> take pos w' = take pos w"
  using assms
proof (induction "unat v" arbitrary: v w pos rule: less_induct)
  case less
  show ?case
  proof (cases "v < 128 \<or> cap \<le> pos")
    case True
    then have "unat v < 128 \<or> cap \<le> pos" by (simp add: word_less_nat_alt)
    then show ?thesis
      using less.prems True
      by (subst h2_hpack_encode_integer_loop.simps) (auto simp add: enc_varint.simps [of "unat v"] not_le)
  next
    case False
    then have v: "\<not> unat v < 128" "128 \<le> v" "pos < cap" by (simp_all add: word_less_nat_alt word_le_nat_alt not_le)
    have d: "unat (drop_bit 7 v) = unat v div 128" by (simp add: drop_bit_eq_div unat_div)
    have e: "enc_varint (unat v) = (of_nat (unat v mod 128) OR 0x80) # enc_varint (unat v div 128)"
      using v by (simp add: enc_varint.simps [of "unat v"])
    let ?w = "w[pos := of_nat (unat v mod 128) OR 0x80]"
    obtain w' where w': "h2_hpack_encode_integer_loop ?w cap (pos + 1) (drop_bit 7 v) = Some (0, w')"
      "length w' = length w" "drop cap w' = drop cap ?w" "take (pos + 1) w' = take (pos + 1) ?w"
      using less.hyps [of "drop_bit 7 v" ?w "pos + 1"] less.prems v by (auto simp: d e)
    have "take pos w' = take pos w"
      using arg_cong [OF w'(4), of "take pos"] by (simp add: min_def)
    with w' v less.prems show ?thesis
      by (subst h2_hpack_encode_integer_loop.simps) (auto simp: low_byte wr_in not_le)
  qed
qed

definition integer_bytes :: "nat \<Rightarrow> byte \<Rightarrow> nat \<Rightarrow> byte list" where
  "integer_bytes prefix_bits high v =
     (if v < prefix_max prefix_bits then [high OR of_nat v]
      else (high OR of_nat (prefix_max prefix_bits)) # enc_varint (v - prefix_max prefix_bits))"

lemma prefix_max_less: "n \<le> 8 \<Longrightarrow> prefix_max n < 256"
  using power_increasing [of n 8 "2 :: nat"] by (simp add: prefix_max_def less_imp_diff_less)

lemma length_integer_bytes:
  "v < 4294967296 \<Longrightarrow> 1 \<le> length (integer_bytes p h v) \<and> length (integer_bytes p h v) \<le> 6"
  using length_enc_varint_u32 [of "v - prefix_max p"] by (simp add: integer_bytes_def less_imp_diff_less)

lemma encode_integer_eq:
  assumes "1 \<le> p" "p \<le> 8" "0 < cap" "cap \<le> length w" "length (integer_bytes p h (unat v)) \<le> cap"
  shows "h2_hpack_encode_integer (Ptr w) cap p h v =
           Some (length (integer_bytes p h (unat v)), Ptr (patch w 0 (integer_bytes p h (unat v))))"
proof (cases "unat v < prefix_max p")
  case True
  moreover have "w \<noteq> []" using assms by auto
  moreover have "(ucast v :: byte) = of_nat (unat v)" by (simp only: of_nat_unat)
  ultimately show ?thesis
    using assms by (simp add: h2_hpack_encode_integer_def integer_bytes_def wr_patch)
next
  case False
  have w: "w \<noteq> []" using assms by auto
  have "(of_nat (prefix_max p) :: u32) \<le> v"
    using False prefix_max_less [OF assms(2)] by (simp add: word_le_nat_alt unat_of_nat_u32)
  then have d: "unat (v - of_nat (prefix_max p)) = unat v - prefix_max p"
    using prefix_max_less [OF assms(2)] by (simp add: unat_sub unat_of_nat_u32)
  let ?b = "h OR of_nat (prefix_max p)"
  have "h2_hpack_encode_integer_loop (patch w 0 [?b]) cap 1 (v - of_nat (prefix_max p)) =
    Some (1 + length (enc_varint (unat v - prefix_max p)), patch (patch w 0 [?b]) 1 (enc_varint (unat v - prefix_max p)))"
    using encode_integer_loop_eq [of cap "patch w 0 [?b]" 1 "v - of_nat (prefix_max p)"] assms False w
    by (simp add: d integer_bytes_def Suc_le_eq)
  then show ?thesis
    using assms False w
    by (simp add: h2_hpack_encode_integer_def integer_bytes_def wr_patch patch_patch Suc_le_eq)
qed

lemma encode_integer_full:
  assumes "1 \<le> p" "p \<le> 8" "0 < cap" "cap \<le> length w" "cap < length (integer_bytes p h (unat v))"
  shows "\<exists>w'. h2_hpack_encode_integer (Ptr w) cap p h v = Some (0, Ptr w') \<and>
     length w' = length w \<and> drop cap w' = drop cap w"
proof -
  have f: "\<not> unat v < prefix_max p" using assms by (auto simp: integer_bytes_def split: if_splits)
  have w: "w \<noteq> []" using assms by auto
  have "(of_nat (prefix_max p) :: u32) \<le> v"
    using f prefix_max_less [OF assms(2)] by (simp add: word_le_nat_alt unat_of_nat_u32)
  then have d: "unat (v - of_nat (prefix_max p)) = unat v - prefix_max p"
    using prefix_max_less [OF assms(2)] by (simp add: unat_sub unat_of_nat_u32)
  let ?w = "w[0 := h OR of_nat (prefix_max p)]"
  obtain w' where "h2_hpack_encode_integer_loop ?w cap 1 (v - of_nat (prefix_max p)) = Some (0, w')"
     "length w' = length w" "drop cap w' = drop cap ?w"
    using encode_integer_loop_full [of cap ?w 1 "v - of_nat (prefix_max p)"] assms f
    by (auto simp: d integer_bytes_def)
  then show ?thesis
    using assms f w by (auto simp add: h2_hpack_encode_integer_def wr_in)
qed

lemma first_byte:
  assumes "1 \<le> p" "p \<le> 8" "unat h mod 2 ^ p = 0" "x < 2 ^ p"
  shows "unat (h OR of_nat x :: byte) mod 2 ^ p = x"
proof -
  have "take_bit p (unat h) = 0" using assms(3) by (simp only: take_bit_eq_mod)
  then have h: "take_bit p h = 0" by (metis unsigned_take_bit_eq unsigned_eq_0_iff)
  have "x < 256" using assms(4) power_increasing [OF assms(2), of "2 :: nat"] by simp
  then have x: "unat (of_nat x :: byte) = x" by (simp add: unat_of_nat take_bit_eq_mod)
  have "take_bit p (unat (h OR of_nat x)) = unat (take_bit p (h OR of_nat x))" by (simp only: unsigned_take_bit_eq)
  also have "take_bit p (h OR of_nat x) = take_bit p (of_nat x :: byte)" by (simp add: take_bit_or h)
  also have "unat \<dots> = take_bit p x" by (simp only: unsigned_take_bit_eq x)
  also have "\<dots> = x" using assms(4) by (simp add: take_bit_eq_mod)
  finally show ?thesis by (simp only: take_bit_eq_mod)
qed

lemma rfc_integer_bytes:
  assumes "1 \<le> p" "p \<le> 8" "unat h mod 2 ^ p = 0" "v \<le> UINT32_MAX"
  shows "rfc_integer p (integer_bytes p h v @ rest) = Some (v, length (integer_bytes p h v))"
proof -
  have m: "prefix_max p < 2 ^ p" by (simp add: prefix_max_def)
  show ?thesis
  proof (cases "v < prefix_max p")
    case True
    with m have "v < 2 ^ p" by simp
    with True show ?thesis by (simp add: rfc_integer_def integer_bytes_def first_byte [OF assms(1-3)])
  next
    case False
    have "length (enc_varint (v - prefix_max p)) \<le> 5"
      using assms(4) by (intro length_enc_varint_u32) (simp add: UINT32_MAX_def)
    with False show ?thesis
      using assms(4) by (simp add: rfc_integer_def integer_bytes_def first_byte [OF assms(1-3) m] varint_enc)
  qed
qed

subsection \<open>Strings\<close>

definition wire_string :: "nat \<Rightarrow> byte list \<Rightarrow> h2_error_code + (byte list \<times> nat)" where
  "wire_string cap bs =
     (case rfc_integer 7 bs of
        None \<Rightarrow> Inl H2_COMPRESSION_ERROR
      | Some (v, n) \<Rightarrow>
          if n + v > length bs then Inl H2_COMPRESSION_ERROR
          else if v \<ge> cap then Inl H2_REFUSED_STREAM
          else Inr (take v (drop n bs), n + v))"

definition huffman_coded :: "byte list \<Rightarrow> bool" where
  "huffman_coded bs \<longleftrightarrow> bs \<noteq> [] \<and> hd bs AND 0x80 \<noteq> 0"

lemma rfc_integer_bounds:
  assumes "rfc_integer p bs = Some (v, n)" "p \<le> 8"
  shows "1 \<le> n" "n \<le> length bs" "v \<le> UINT32_MAX"
  using rfc_integer_used [OF assms(1)] assms(2) by auto

lemma rfc_integer_Nil [simp]: "rfc_integer p [] = None"
  by (simp add: rfc_integer_def)

lemma decode_string_eq:
  assumes "len \<le> length w" "len < 2 ^ 63" "0 < cap"
  shows "h2_hpack_decode_string (Ptr w) len (Ptr o0) cap (Ptr n0) =
    Some (if huffman_coded (take len w) then (H2_COMPRESSION_ERROR, Ptr o0, Ptr n0)
          else case wire_string cap (take len w) of
             Inl e \<Rightarrow> (e, Ptr o0, Ptr n0)
           | Inr (s, n) \<Rightarrow> (H2_OK, Ptr s, Ptr n))"
proof (cases "len = 0")
  case True
  then show ?thesis by (simp add: h2_hpack_decode_string_def wire_string_def huffman_coded_def)
next
  case len: False
  have w0: "w \<noteq> []" using len assms(1) by auto
  then have w: "w \<noteq> []" "rd w 0 = Some (w ! 0)" "hd (take len w) = w ! 0" "take len w \<noteq> []"
    using len by (simp_all add: rd_in hd_conv_nth)
  show ?thesis
  proof (cases "rfc_integer 7 (take len w)")
    case None
    then show ?thesis
      using assms len w by (simp add: h2_hpack_decode_string_def wire_string_def huffman_coded_def decode_integer_eq)
  next
    case (Some vn)
    then obtain v n where vn: "rfc_integer 7 (take len w) = Some (v, n)" by (cases vn) auto
    note b = rfc_integer_bounds [OF vn, simplified]
    have u: "unat (of_nat v :: u32) = v" using b(3) by (intro unat_of_nat_u32) (simp add: UINT32_MAX_def)
    have s: "size_add n v = n + v"
      using b(2,3) assms(1,2) by (intro size_add_small) (simp add: UINT32_MAX_def)
    show ?thesis
      using assms len w vn b
      by (auto simp add: h2_hpack_decode_string_def wire_string_def huffman_coded_def decode_integer_eq u s
          rd_block_in store_str_in drop_take min_def)
  qed
qed

lemma skip_string_eq:
  assumes "len \<le> length w" "len < 2 ^ 63"
  shows "h2_hpack_skip_string_capped (Ptr w) len cap (Ptr n0) =
    Some (case wire_string cap (take len w) of
             Inl e \<Rightarrow> (e, Ptr n0)
           | Inr (s, n) \<Rightarrow> (H2_OK, Ptr n))"
proof (cases "len = 0")
  case True
  then show ?thesis by (simp add: h2_hpack_skip_string_capped_def wire_string_def)
next
  case len: False
  show ?thesis
  proof (cases "rfc_integer 7 (take len w)")
    case None
    then show ?thesis
      using assms len by (simp add: h2_hpack_skip_string_capped_def wire_string_def decode_integer_eq)
  next
    case (Some vn)
    then obtain v n where vn: "rfc_integer 7 (take len w) = Some (v, n)" by (cases vn) auto
    note b = rfc_integer_bounds [OF vn, simplified]
    have u: "unat (of_nat v :: u32) = v" using b(3) by (intro unat_of_nat_u32) (simp add: UINT32_MAX_def)
    have s: "size_add n v = n + v"
      using b(2,3) assms(1,2) by (intro size_add_small) (simp add: UINT32_MAX_def)
    show ?thesis
      using assms len vn b
      by (auto simp add: h2_hpack_skip_string_capped_def wire_string_def decode_integer_eq u s)
  qed
qed

definition string_bytes :: "byte list \<Rightarrow> byte list" where
  "string_bytes t = integer_bytes 7 0 (length t) @ t"

lemma not_one_le_zero_Nil: "1 \<le> length xs \<Longrightarrow> xs \<noteq> []"
  by auto

lemma encode_string_eq:
  assumes "length (cstr t) \<le> UINT32_MAX" "length (string_bytes (cstr t)) \<le> cap" "cap \<le> length w" "cap < 2 ^ 64"
  shows "h2_hpack_encode_string (Ptr w) cap (Ptr t) =
    Some (length (string_bytes (cstr t)), Ptr (patch w 0 (string_bytes (cstr t))))"
proof -
  let ?t = "cstr t"
  have u: "unat (of_nat (length ?t) :: u32) = length ?t"
    using assms(1) by (intro unat_of_nat_u32) (simp add: UINT32_MAX_def)
  have i: "1 \<le> length (integer_bytes 7 0 (length ?t))"
    using assms(1) by (intro conjunct1 [OF length_integer_bytes]) (simp add: UINT32_MAX_def)
  have fits: "length (integer_bytes 7 0 (length ?t)) + length ?t \<le> cap"
    using assms(2) by (simp add: string_bytes_def)
  have "h2_hpack_encode_integer (Ptr w) cap 7 0x00 (of_nat (length ?t)) =
    Some (length (integer_bytes 7 0 (length ?t)), Ptr (patch w 0 (integer_bytes 7 0 (length ?t))))"
    using encode_integer_eq [of 7 cap w 0 "of_nat (length ?t)"] assms(3) i fits by (simp add: u)
  then show ?thesis
    using assms i fits i [THEN not_one_le_zero_Nil]
    by (simp add: h2_hpack_encode_string_def string_bytes_def wr_block_patch patch_patch Let_def)
qed

lemma first_byte_plain: "v \<le> UINT32_MAX \<Longrightarrow> \<not> huffman_coded (integer_bytes 7 0 v @ rest)"
  by (simp add: huffman_coded_def integer_bytes_def prefix_max_def more_bit_clear)

lemma wire_string_bytes:
  assumes "length t < cap" "length t \<le> UINT32_MAX"
  shows "wire_string cap (string_bytes t @ rest) = Inr (t, length (string_bytes t))"
  using assms rfc_integer_bytes [of 7 0 "length t" "t @ rest"]
  by (simp add: wire_string_def string_bytes_def)

subsection \<open>Round trip\<close>

lemma rfc_example: "h2_hpack_encode_integer (Ptr [0, 0, 0, 0]) 4 5 0x20 1337 = Some (3, Ptr [0x3f, 0x9a, 0x0a, 0])"
  by (simp add: h2_hpack_encode_integer_def h2_hpack_encode_integer_loop.simps prefix_max_def wr_def)

text \<open>C11: whatever integer the HPACK encoder writes, the decoder reads back. For every prefix length
  1 to 8, every 32-bit value and high bits that leave the prefix free, a successful
  \<open>h2_hpack_encode_integer\<close> followed by \<open>h2_hpack_decode_integer\<close> on the bytes it reports gives the
  value again and consumes exactly those bytes.\<close>

theorem integer_round_trip:
  assumes "1 \<le> p" "p \<le> 8" "unat high mod 2 ^ p = 0" "0 < cap" "cap \<le> length w"
    and enc: "h2_hpack_encode_integer (Ptr w) cap p high v = Some (n, Ptr w')" and wrote: "n \<noteq> 0"
  shows "h2_hpack_decode_integer (Ptr w') n p (Ptr v0) (Ptr n0) = Some (H2_OK, Ptr v, Ptr n)"
proof -
  let ?b = "integer_bytes p high (unat v)"
  have fit: "length ?b \<le> cap"
    using encode_integer_full [of p cap w high v] assms by fastforce
  then have n: "n = length ?b" "w' = patch w 0 ?b"
    using encode_integer_eq [OF assms(1,2,4,5) fit] enc by simp_all
  then have "take n w' = ?b" using fit assms(5) by (simp add: take_patch)
  moreover have "rfc_integer p ?b = Some (unat v, length ?b)"
    using rfc_integer_bytes [OF assms(1-3), of "unat v" "[]"] unat_u32_less [of v] by (simp add: UINT32_MAX_def)
  ultimately show ?thesis
    using n fit assms decode_integer_eq [of n w' p v0 n0] by simp
qed

lemma integer_round_trip_witness:
  "h2_hpack_encode_integer (Ptr [0, 0, 0, 0]) 4 5 0x20 1337 = Some (3, Ptr [0x3f, 0x9a, 0x0a, 0]) \<and>
   h2_hpack_decode_integer (Ptr [0x3f, 0x9a, 0x0a, 0]) 3 5 (Ptr 0) (Ptr 0) = Some (H2_OK, Ptr 1337, Ptr 3)"
  using integer_round_trip [of 5 "0x20" 4 "[0, 0, 0, 0]" 1337 3 "[0x3f, 0x9a, 0x0a, 0]" 0 0] rfc_example
  by simp

end
