(* ===== verification/Hpack_Blocks.thy ===== *)
theory Hpack_Blocks
  imports Hpack_Codec
begin

unbundle bit_operations_syntax

section \<open>Header blocks\<close>

text \<open>
  The two decoders of a header block. \<open>wire_item\<close> reads one representation (indexed, table size
  update, literal) from a byte list; one iteration of either decoder does exactly what it says
  (\<open>decodes_wire_item\<close>, \<open>extracts_wire_item\<close>). The locale \<open>block_decoder\<close> is the contract both
  loops share: a step is defined under the invariant and moves forward, hence the run ends with a
  good result. \<open>parse_block\<close> is the reference decoder of a whole block, used to compare the two
  loops and to read back what the encoders write.
\<close>

subsection \<open>One representation\<close>

datatype wire_item = Resize | Header "byte list" "byte list"

definition static_pair :: "nat \<Rightarrow> (byte list \<times> byte list) option" where
  "static_pair i =
     (case h2_hpack_static_get (of_nat i) of
        NULL \<Rightarrow> None
      | Ptr e \<Rightarrow> (case (se_name e, se_value e) of (Ptr n, Ptr v) \<Rightarrow> Some (n, v) | _ \<Rightarrow> None))"

definition wire_name :: "nat \<Rightarrow> byte list \<Rightarrow> h2_error_code + (byte list \<times> nat)" where
  "wire_name prefix_bits bs =
     (case rfc_integer prefix_bits bs of
        None \<Rightarrow> Inl H2_COMPRESSION_ERROR
      | Some (i, n) \<Rightarrow>
          if i = 0 then
            (if huffman_coded (drop n bs) then Inl H2_COMPRESSION_ERROR
             else case wire_string H2_HEADER_NAME_CAP (drop n bs) of
               Inl e \<Rightarrow> Inl e
             | Inr (s, m) \<Rightarrow> Inr (s, n + m))
          else case static_pair i of
            None \<Rightarrow> Inl H2_COMPRESSION_ERROR
          | Some (nm, vl) \<Rightarrow> Inr (nm, n))"

definition wire_item :: "(byte list \<Rightarrow> bool) \<Rightarrow> byte list \<Rightarrow> h2_error_code + (wire_item \<times> nat)" where
  "wire_item plain bs =
     (if hd bs AND 0x80 \<noteq> 0 then
        (case rfc_integer 7 bs of
           None \<Rightarrow> Inl H2_COMPRESSION_ERROR
         | Some (i, n) \<Rightarrow>
             (case static_pair i of
                None \<Rightarrow> Inl H2_COMPRESSION_ERROR
              | Some (nm, vl) \<Rightarrow> Inr (Header nm vl, n)))
      else if hd bs AND 0xe0 = 0x20 then
        (case rfc_integer 5 bs of
           None \<Rightarrow> Inl H2_COMPRESSION_ERROR
         | Some (i, n) \<Rightarrow> Inr (Resize, n))
      else
        (case wire_name (if hd bs AND 0x40 \<noteq> 0 then 6 else 4) bs of
           Inl e \<Rightarrow> Inl e
         | Inr (nm, n) \<Rightarrow>
             if plain nm \<and> huffman_coded (drop n bs) then Inl H2_COMPRESSION_ERROR
             else (case wire_string H2_HEADER_VALUE_CAP (drop n bs) of
                     Inl e \<Rightarrow> Inl e
                   | Inr (vl, m) \<Rightarrow> Inr (Header nm vl, n + m))))"

lemma static_pair_cases:
  assumes "i \<le> UINT32_MAX"
  shows "static_pair i = None \<and> h2_hpack_static_get (of_nat i) = NULL \<or>
    (\<exists>n v. static_pair i = Some (n, v) \<and> h2_hpack_static_get (of_nat i) = Ptr \<lparr>se_name = Ptr n, se_value = Ptr v\<rparr> \<and>
      n \<noteq> [] \<and> length n < 64 \<and> length v < 256 \<and> 0 \<notin> set n \<and> 0 \<notin> set v)"
  using static_get_cases [of "of_nat i"] by (auto simp: static_pair_def)

lemma wire_string_bounds: "wire_string cap bs = Inr (s, n) \<Longrightarrow> 1 \<le> n \<and> n \<le> length bs \<and> length s < cap"
  by (auto simp: wire_string_def split: option.splits if_splits dest: rfc_integer_bounds)

lemma wire_string_error: "wire_string cap bs = Inl e \<Longrightarrow> e \<noteq> H2_OK"
  by (auto simp: wire_string_def split: option.splits if_splits)

lemma wire_name_bounds: "wire_name p bs = Inr (s, n) \<Longrightarrow> p \<le> 8 \<Longrightarrow> 1 \<le> n \<and> n \<le> length bs \<and> length s < 64"
proof -
  assume r: "wire_name p bs = Inr (s, n)" and p: "p \<le> 8"
  then obtain i k where i: "rfc_integer p bs = Some (i, k)" by (auto simp: wire_name_def split: option.splits)
  note b = rfc_integer_bounds [OF i p]
  show ?thesis
  proof (cases "i = 0")
    case True
    then show ?thesis
      using r i b by (auto simp: wire_name_def H2_HEADER_NAME_CAP_def split: if_splits sum.splits dest!: wire_string_bounds)
  next
    case False
    then show ?thesis
      using r i b static_pair_cases [OF b(3)] by (auto simp: wire_name_def split: option.splits)
  qed
qed

lemma wire_item_bounds: "wire_item plain bs = Inr (it, n) \<Longrightarrow> 1 \<le> n \<and> n \<le> length bs"
  by (auto simp: wire_item_def split: if_splits option.splits sum.splits
      dest!: wire_string_bounds wire_name_bounds dest: rfc_integer_bounds)

lemma wire_item_header:
  "wire_item plain bs = Inr (Header nm vl, n) \<Longrightarrow> length nm < 64 \<and> length vl < 256"
proof -
  assume r: "wire_item plain bs = Inr (Header nm vl, n)"
  show ?thesis
  proof (cases "hd bs AND 0x80 \<noteq> 0")
    case True
    with r obtain i where i: "rfc_integer 7 bs = Some (i, n)" "static_pair i = Some (nm, vl)"
      by (auto simp: wire_item_def split: option.splits)
    have "i \<le> UINT32_MAX" using rfc_integer_bounds [OF i(1)] by simp
    with i(2) show ?thesis using static_pair_cases [of i] by auto
  next
    case False
    with r show ?thesis
      by (auto simp: wire_item_def H2_HEADER_VALUE_CAP_def split: if_splits option.splits sum.splits
          dest!: wire_string_bounds wire_name_bounds)
  qed
qed

lemma drop_sub: "pos \<le> len \<Longrightarrow> take (len - pos) (drop pos w) = drop pos (take len w)"
  by (simp add: drop_take)

lemma decode_integer_at:
  assumes "len \<le> length w" "pos \<le> len" "1 \<le> p" "p \<le> 8"
  shows "h2_hpack_decode_integer (Ptr (drop pos w)) (len - pos) p (Ptr v0) (Ptr n0) =
    Some (case rfc_integer p (drop pos (take len w)) of
        Some (v, n) \<Rightarrow> (H2_OK, Ptr (of_nat v), Ptr n)
      | None \<Rightarrow> (H2_COMPRESSION_ERROR, Ptr v0, Ptr n0))"
  using assms decode_integer_eq [of "len - pos" "drop pos w" p v0 n0] by (simp add: drop_sub)

lemma decode_string_at:
  assumes "len \<le> length w" "pos \<le> len" "len < 2 ^ 63" "0 < cap"
  shows "h2_hpack_decode_string (Ptr (drop pos w)) (len - pos) (Ptr o0) cap (Ptr n0) =
    Some (if huffman_coded (drop pos (take len w)) then (H2_COMPRESSION_ERROR, Ptr o0, Ptr n0)
          else case wire_string cap (drop pos (take len w)) of
             Inl e \<Rightarrow> (e, Ptr o0, Ptr n0)
           | Inr (s, n) \<Rightarrow> (H2_OK, Ptr s, Ptr n))"
  using assms decode_string_eq [of "len - pos" "drop pos w" cap o0 n0] by (simp add: drop_sub less_imp_diff_less)

lemma skip_string_at:
  assumes "len \<le> length w" "pos \<le> len" "len < 2 ^ 63"
  shows "h2_hpack_skip_string_capped (Ptr (drop pos w)) (len - pos) cap (Ptr n0) =
    Some (case wire_string cap (drop pos (take len w)) of
             Inl e \<Rightarrow> (e, Ptr n0)
           | Inr (s, n) \<Rightarrow> (H2_OK, Ptr n))"
  using assms skip_string_eq [of "len - pos" "drop pos w" cap n0] by (simp add: drop_sub less_imp_diff_less)

lemma copy_text_eq:
  "0 < cap \<Longrightarrow> h2_copy_text (Ptr d) cap (Ptr s) =
     Some (if cap \<le> length (cstr s) then (H2_REFUSED_STREAM, Ptr d) else (H2_OK, Ptr (cstr s)))"
  by (simp add: h2_copy_text_def mem_simps Let_def)

lemma unat_index: "i \<le> UINT32_MAX \<Longrightarrow> unat (of_nat i :: u32) = i"
  by (rule unat_of_nat_u32) (simp add: UINT32_MAX_def)

lemma index_0_iff: "i \<le> UINT32_MAX \<Longrightarrow> (of_nat i :: u32) = 0 \<longleftrightarrow> i = 0"
  using unat_index [of i] by (auto simp: unat_eq_zero [symmetric])

lemma decode_name_eq:
  assumes "len \<le> length w" "pos \<le> len" "len < 2 ^ 63" "1 \<le> p" "p \<le> 8"
  shows "(case wire_name p (drop pos (take len w)) of
     Inl e \<Rightarrow> \<exists>nm q. h2_hpack_decode_indexed_literal_name w len p nm0 H2_HEADER_NAME_CAP pos = Some (e, nm, q) \<and> e \<noteq> H2_OK
   | Inr (nm, n) \<Rightarrow> h2_hpack_decode_indexed_literal_name w len p nm0 H2_HEADER_NAME_CAP pos = Some (H2_OK, nm, pos + n))"
proof (cases "rfc_integer p (drop pos (take len w))")
  case None
  then show ?thesis
    using assms by (simp add: wire_name_def h2_hpack_decode_indexed_literal_name_def decode_integer_at)
next
  case (Some x)
  then obtain i n where i: "rfc_integer p (drop pos (take len w)) = Some (i, n)" by (cases x) auto
  note b = rfc_integer_bounds [OF i assms(5)]
  have q: "size_add pos n = pos + n" "pos + n \<le> len"
    using b assms by simp_all
  have d: "drop (n + pos) (take len w) = drop (pos + n) (take len w)" by (simp add: add.commute)
  show ?thesis
  proof (cases "i = 0")
    case index: True
    show ?thesis
    proof (cases "huffman_coded (drop (pos + n) (take len w))")
      case True
      then show ?thesis
        using assms i b q index
        by (simp add: wire_name_def h2_hpack_decode_indexed_literal_name_def decode_integer_at decode_string_at
            d H2_HEADER_NAME_CAP_def Let_def)
    next
      case plain: False
      show ?thesis
      proof (cases "wire_string H2_HEADER_NAME_CAP (drop (pos + n) (take len w))")
        case (Inl e)
        then show ?thesis
          using assms i b q index plain wire_string_error [OF Inl]
          by (simp add: wire_name_def h2_hpack_decode_indexed_literal_name_def decode_integer_at decode_string_at
              d H2_HEADER_NAME_CAP_def Let_def)
      next
        case (Inr sm)
        then obtain s m where sm: "wire_string H2_HEADER_NAME_CAP (drop (pos + n) (take len w)) = Inr (s, m)"
          by (cases sm) auto
        have "size_add (pos + n) m = pos + (n + m)"
          using wire_string_bounds [OF sm] q assms by (subst size_add_small) auto
        then show ?thesis
          using assms i b q index plain sm
          by (simp add: wire_name_def h2_hpack_decode_indexed_literal_name_def decode_integer_at decode_string_at
              d H2_HEADER_NAME_CAP_def Let_def)
      qed
    qed
  next
    case False
    then show ?thesis
      using assms i b q static_pair_cases [OF b(3)]
      by (auto simp add: wire_name_def h2_hpack_decode_indexed_literal_name_def decode_integer_at index_0_iff
          copy_text_eq H2_HEADER_NAME_CAP_def cstr_id Let_def)
  qed
qed

lemma wire_name_error: "wire_name p bs = Inl e \<Longrightarrow> e \<noteq> H2_OK"
  by (auto simp: wire_name_def split: option.splits if_splits sum.splits dest: wire_string_error)

lemma wire_item_error: "wire_item plain bs = Inl e \<Longrightarrow> e \<noteq> H2_OK"
  by (auto simp: wire_item_def split: option.splits if_splits sum.splits dest: wire_string_error wire_name_error)

lemma hd_at: "pos < len \<Longrightarrow> len \<le> length w \<Longrightarrow> hd (drop pos (take len w)) = w ! pos"
  by (simp add: hd_drop_conv_nth)

lemma drop_at: "drop (n + pos) xs = drop (pos + n) xs"
  by (simp add: add.commute)

text \<open>The three forms of an item.\<close>

definition literal_item :: "(byte list \<Rightarrow> bool) \<Rightarrow> nat \<Rightarrow> byte list \<Rightarrow> h2_error_code + (wire_item \<times> nat)" where
  "literal_item plain p bs =
     (case wire_name p bs of
        Inl e \<Rightarrow> Inl e
      | Inr (nm, n) \<Rightarrow>
          if plain nm \<and> huffman_coded (drop n bs) then Inl H2_COMPRESSION_ERROR
          else (case wire_string H2_HEADER_VALUE_CAP (drop n bs) of
                  Inl e \<Rightarrow> Inl e
                | Inr (vl, m) \<Rightarrow> Inr (Header nm vl, n + m)))"

lemma wire_item_literal:
  "hd bs AND 0x80 = 0 \<Longrightarrow> hd bs AND 0xe0 \<noteq> 0x20 \<Longrightarrow>
     wire_item plain bs = literal_item plain (if hd bs AND 0x40 \<noteq> 0 then 6 else 4) bs"
  by (simp add: wire_item_def literal_item_def)

lemma field_set [simp]: "(f :: h2_header_field)\<lparr>hf_name := n, hf_value := v\<rparr> = \<lparr>hf_name = n, hf_value = v\<rparr>"
  by (cases f) simp

text \<open>What one iteration of \<open>h2_hpack_decode_headers\<close> does with an item.\<close>

definition decodes_item ::
  "byte list \<Rightarrow> nat \<Rightarrow> nat \<Rightarrow> nat \<Rightarrow> nat \<Rightarrow> h2_header_field list \<Rightarrow> h2_error_code + (wire_item \<times> nat) \<Rightarrow> bool" where
  "decodes_item w len field_cap pos count flds item =
     (case item of
        Inl e \<Rightarrow> \<exists>flds'. h2_hpack_decode_headers_step w len field_cap (pos, count, flds) = Some (Inl (e, flds')) \<and> length flds' = length flds
      | Inr (Resize, n) \<Rightarrow> h2_hpack_decode_headers_step w len field_cap (pos, count, flds) = Some (Inr (pos + n, count, flds))
      | Inr (Header nm vl, n) \<Rightarrow>
          h2_hpack_decode_headers_step w len field_cap (pos, count, flds) =
            Some (Inr (pos + n, count + 1, flds[count := \<lparr>hf_name = nm, hf_value = vl\<rparr>])))"

lemma decodes_indexed:
  assumes "len \<le> length w" "pos < len" "len < 2 ^ 63" "count < field_cap" "field_cap \<le> length flds"
    and indexed: "w ! pos AND 0x80 \<noteq> 0"
  shows "decodes_item w len field_cap pos count flds (wire_item (\<lambda>_. True) (drop pos (take len w)))"
proof (cases "rfc_integer 7 (drop pos (take len w))")
  case None
  then show ?thesis
    using assms by (simp add: decodes_item_def wire_item_def hd_at h2_hpack_decode_headers_step_def decode_integer_at rd_in)
next
  case (Some x)
  then obtain i n where i: "rfc_integer 7 (drop pos (take len w)) = Some (i, n)" by (cases x) auto
  note b = rfc_integer_bounds [OF i, simplified]
  have "size_add pos n = pos + n" using b assms by simp
  then show ?thesis
    using assms i static_pair_cases [OF b(3)]
    by (auto simp add: decodes_item_def wire_item_def hd_at h2_hpack_decode_headers_step_def decode_integer_at
        copy_text_eq H2_HEADER_NAME_CAP_def H2_HEADER_VALUE_CAP_def cstr_id rd_in wr_in Let_def)
qed

lemma decodes_resize:
  assumes "len \<le> length w" "pos < len" "len < 2 ^ 63" "count < field_cap" "field_cap \<le> length flds"
    and resize: "w ! pos AND 0x80 = 0" "w ! pos AND 0xe0 = 0x20"
  shows "decodes_item w len field_cap pos count flds (wire_item (\<lambda>_. True) (drop pos (take len w)))"
proof (cases "rfc_integer 5 (drop pos (take len w))")
  case None
  then show ?thesis
    using assms by (simp add: decodes_item_def wire_item_def hd_at h2_hpack_decode_headers_step_def decode_integer_at rd_in)
next
  case (Some x)
  then obtain i n where i: "rfc_integer 5 (drop pos (take len w)) = Some (i, n)" by (cases x) auto
  note b = rfc_integer_bounds [OF i, simplified]
  have "size_add pos n = pos + n" using b assms by simp
  then show ?thesis
    using assms i
    by (simp add: decodes_item_def wire_item_def hd_at h2_hpack_decode_headers_step_def decode_integer_at rd_in)
qed

lemma decodes_literal:
  assumes "len \<le> length w" "pos < len" "len < 2 ^ 63" "count < field_cap" "field_cap \<le> length flds"
    and literal: "w ! pos AND 0x80 = 0" "w ! pos AND 0xe0 \<noteq> 0x20" "p = (if w ! pos AND 0x40 \<noteq> 0 then 6 else 4)"
  shows "decodes_item w len field_cap pos count flds (literal_item (\<lambda>_. True) p (drop pos (take len w)))"
proof -
  let ?bs = "drop pos (take len w)" and ?f = "flds ! count"
  have p: "1 \<le> p" "p \<le> 8" by (simp_all add: literal(3))
  have flds: "rd w pos = Some (w ! pos)" "rd flds count = Some ?f" "\<And>g. wr flds count g = Some (flds[count := g])"
     "\<And>g h. wr (flds[count := g]) count h = Some (flds[count := h])"
    using assms by (simp_all add: rd_in wr_in)
  note name = decode_name_eq [OF assms(1) _ assms(3) p, of pos "hf_name ?f"]
  note run = decodes_item_def literal_item_def h2_hpack_decode_headers_step_def literal(3) [symmetric] Let_def drop_at
  show ?thesis
  proof (cases "wire_name p ?bs")
    case (Inl e)
    then show ?thesis using assms(2,4) name literal(1,2) flds by (auto simp add: run)
  next
    case (Inr x)
    then obtain nm n where nm: "wire_name p ?bs = Inr (nm, n)" by (cases x) auto
    have n: "pos + n \<le> len" using wire_name_bounds [OF nm p(2)] assms(1,2) by auto
    note val = decode_string_at [OF assms(1) n assms(3), of H2_HEADER_VALUE_CAP "hf_value ?f" 0]
    note facts = assms(2,4) name literal(1,2) flds nm val n
    show ?thesis
    proof (cases "wire_string H2_HEADER_VALUE_CAP (drop (pos + n) (take len w))")
      case (Inl e)
      then show ?thesis
        using facts wire_string_error [OF Inl] by (simp add: run H2_HEADER_VALUE_CAP_def)
    next
      case (Inr sm)
      then obtain s m where sm: "wire_string H2_HEADER_VALUE_CAP (drop (pos + n) (take len w)) = Inr (s, m)"
        by (cases sm) auto
      have "size_add (pos + n) m = pos + (n + m)"
        using wire_string_bounds [OF sm] n assms by (subst size_add_small) auto
      then show ?thesis
        using facts sm by (simp add: run H2_HEADER_VALUE_CAP_def)
    qed
  qed
qed

lemma decodes_wire_item:
  assumes "len \<le> length w" "pos < len" "len < 2 ^ 63" "count < field_cap" "field_cap \<le> length flds"
  shows "decodes_item w len field_cap pos count flds (wire_item (\<lambda>_. True) (drop pos (take len w)))"
proof -
  consider "w ! pos AND 0x80 \<noteq> 0" | "w ! pos AND 0x80 = 0" "w ! pos AND 0xe0 = 0x20"
    | "w ! pos AND 0x80 = 0" "w ! pos AND 0xe0 \<noteq> 0x20" by blast
  then show ?thesis
  proof cases
    case 1
    then show ?thesis by (rule decodes_indexed [OF assms])
  next
    case 2
    then show ?thesis by (rule decodes_resize [OF assms])
  next
    case 3
    then show ?thesis
      using decodes_literal [OF assms 3 refl] assms by (simp add: wire_item_literal hd_at)
  qed
qed

abbreviation path_name :: "byte list" where
  "path_name \<equiv> lit '':path''"

abbreviation is_path :: "byte list \<Rightarrow> bool" where
  "is_path nm \<equiv> cstr nm = path_name"

definition extracts_item ::
  "byte list \<Rightarrow> nat \<Rightarrow> nat \<Rightarrow> nat \<Rightarrow> byte list \<Rightarrow> h2_error_code + (wire_item \<times> nat) \<Rightarrow> bool" where
  "extracts_item w len path_cap pos path item =
     (h2_hpack_extract_path_step w len path_cap (pos, path) =
        Some (case item of
           Inl e \<Rightarrow> Inl (e, path)
         | Inr (Resize, n) \<Rightarrow> Inr (pos + n, path)
         | Inr (Header nm vl, n) \<Rightarrow>
             if \<not> is_path nm then Inr (pos + n, path)
             else if path_cap \<le> length (cstr vl) then Inl (H2_REFUSED_STREAM, path)
             else Inr (pos + n, cstr vl)))"

lemma extracts_indexed:
  assumes "len \<le> length w" "pos < len" "len < 2 ^ 63" "0 < path_cap"
    and indexed: "w ! pos AND 0x80 \<noteq> 0"
  shows "extracts_item w len path_cap pos path (wire_item is_path (drop pos (take len w)))"
proof (cases "rfc_integer 7 (drop pos (take len w))")
  case None
  then show ?thesis
    using assms by (simp add: extracts_item_def wire_item_def hd_at h2_hpack_extract_path_step_def decode_integer_at rd_in)
next
  case (Some x)
  then obtain i n where i: "rfc_integer 7 (drop pos (take len w)) = Some (i, n)" by (cases x) auto
  note b = rfc_integer_bounds [OF i, simplified]
  have "size_add pos n = pos + n" using b assms by simp
  then show ?thesis
    using assms i static_pair_cases [OF b(3)]
    by (auto simp add: extracts_item_def wire_item_def hd_at h2_hpack_extract_path_step_def decode_integer_at
        h2_maybe_copy_path_def copy_text_eq cstr_id rd_in Let_def)
qed

lemma extracts_resize:
  assumes "len \<le> length w" "pos < len" "len < 2 ^ 63" "0 < path_cap"
    and resize: "w ! pos AND 0x80 = 0" "w ! pos AND 0xe0 = 0x20"
  shows "extracts_item w len path_cap pos path (wire_item is_path (drop pos (take len w)))"
proof (cases "rfc_integer 5 (drop pos (take len w))")
  case None
  then show ?thesis
    using assms by (simp add: extracts_item_def wire_item_def hd_at h2_hpack_extract_path_step_def decode_integer_at rd_in)
next
  case (Some x)
  then obtain i n where i: "rfc_integer 5 (drop pos (take len w)) = Some (i, n)" by (cases x) auto
  note b = rfc_integer_bounds [OF i, simplified]
  have "size_add pos n = pos + n" using b assms by simp
  then show ?thesis
    using assms i
    by (simp add: extracts_item_def wire_item_def hd_at h2_hpack_extract_path_step_def decode_integer_at rd_in)
qed

lemma extracts_literal:
  assumes "len \<le> length w" "pos < len" "len < 2 ^ 63" "0 < path_cap"
    and literal: "w ! pos AND 0x80 = 0" "w ! pos AND 0xe0 \<noteq> 0x20" "p = (if w ! pos AND 0x40 \<noteq> 0 then 6 else 4)"
  shows "extracts_item w len path_cap pos path (literal_item is_path p (drop pos (take len w)))"
proof -
  let ?bs = "drop pos (take len w)"
  have p: "1 \<le> p" "p \<le> 8" by (simp_all add: literal(3))
  have rdw: "rd w pos = Some (w ! pos)" using assms by (simp add: rd_in)
  note name = decode_name_eq [OF assms(1) _ assms(3) p, of pos "[]"]
  note run = extracts_item_def literal_item_def h2_hpack_extract_path_step_def literal(3) [symmetric] Let_def drop_at
  show ?thesis
  proof (cases "wire_name p ?bs")
    case (Inl e)
    then show ?thesis using assms(2,4) name literal(1,2) rdw by (auto simp add: run)
  next
    case (Inr x)
    then obtain nm n where nm: "wire_name p ?bs = Inr (nm, n)" by (cases x) auto
    have n: "pos + n \<le> len" using wire_name_bounds [OF nm p(2)] assms(1,2) by auto
    note val = decode_string_at [OF assms(1) n assms(3), of H2_HEADER_VALUE_CAP "[]" 0]
      skip_string_at [OF assms(1) n assms(3), of H2_HEADER_VALUE_CAP 0]
    note facts = assms(2,4) name literal(1,2) rdw nm val n
    show ?thesis
    proof (cases "wire_string H2_HEADER_VALUE_CAP (drop (pos + n) (take len w))")
      case (Inl e)
      then show ?thesis
        using facts wire_string_error [OF Inl] by (simp add: run H2_HEADER_VALUE_CAP_def)
    next
      case (Inr sm)
      then obtain s m where sm: "wire_string H2_HEADER_VALUE_CAP (drop (pos + n) (take len w)) = Inr (s, m)"
        by (cases sm) auto
      have "size_add (pos + n) m = pos + (n + m)"
        using wire_string_bounds [OF sm] n assms by (subst size_add_small) auto
      then show ?thesis
        using facts sm by (simp add: run H2_HEADER_VALUE_CAP_def copy_text_eq)
    qed
  qed
qed

lemma extracts_wire_item:
  assumes "len \<le> length w" "pos < len" "len < 2 ^ 63" "0 < path_cap"
  shows "extracts_item w len path_cap pos path (wire_item is_path (drop pos (take len w)))"
proof -
  consider "w ! pos AND 0x80 \<noteq> 0" | "w ! pos AND 0x80 = 0" "w ! pos AND 0xe0 = 0x20"
    | "w ! pos AND 0x80 = 0" "w ! pos AND 0xe0 \<noteq> 0x20" by blast
  then show ?thesis
  proof cases
    case 1
    then show ?thesis by (rule extracts_indexed [OF assms])
  next
    case 2
    then show ?thesis by (rule extracts_resize [OF assms])
  next
    case 3
    then show ?thesis
      using extracts_literal [OF assms 3 refl] assms by (simp add: wire_item_literal hd_at)
  qed
qed

subsection \<open>The loops\<close>

locale block_decoder =
  fixes span :: "'e \<Rightarrow> nat" and inv :: "'e \<Rightarrow> 's \<Rightarrow> bool"
    and step :: "'e \<Rightarrow> nat \<times> 's \<Rightarrow> ((h2_error_code \<times> 'o) + (nat \<times> 's)) option"
    and run :: "'e \<Rightarrow> nat \<times> 's \<Rightarrow> 'r option"
    and failed :: "h2_error_code \<times> 'o \<Rightarrow> 'r" and finished :: "'s \<Rightarrow> 'r"
    and good :: "'e \<Rightarrow> 'r \<Rightarrow> bool"
  assumes run_stop: "pos < span e \<Longrightarrow> step e (pos, s) = Some (Inl x) \<Longrightarrow> run e (pos, s) = Some (failed x)"
    and run_more: "pos < span e \<Longrightarrow> step e (pos, s) = Some (Inr st) \<Longrightarrow> run e (pos, s) = run e st"
    and run_end: "span e \<le> pos \<Longrightarrow> run e (pos, s) = Some (finished s)"
    and step_defined: "pos < span e \<Longrightarrow> inv e s \<Longrightarrow>
      (\<exists>x. step e (pos, s) = Some (Inl x) \<and> good e (failed x)) \<or>
      (\<exists>pos' s'. step e (pos, s) = Some (Inr (pos', s')) \<and> pos < pos' \<and> inv e s')"
    and end_good: "inv e s \<Longrightarrow> good e (finished s)"
begin

lemma total: "inv e s \<Longrightarrow> \<exists>r. run e (pos, s) = Some r \<and> good e r"
proof (induction "span e - pos" arbitrary: pos s rule: less_induct)
  case less
  show ?case
  proof (cases "pos < span e")
    case True
    from step_defined [OF this less.prems] show ?thesis
    proof (elim disjE exE conjE)
      fix x
      assume "step e (pos, s) = Some (Inl x)" "good e (failed x)"
      then show ?thesis using run_stop [OF True] by blast
    next
      fix pos' s'
      assume *: "step e (pos, s) = Some (Inr (pos', s'))" "pos < pos'" "inv e s'"
      then have "\<exists>r. run e (pos', s') = Some r \<and> good e r"
        using True by (intro less.hyps) auto
      then show ?thesis using run_more [OF True *(1)] by simp
    qed
  next
    case False
    then show ?thesis using run_end [of e pos s] end_good [OF less.prems] by simp
  qed
qed

end

text \<open>The environment of a run: the block, its length and the capacity of the output.\<close>

type_synonym block_env = "byte list \<times> nat \<times> nat"

fun env_ok :: "block_env \<Rightarrow> bool" where
  "env_ok (w, len, cap) \<longleftrightarrow> len \<le> length w \<and> len < 2 ^ 63 \<and> 0 < cap"

fun env_len :: "block_env \<Rightarrow> nat" where
  "env_len (w, len, cap) = len"

fun fields_ok :: "block_env \<Rightarrow> nat \<times> h2_header_field list \<Rightarrow> bool" where
  "fields_ok (w, len, cap) (count, flds) \<longleftrightarrow> env_ok (w, len, cap) \<and> count \<le> cap \<and> cap \<le> length flds"

fun path_ok :: "block_env \<Rightarrow> byte list \<Rightarrow> bool" where
  "path_ok (w, len, cap) path \<longleftrightarrow> env_ok (w, len, cap) \<and> length path < cap \<and> 0 \<notin> set path"

interpretation headers_run: block_decoder env_len fields_ok
    "\<lambda>(w, len, cap). h2_hpack_decode_headers_step w len cap"
    "\<lambda>(w, len, cap). h2_hpack_decode_headers_loop w len cap"
    "\<lambda>(ret, flds). (ret, flds, None)" "\<lambda>(count, flds). (H2_OK, flds, Some count)"
    "\<lambda>(w, len, cap) (ret, flds, count). cap \<le> length flds \<and>
       (case count of None \<Rightarrow> ret \<noteq> H2_OK | Some c \<Rightarrow> ret = H2_OK \<and> c \<le> cap)"
proof (unfold_locales, goal_cases)
  case (4 pos e s)
  obtain w len cap where e: "e = (w, len, cap)" by (cases e)
  obtain count flds where s: "s = (count, flds)" by (cases s)
  show ?case
  proof (cases "count < cap")
    case True
    with 4 e s have d: "decodes_item w len cap pos count flds (wire_item (\<lambda>_. True) (drop pos (take len w)))"
      by (intro decodes_wire_item) auto
    show ?thesis
    proof (cases "wire_item (\<lambda>_. True) (drop pos (take len w))")
      case (Inl x)
      from wire_item_error [OF this] d Inl 4 e s show ?thesis by (auto simp: decodes_item_def)
    next
      case (Inr x)
      then obtain it n where x: "wire_item (\<lambda>_. True) (drop pos (take len w)) = Inr (it, n)" by (cases x) auto
      from wire_item_bounds [OF this] d x 4 e s True show ?thesis
        by (cases it) (auto simp: decodes_item_def)
    qed
  next
    case False
    with 4 e s show ?thesis by (auto simp: h2_hpack_decode_headers_step_def)
  qed
qed (auto simp: h2_hpack_decode_headers_loop.simps split: prod.splits)

interpretation path_run: block_decoder env_len path_ok
    "\<lambda>(w, len, cap). h2_hpack_extract_path_step w len cap"
    "\<lambda>(w, len, cap). h2_hpack_extract_path_loop w len cap"
    id "\<lambda>path. (if cstr path = [] then H2_PROTOCOL_ERROR else H2_OK, path)"
    "\<lambda>(w, len, cap) (ret, path). length path < cap \<and> 0 \<notin> set path \<and> (ret = H2_OK \<longrightarrow> path \<noteq> [])"
proof (unfold_locales, goal_cases)
  case (4 pos e path)
  obtain w len cap where e: "e = (w, len, cap)" by (cases e)
  with 4 have "extracts_item w len cap pos path (wire_item is_path (drop pos (take len w)))"
    by (intro extracts_wire_item) auto
  with 4 e show ?case
    by (auto simp: extracts_item_def cstr_no_nul split: sum.splits wire_item.splits prod.splits if_splits
        dest: wire_item_bounds wire_item_error)
qed (auto simp: h2_hpack_extract_path_loop.simps cstr_id split: prod.splits)

text \<open>C6: \<open>h2_hpack_extract_path\<close> is total and memory safe on every block of bytes an attacker can send:
  it always returns, never reads outside the block or writes outside the path array, leaves a
  terminated string shorter than the array, and reports success only with a nonempty path.\<close>

theorem extract_path_total:
  assumes "len \<le> length w" "len < 2 ^ 63" "0 < cap"
  shows "\<exists>ret path. h2_hpack_extract_path (Ptr w) len (Ptr p0) cap = Some (ret, Ptr path) \<and>
     length path < cap \<and> 0 \<notin> set path \<and> (ret = H2_OK \<longrightarrow> path \<noteq> [])"
  using path_run.total [of "(w, len, cap)" "[]" 0] assms by (auto simp: h2_hpack_extract_path_def)

lemma extract_path_total_witness:
  "\<exists>ret path. h2_hpack_extract_path (Ptr [0x82, 0x84]) 2 (Ptr []) 128 = Some (ret, Ptr path) \<and>
     length path < 128 \<and> 0 \<notin> set path \<and> (ret = H2_OK \<longrightarrow> path \<noteq> [])"
  using extract_path_total [of 2 "[0x82, 0x84]" 128 "[]"] by simp

text \<open>C16: \<open>h2_hpack_decode_headers\<close> is total and memory safe on every block of bytes: it always returns,
  never reads outside the block or writes outside the array of fields, never reports more fields
  than the capacity, and leaves the count alone when it fails.\<close>

theorem decode_headers_total:
  assumes "len \<le> length w" "len < 2 ^ 63" "0 < cap" "cap \<le> length flds"
  shows "\<exists>ret flds' count. h2_hpack_decode_headers (Ptr w) len (Ptr flds) cap (Ptr n0) = Some (ret, Ptr flds', Ptr count) \<and>
     cap \<le> length flds' \<and> (if ret = H2_OK then count \<le> cap else count = n0)"
  using headers_run.total [of "(w, len, cap)" "(0, flds)" 0] assms
  by (auto simp: h2_hpack_decode_headers_def split: option.splits)

lemma decode_headers_total_witness:
  "\<exists>ret flds' count. h2_hpack_decode_headers (Ptr [0x88]) 1 (Ptr [\<lparr>hf_name = [], hf_value = []\<rparr>]) 1 (Ptr 0) =
       Some (ret, Ptr flds', Ptr count) \<and> 1 \<le> length flds' \<and> (if ret = H2_OK then count \<le> 1 else count = 0)"
  using decode_headers_total [of 1 "[0x88]" 1 "[\<lparr>hf_name = [], hf_value = []\<rparr>]" 0] by simp

subsection \<open>The reference decoder of a block\<close>

function parse_block :: "byte list \<Rightarrow> h2_error_code + wire_item list" where
  "parse_block bs =
     (if bs = [] then Inr []
      else case wire_item (\<lambda>_. True) bs of
        Inl e \<Rightarrow> Inl e
      | Inr (it, n) \<Rightarrow> map_sum id ((#) it) (parse_block (drop n bs)))"
  by pat_completeness auto
termination
  by (relation "measure length") (auto dest: wire_item_bounds)

declare parse_block.simps [simp del]

fun headers_of :: "wire_item list \<Rightarrow> h2_header_field list" where
  "headers_of [] = []"
| "headers_of (Resize # its) = headers_of its"
| "headers_of (Header nm vl # its) = \<lparr>hf_name = nm, hf_value = vl\<rparr> # headers_of its"

fun last_path :: "h2_header_field list \<Rightarrow> byte list \<Rightarrow> byte list" where
  "last_path [] path = path"
| "last_path (h # hs) path = last_path hs (if is_path (hf_name h) then cstr (hf_value h) else path)"

lemma wire_item_plain: "wire_item (\<lambda>_. True) bs = Inr x \<Longrightarrow> wire_item plain bs = Inr x"
  by (auto simp: wire_item_def split: option.splits if_splits sum.splits)

lemma headers_loop_parses:
  assumes "fields_ok (w, len, cap) (count, flds)"
    and "h2_hpack_decode_headers_loop w len cap (pos, count, flds) = Some (H2_OK, flds', Some c)"
  shows "\<exists>items. parse_block (drop pos (take len w)) = Inr items \<and> c = count + length (headers_of items) \<and>
    take c flds' = take count flds @ headers_of items"
  using assms
proof (induction "len - pos" arbitrary: pos count flds rule: less_induct)
  case less
  note run = less.prems(2)
  show ?case
  proof (cases "pos < len")
    case False
    then show ?thesis
      using run less.prems(1) by (auto simp: h2_hpack_decode_headers_loop.simps [of w len cap "(pos, count, flds)"] parse_block.simps)
  next
    case pos: True
    note loop = h2_hpack_decode_headers_loop.simps [of w len cap "(pos, count, flds)"]
    have count: "count < cap"
      using run pos by (auto simp: loop h2_hpack_decode_headers_step_def not_le split: if_splits)
    let ?bs = "drop pos (take len w)"
    have bs: "?bs \<noteq> []" using pos less.prems(1) by simp
    have d: "decodes_item w len cap pos count flds (wire_item (\<lambda>_. True) ?bs)"
      using pos count less.prems(1) by (intro decodes_wire_item) auto
    show ?thesis
    proof (cases "wire_item (\<lambda>_. True) ?bs")
      case (Inl e)
      with d wire_item_error [OF Inl] run pos show ?thesis by (auto simp: decodes_item_def loop)
    next
      case (Inr x)
      then obtain it n where x: "wire_item (\<lambda>_. True) ?bs = Inr (it, n)" by (cases x) auto
      have n: "len - (pos + n) < len - pos" using wire_item_bounds [OF x] pos less.prems(1) by auto
      show ?thesis
      proof (cases it)
        case Resize
        then have "h2_hpack_decode_headers_loop w len cap (pos + n, count, flds) = Some (H2_OK, flds', Some c)"
          using d x run pos by (simp add: decodes_item_def loop)
        from less.hyps [OF n less.prems(1) this] show ?thesis
          using x bs Resize by (auto simp: parse_block.simps [of ?bs] drop_at)
      next
        case (Header nm vl)
        let ?flds = "flds[count := \<lparr>hf_name = nm, hf_value = vl\<rparr>]"
        have "h2_hpack_decode_headers_loop w len cap (pos + n, count + 1, ?flds) = Some (H2_OK, flds', Some c)"
          using d x run pos Header by (simp add: decodes_item_def loop)
        from less.hyps [OF n _ this] show ?thesis
          using x bs Header count less.prems(1) by (auto simp: parse_block.simps [of ?bs] drop_at take_Suc_conv_app_nth)
      qed
    qed
  qed
qed

lemma path_loop_follows:
  assumes "path_ok (w, len, cap) path"
    and "parse_block (drop pos (take len w)) = Inr items"
    and "\<forall>h \<in> set (headers_of items). is_path (hf_name h) \<longrightarrow> length (cstr (hf_value h)) < cap"
  shows "h2_hpack_extract_path_loop w len cap (pos, path) =
    Some (if last_path (headers_of items) path = [] then H2_PROTOCOL_ERROR else H2_OK, last_path (headers_of items) path)"
  using assms
proof (induction "len - pos" arbitrary: pos path items rule: less_induct)
  case less
  note loop = h2_hpack_extract_path_loop.simps [of w len cap "(pos, path)"]
  show ?case
  proof (cases "pos < len")
    case False
    then show ?thesis using less.prems by (auto simp: loop parse_block.simps cstr_id)
  next
    case pos: True
    let ?bs = "drop pos (take len w)"
    have bs: "?bs \<noteq> []" using pos less.prems(1) by simp
    obtain it n items' where x: "wire_item (\<lambda>_. True) ?bs = Inr (it, n)"
       and items: "items = it # items'" and tail: "parse_block (drop (pos + n) (take len w)) = Inr items'"
      using less.prems(2) bs
      by (auto simp: parse_block.simps [of ?bs] add.commute map_sum_def split: sum.splits)
    have n: "len - (pos + n) < len - pos" using wire_item_bounds [OF x] pos less.prems(1) by auto
    have "extracts_item w len cap pos path (wire_item is_path ?bs)"
      using pos less.prems(1) by (intro extracts_wire_item) auto
    then have step: "h2_hpack_extract_path_loop w len cap (pos, path) =
        h2_hpack_extract_path_loop w len cap (pos + n, last_path (headers_of [it]) path)"
      using wire_item_plain [OF x] pos less.prems(3) items by (cases it) (auto simp: extracts_item_def loop)
    have "path_ok (w, len, cap) (last_path (headers_of [it]) path)"
      using less.prems(1,3) items by (cases it) (auto simp: cstr_no_nul)
    then have "h2_hpack_extract_path_loop w len cap (pos + n, last_path (headers_of [it]) path) =
      Some (if last_path (headers_of items') (last_path (headers_of [it]) path) = [] then H2_PROTOCOL_ERROR else H2_OK,
        last_path (headers_of items') (last_path (headers_of [it]) path))"
      using tail less.prems(3) items by (intro less.hyps [OF n]) (cases it; auto)+
    with step items show ?thesis by (cases it) auto
  qed
qed

lemma get_example: "h2_hpack_decode_headers (Ptr [0x84]) 1 (Ptr [\<lparr>hf_name = [], hf_value = []\<rparr>]) 1 (Ptr 0) =
   Some (H2_OK, Ptr [\<lparr>hf_name = lit '':path'', hf_value = lit ''/''\<rparr>], Ptr 1)"
  by (simp add: h2_hpack_decode_headers_def h2_hpack_decode_headers_loop.simps h2_hpack_decode_headers_step_def
     h2_hpack_decode_integer_def prefix_max_def h2_hpack_static_get_def H2_HPACK_STATIC_TABLE_LEN_def
     h2_static_table_def static_entry_def copy_text_eq H2_HEADER_NAME_CAP_def H2_HEADER_VALUE_CAP_def lit_def cstr_def wr_def rd_def Let_def)

text \<open>C8: the two header decoders agree. When the full decoder accepts a block and every value of a
  \<open>:path\<close> field fits the path array, the path extractor returns the value of the last such field,
  and a protocol error when there is none or it is empty, although it is a separate loop that skips
  what it does not need.\<close>

theorem decoders_agree:
  assumes "len \<le> length w" "len < 2 ^ 63" "0 < path_cap" "0 < cap" "cap \<le> length flds"
    and run: "h2_hpack_decode_headers (Ptr w) len (Ptr flds) cap (Ptr n0) = Some (H2_OK, Ptr flds', Ptr count)"
    and short: "\<forall>h \<in> set (take count flds'). is_path (hf_name h) \<longrightarrow> length (cstr (hf_value h)) < path_cap"
  shows "h2_hpack_extract_path (Ptr w) len (Ptr p0) path_cap =
    Some (if last_path (take count flds') [] = [] then H2_PROTOCOL_ERROR else H2_OK, Ptr (last_path (take count flds') []))"
proof -
  have inv: "fields_ok (w, len, cap) (0, flds)" using assms by simp
  obtain c where c: "h2_hpack_decode_headers_loop w len cap (0, 0, flds) = Some (H2_OK, flds', c)"
    "(case c of Some c \<Rightarrow> c | None \<Rightarrow> n0) = count"
    using run by (auto simp: h2_hpack_decode_headers_def run_iff split: option.splits)
  have "c \<noteq> None" using headers_run.total [OF inv, of 0] c by (cases c) auto
  with c have "h2_hpack_decode_headers_loop w len cap (0, 0, flds) = Some (H2_OK, flds', Some count)" by auto
  from headers_loop_parses [OF inv this] obtain items where
    "parse_block (drop 0 (take len w)) = Inr items" "take count flds' = headers_of items" by auto
  then show ?thesis
    using path_loop_follows [of w len path_cap "[]" 0 items] assms by (simp add: h2_hpack_extract_path_def)
qed

lemma decoders_agree_witness:
  "h2_hpack_extract_path (Ptr [0x84]) 1 (Ptr []) 128 = Some (H2_OK, Ptr (lit ''/''))"
  using decoders_agree [of 1 "[0x84]" 128 1 "[\<lparr>hf_name = [], hf_value = []\<rparr>]" 0 
     "[\<lparr>hf_name = lit '':path'', hf_value = lit ''/''\<rparr>]" 1 "[]"] get_example
  by (simp add: cstr_def lit_def)

lemma headers_loop_follows:
  assumes "fields_ok (w, len, cap) (count, flds)"
    and "parse_block (drop pos (take len w)) = Inr items" "count + length items \<le> cap"
  shows "\<exists>flds'. h2_hpack_decode_headers_loop w len cap (pos, count, flds) =
      Some (H2_OK, flds', Some (count + length (headers_of items))) \<and>
    take (count + length (headers_of items)) flds' = take count flds @ headers_of items"
  using assms
proof (induction "len - pos" arbitrary: pos count flds items rule: less_induct)
  case less
  note loop = h2_hpack_decode_headers_loop.simps [of w len cap "(pos, count, flds)"]
  show ?case
  proof (cases "pos < len")
    case False
    then show ?thesis using less.prems by (auto simp: loop parse_block.simps)
  next
    case pos: True
    let ?bs = "drop pos (take len w)"
    have bs: "?bs \<noteq> []" using pos less.prems(1) by simp
    obtain it n items' where x: "wire_item (\<lambda>_. True) ?bs = Inr (it, n)"
       and items: "items = it # items'" and tail: "parse_block (drop (pos + n) (take len w)) = Inr items'"
      using less.prems(2) bs
      by (auto simp: parse_block.simps [of ?bs] add.commute map_sum_def split: sum.splits)
    have n: "len - (pos + n) < len - pos" using wire_item_bounds [OF x] pos less.prems(1) by auto
    have count: "count < cap" using items less.prems(3) by simp
    then have d: "decodes_item w len cap pos count flds (Inr (it, n))"
      using decodes_wire_item [of len w pos count cap flds] pos less.prems(1) x by simp
    show ?thesis
    proof (cases it)
      case Resize
      then show ?thesis
        using less.hyps [OF n less.prems(1) tail] d items less.prems(3) pos by (simp add: decodes_item_def loop)
    next
      case (Header nm vl)
      let ?flds = "flds[count := \<lparr>hf_name = nm, hf_value = vl\<rparr>]"
      have "fields_ok (w, len, cap) (count + 1, ?flds)" using less.prems(1) count by simp
      from less.hyps [OF n this tail] show ?thesis
        using Header d items less.prems(1,3) pos count by (auto simp: decodes_item_def loop take_Suc_conv_app_nth)
    qed
  qed
qed

lemma decode_headers_parsed:
  assumes "env_ok (w, len, cap)" "cap \<le> length flds" "parse_block (take len w) = Inr items" "length items \<le> cap"
  shows "\<exists>flds'. h2_hpack_decode_headers (Ptr w) len (Ptr flds) cap (Ptr n0) =
      Some (H2_OK, Ptr flds', Ptr (length (headers_of items))) \<and>
    take (length (headers_of items)) flds' = headers_of items"
  using headers_loop_follows [of w len cap 0 flds 0 items] assms by (auto simp: h2_hpack_decode_headers_def)

subsection \<open>What the encoders write\<close>

definition literal_bytes :: "byte list \<Rightarrow> byte list \<Rightarrow> byte list" where
  "literal_bytes nm vl = 0 # string_bytes nm @ string_bytes vl"

definition indexed_bytes :: "nat \<Rightarrow> byte list" where
  "indexed_bytes i = integer_bytes 7 0x80 i"

lemma length_string_bytes: "length t \<le> UINT32_MAX \<Longrightarrow> length t < length (string_bytes t)"
  using length_integer_bytes [of "length t" 7 0] by (auto simp add: string_bytes_def UINT32_MAX_def)

lemma encode_literal_eq:
  assumes "length (cstr n) \<le> UINT32_MAX" "length (cstr v) \<le> UINT32_MAX"
    and "length (literal_bytes (cstr n) (cstr v)) \<le> cap" "cap \<le> length w" "cap < 2 ^ 64"
  shows "h2_hpack_encode_literal_new_name (Ptr w) cap (Ptr n) (Ptr v) =
    Some (length (literal_bytes (cstr n) (cstr v)), Ptr (patch w 0 (literal_bytes (cstr n) (cstr v))))"
proof -
  let ?n = "string_bytes (cstr n)" and ?v = "string_bytes (cstr v)"
  have len: "0 < length ?n" "0 < length ?v" using length_string_bytes assms(1,2) by (metis gr_zeroI not_less_zero)+
  have cap: "Suc (length ?n + length ?v) \<le> cap" using assms(3) by (simp add: literal_bytes_def)
  define w1 where "w1 = patch w 0 [0]"
  have w0: "w \<noteq> []" using cap assms(4) by auto
  then have w: "wr w 0 0 = Some w1" "length w1 = length w" by (simp_all add: w1_def wr_patch Suc_le_eq)
  define w2 where "w2 = take 1 w1 @ patch (drop 1 w1) 0 ?n"
  have n: "h2_hpack_encode_string (Ptr (drop 1 w1)) (cap - 1) (Ptr n) = Some (length ?n, Ptr (patch (drop 1 w1) 0 ?n))"
    using assms w cap by (intro encode_string_eq) simp_all
  have w2: "length w2 = length w" "w2 = patch w 0 (0 # ?n)"
    using cap assms(4) w by (simp_all add: w2_def w1_def patch_def)
  let ?p = "1 + length ?n"
  have v: "h2_hpack_encode_string (Ptr (drop ?p w2)) (cap - ?p) (Ptr v) = Some (length ?v, Ptr (patch (drop ?p w2) 0 ?v))"
    using assms w2 cap by (intro encode_string_eq) simp_all
  have w3: "take ?p w2 @ patch (drop ?p w2) 0 ?v = patch w 0 (literal_bytes (cstr n) (cstr v))"
    using cap assms(4) by (simp add: w2(2) patch_def literal_bytes_def add.commute)
  have "at_offset w1 1 (\<lambda>q. h2_hpack_encode_string q (cap - 1) (Ptr n)) = Some (length ?n, w2)"
    using n by (simp add: at_offset_def w2_def)
  moreover have "at_offset w2 ?p (\<lambda>q. h2_hpack_encode_string q (cap - ?p) (Ptr v)) =
      Some (length ?v, patch w 0 (literal_bytes (cstr n) (cstr v)))"
    using v w3 by (simp add: at_offset_def)
  ultimately show ?thesis
    using assms(4,5) cap len w0 w
    by (simp add: h2_hpack_encode_literal_new_name_def Let_def) (simp add: literal_bytes_def)
qed

lemma wire_item_literal_bytes:
  assumes "length nm < 64" "length vl < 256"
  shows "wire_item plain (literal_bytes nm vl @ rest) = Inr (Header nm vl, length (literal_bytes nm vl))"
proof -
  have l: "length nm \<le> UINT32_MAX" "length vl \<le> UINT32_MAX" using assms by (simp_all add: UINT32_MAX_def)
  let ?bs = "literal_bytes nm vl @ rest"
  have "rfc_integer 4 ?bs = Some (0, 1)" by (simp add: rfc_integer_def literal_bytes_def prefix_max_def)
  then have "wire_name 4 ?bs = Inr (nm, 1 + length (string_bytes nm))"
    using wire_string_bytes [of nm H2_HEADER_NAME_CAP "string_bytes vl @ rest"] assms(1) l first_byte_plain [of "length nm"]
    by (simp add: wire_name_def literal_bytes_def H2_HEADER_NAME_CAP_def string_bytes_def)
  then show ?thesis
    using wire_string_bytes [of vl H2_HEADER_VALUE_CAP rest] assms(2) l first_byte_plain [of "length vl"]
    by (simp add: wire_item_def literal_bytes_def H2_HEADER_VALUE_CAP_def string_bytes_def)
qed

lemma wire_item_indexed_bytes:
  assumes "static_pair i = Some (nm, vl)" "i < 62"
  shows "wire_item plain (indexed_bytes i @ rest) = Inr (Header nm vl, length (indexed_bytes i))"
proof -
  have "hd (indexed_bytes i @ rest) AND 0x80 \<noteq> 0"
    using assms(2) more_bit_set [of "of_nat i"] by (simp add: indexed_bytes_def integer_bytes_def prefix_max_def or.commute)
  moreover have "rfc_integer 7 (indexed_bytes i @ rest) = Some (i, length (indexed_bytes i))"
    using assms(2) rfc_integer_bytes [of 7 "0x80" i rest] by (simp add: indexed_bytes_def UINT32_MAX_def)
  ultimately show ?thesis using assms(1) by (simp add: wire_item_def)
qed

lemma parse_block_item:
  "wire_item (\<lambda>_. True) (bs @ rest) = Inr (it, length bs) \<Longrightarrow> bs \<noteq> [] \<Longrightarrow>
     parse_block (bs @ rest) = map_sum id ((#) it) (parse_block rest)"
  by (simp add: parse_block.simps [of "bs @ rest"])

text \<open>C20: a literal header written by \<open>h2_hpack_encode_literal_new_name\<close> is read back by
  \<open>h2_hpack_decode_headers\<close> as one field with the same name and value, for every name and value that
  fit the arrays of a field.\<close>

theorem literal_round_trip:
  assumes "length (cstr nm) < 64" "length (cstr vl) < 256"
    and "length (literal_bytes (cstr nm) (cstr vl)) \<le> cap" "cap \<le> length w" "cap < 2 ^ 63"
    and "1 \<le> field_cap" "field_cap \<le> length flds"
  shows "\<exists>n w' flds'. h2_hpack_encode_literal_new_name (Ptr w) cap (Ptr nm) (Ptr vl) = Some (n, Ptr w') \<and> n \<noteq> 0 \<and> n \<le> cap \<and>
     h2_hpack_decode_headers (Ptr w') n (Ptr flds) field_cap (Ptr n0) = Some (H2_OK, Ptr flds', Ptr 1) \<and>
     flds' ! 0 = \<lparr>hf_name = cstr nm, hf_value = cstr vl\<rparr>"
proof -
  let ?b = "literal_bytes (cstr nm) (cstr vl)"
  let ?w = "patch w 0 ?b"
  have enc: "h2_hpack_encode_literal_new_name (Ptr w) cap (Ptr nm) (Ptr vl) = Some (length ?b, Ptr ?w)"
    using assms by (intro encode_literal_eq) (simp_all add: UINT32_MAX_def)
  have "take (length ?b) ?w = ?b" using assms by (simp add: take_patch)
  moreover have "parse_block ?b = Inr [Header (cstr nm) (cstr vl)]"
    using parse_block_item [of ?b "[]", OF wire_item_literal_bytes] assms(1,2)
    by (simp add: literal_bytes_def parse_block.simps [of "[]"])
  ultimately obtain flds' where
     "h2_hpack_decode_headers (Ptr ?w) (length ?b) (Ptr flds) field_cap (Ptr n0) = Some (H2_OK, Ptr flds', Ptr 1)"
     "take 1 flds' = [\<lparr>hf_name = cstr nm, hf_value = cstr vl\<rparr>]"
    using decode_headers_parsed [of ?w "length ?b" field_cap flds "[Header (cstr nm) (cstr vl)]" n0] assms by auto
  moreover from this(2) have "flds' ! 0 = \<lparr>hf_name = cstr nm, hf_value = cstr vl\<rparr>" by (cases flds') simp_all
  ultimately show ?thesis using enc assms(3) by (auto simp: literal_bytes_def)
qed

lemma literal_round_trip_witness:
  "\<exists>n w' flds'. h2_hpack_encode_literal_new_name (Ptr (local_array 16)) 16 (Ptr (lit ''a'')) (Ptr (lit ''b'')) = Some (n, Ptr w') \<and> n \<noteq> 0 \<and> n \<le> 16 \<and>
     h2_hpack_decode_headers (Ptr w') n (Ptr [\<lparr>hf_name = [], hf_value = []\<rparr>]) 1 (Ptr 0) = Some (H2_OK, Ptr flds', Ptr 1) \<and>
     flds' ! 0 = \<lparr>hf_name = lit ''a'', hf_value = lit ''b''\<rparr>"
  using literal_round_trip [of "lit ''a''" "lit ''b''" 16 "local_array 16" 1 "[\<lparr>hf_name = [], hf_value = []\<rparr>]" 0]
  by (simp add: cstr_def lit_def literal_bytes_def string_bytes_def integer_bytes_def prefix_max_def local_array_def)

end
