(* ===== verification/H2_Stream.thy ===== *)
theory H2_Stream
  imports Hpack_Blocks
begin

section \<open>Streams\<close>

text \<open>
  \<open>include/http2/stream.h\<close> and \<open>src/stream.c\<close>: one HTTP/2 stream, its state, its two flow-control
  windows and the response it is to get. The windows are \<open>int32_t\<close>: their updates go through \<open>i32\<close>,
  so a defined result shows that no signed overflow happened. The second half orders the states as
  the life cycle of RFC 7540 section 5.1 does and proves what every sequence of operations keeps.
\<close>

subsection \<open>State and operations\<close>

definition H2_STREAM_PATH_CAP :: nat where
  "H2_STREAM_PATH_CAP = 256"

lemmas [h2_consts] = H2_STREAM_PATH_CAP_def

datatype h2_stream_state =
    H2_STREAM_STATE_IDLE
  | H2_STREAM_STATE_OPEN
  | H2_STREAM_STATE_HALF_CLOSED_REMOTE
  | H2_STREAM_STATE_HALF_CLOSED_LOCAL
  | H2_STREAM_STATE_CLOSED

record h2_stream =
  s_id :: u32
  s_state :: h2_stream_state
  s_send_window :: int
  s_recv_window :: int
  s_response_headers_sent :: bool
  s_response_body_deferred :: bool
  s_response_sent :: bool
  s_path :: "byte list"

text \<open>A stream after \<open>memset(stream, 0, sizeof(*stream))\<close>.\<close>

definition zero_stream :: h2_stream where
  "zero_stream = \<lparr>s_id = 0, s_state = H2_STREAM_STATE_IDLE, s_send_window = 0, s_recv_window = 0,
     s_response_headers_sent = False, s_response_body_deferred = False, s_response_sent = False, s_path = []\<rparr>"

definition h2_stream_init :: "h2_stream \<Rightarrow> u32 \<Rightarrow> int \<Rightarrow> h2_stream" where
  "h2_stream_init stream stream_id initial_window =
     zero_stream\<lparr>s_id := stream_id, s_state := H2_STREAM_STATE_IDLE, s_send_window := initial_window,
                 s_recv_window := H2_DEFAULT_WINDOW_SIZE\<rparr>"

fun h2_stream_close :: "h2_stream ptr \<Rightarrow> h2_stream ptr" where
  "h2_stream_close NULL = NULL"
| "h2_stream_close (Ptr s) =
     Ptr (s\<lparr>s_send_window := 0, s_recv_window := 0, s_response_headers_sent := False,
            s_response_body_deferred := False, s_response_sent := False, s_path := [],
            s_state := H2_STREAM_STATE_CLOSED\<rparr>)"

definition h2_stream_receive_headers :: "h2_stream ptr \<Rightarrow> bool \<Rightarrow> h2_error_code \<times> h2_stream ptr" where
  "h2_stream_receive_headers stream end_stream =
     (case stream of
        NULL \<Rightarrow> (H2_INTERNAL_ERROR, stream)
      | Ptr s \<Rightarrow>
          if s_state s \<noteq> H2_STREAM_STATE_IDLE then (H2_PROTOCOL_ERROR, stream)
          else (H2_OK, Ptr (s\<lparr>s_state := (if end_stream then H2_STREAM_STATE_HALF_CLOSED_REMOTE
                                          else H2_STREAM_STATE_OPEN)\<rparr>)))"

definition h2_stream_receive_data ::
  "h2_stream ptr \<Rightarrow> nat \<Rightarrow> bool \<Rightarrow> (h2_error_code \<times> h2_stream ptr) option" where
  "h2_stream_receive_data stream data_len end_stream =
     (case stream of
        NULL \<Rightarrow> Some (H2_INTERNAL_ERROR, stream)
      | Ptr s \<Rightarrow>
          if data_len > nat INT32_MAX then Some (H2_INTERNAL_ERROR, stream)
          else if s_state s \<noteq> H2_STREAM_STATE_OPEN \<and> s_state s \<noteq> H2_STREAM_STATE_HALF_CLOSED_LOCAL
          then Some (H2_STREAM_CLOSED, stream)
          else if s_recv_window s < cast_i32 (int data_len) then Some (H2_FLOW_CONTROL_ERROR, stream)
          else do {
            win \<leftarrow> i32 (s_recv_window s - cast_i32 (int data_len));
            let s = s\<lparr>s_recv_window := win\<rparr>;
            if end_stream then
              (if s_state s = H2_STREAM_STATE_HALF_CLOSED_LOCAL then Some (H2_OK, h2_stream_close (Ptr s))
               else Some (H2_OK, Ptr (s\<lparr>s_state := H2_STREAM_STATE_HALF_CLOSED_REMOTE\<rparr>)))
            else Some (H2_OK, Ptr s)
          })"

definition h2_stream_send_end_stream :: "h2_stream ptr \<Rightarrow> h2_error_code \<times> h2_stream ptr" where
  "h2_stream_send_end_stream stream =
     (case stream of
        NULL \<Rightarrow> (H2_INTERNAL_ERROR, stream)
      | Ptr s \<Rightarrow>
          if s_state s = H2_STREAM_STATE_OPEN
          then (H2_OK, Ptr (s\<lparr>s_state := H2_STREAM_STATE_HALF_CLOSED_LOCAL\<rparr>))
          else if s_state s = H2_STREAM_STATE_HALF_CLOSED_REMOTE then (H2_OK, h2_stream_close stream)
          else (H2_STREAM_CLOSED, stream))"

definition h2_stream_add_send_window ::
  "h2_stream ptr \<Rightarrow> u32 \<Rightarrow> (h2_error_code \<times> h2_stream ptr) option" where
  "h2_stream_add_send_window stream increment =
     (case stream of
        NULL \<Rightarrow> Some (H2_PROTOCOL_ERROR, stream)
      | Ptr s \<Rightarrow>
          if increment = 0 then Some (H2_PROTOCOL_ERROR, stream)
          else if s_send_window s + int (unat increment) > INT32_MAX then Some (H2_FLOW_CONTROL_ERROR, stream)
          else do {
            win \<leftarrow> i32 (s_send_window s + cast_i32 (int (unat increment)));
            Some (H2_OK, Ptr (s\<lparr>s_send_window := win\<rparr>))
          })"

subsection \<open>The order of the states\<close>

instantiation h2_stream_state :: linorder
begin

fun stage :: "h2_stream_state \<Rightarrow> nat" where
  "stage H2_STREAM_STATE_IDLE = 0"
| "stage H2_STREAM_STATE_OPEN = 1"
| "stage H2_STREAM_STATE_HALF_CLOSED_REMOTE = 2"
| "stage H2_STREAM_STATE_HALF_CLOSED_LOCAL = 3"
| "stage H2_STREAM_STATE_CLOSED = 4"

definition less_eq_h2_stream_state :: "h2_stream_state \<Rightarrow> h2_stream_state \<Rightarrow> bool" where
  "less_eq_h2_stream_state a b \<longleftrightarrow> stage a \<le> stage b"

definition less_h2_stream_state :: "h2_stream_state \<Rightarrow> h2_stream_state \<Rightarrow> bool" where
  "less_h2_stream_state a b \<longleftrightarrow> stage a < stage b"

instance
proof
  fix x y :: h2_stream_state
  show "x \<le> y \<Longrightarrow> y \<le> x \<Longrightarrow> x = y"
    by (cases x; cases y) (simp_all add: less_eq_h2_stream_state_def)
qed (auto simp: less_eq_h2_stream_state_def less_h2_stream_state_def)

end

lemmas stage_simps [simp] = less_eq_h2_stream_state_def less_h2_stream_state_def

subsection \<open>Sequences of operations\<close>

text \<open>The operations of a stream, with the arguments the connection can give them: the increment of a
  WINDOW_UPDATE frame has 31 bits.\<close>

datatype stream_op =
    Receive_headers bool | Receive_data nat bool | Send_end_stream | Add_send_window u32 | Close

fun stream_apply :: "stream_op \<Rightarrow> h2_stream ptr \<Rightarrow> (h2_error_code \<times> h2_stream ptr) option" where
  "stream_apply (Receive_headers fin) s = Some (h2_stream_receive_headers s fin)"
| "stream_apply (Receive_data n fin) s = h2_stream_receive_data s n fin"
| "stream_apply Send_end_stream s = Some (h2_stream_send_end_stream s)"
| "stream_apply (Add_send_window inc) s = h2_stream_add_send_window s inc"
| "stream_apply Close s = Some (H2_OK, h2_stream_close s)"

inductive stream_step :: "h2_stream \<Rightarrow> h2_stream \<Rightarrow> bool" where
  step: "stream_apply op (Ptr s) = Some (ret, Ptr s') \<Longrightarrow> stream_step s s'"

inductive_cases stream_stepE: "stream_step s s'"

text \<open>What every stream of the connection's table satisfies.\<close>

definition stream_ok :: "h2_stream \<Rightarrow> bool" where
  "stream_ok s \<longleftrightarrow> 0 \<le> s_recv_window s \<and> s_recv_window s \<le> H2_DEFAULT_WINDOW_SIZE \<and>
     INT32_MIN \<le> s_send_window s \<and> s_send_window s \<le> INT32_MAX \<and>
     length (s_path s) < H2_STREAM_PATH_CAP"

fun op_in_range :: "stream_op \<Rightarrow> bool" where
  "op_in_range (Add_send_window inc) \<longleftrightarrow> int (unat inc) \<le> INT32_MAX"
| "op_in_range _ \<longleftrightarrow> True"

lemma close_ok [simp]: "stream_ok (s\<lparr>s_send_window := 0, s_recv_window := 0, s_response_headers_sent := False,
            s_response_body_deferred := False, s_response_sent := False, s_path := [], s_state := st\<rparr>)"
  by (simp add: stream_ok_def H2_DEFAULT_WINDOW_SIZE_def H2_STREAM_PATH_CAP_def INT32_MIN_def INT32_MAX_def)

lemma init_ok: "0 \<le> w \<Longrightarrow> w \<le> INT32_MAX \<Longrightarrow> stream_ok (h2_stream_init s i w)"
  by (simp add: stream_ok_def h2_stream_init_def zero_stream_def H2_DEFAULT_WINDOW_SIZE_def
      H2_STREAM_PATH_CAP_def INT32_MIN_def INT32_MAX_def)

lemma close_ok' [simp]: "stream_ok (s\<lparr>s_send_window := 0, s_recv_window := 0, s_response_headers_sent := False,
            s_response_body_deferred := False, s_response_sent := False, s_path := []\<rparr>)"
  by (simp add: stream_ok_def H2_DEFAULT_WINDOW_SIZE_def H2_STREAM_PATH_CAP_def INT32_MIN_def INT32_MAX_def)

lemma stream_ok_state [simp]:
  "stream_ok (s\<lparr>s_state := st\<rparr>) = stream_ok s"
  "stream_ok (s\<lparr>s_response_headers_sent := b\<rparr>) = stream_ok s"
  "stream_ok (s\<lparr>s_response_body_deferred := b\<rparr>) = stream_ok s"
  "stream_ok (s\<lparr>s_response_sent := b\<rparr>) = stream_ok s"
  by (simp_all add: stream_ok_def)

lemma receive_data_cases:
  assumes "stream_ok s" "data_len \<le> nat INT32_MAX"
  shows "h2_stream_receive_data (Ptr s) data_len fin =
    Some (if s_state s \<noteq> H2_STREAM_STATE_OPEN \<and> s_state s \<noteq> H2_STREAM_STATE_HALF_CLOSED_LOCAL
      then (H2_STREAM_CLOSED, Ptr s)
      else if s_recv_window s < int data_len then (H2_FLOW_CONTROL_ERROR, Ptr s)
      else (H2_OK,
        if \<not> fin then Ptr (s\<lparr>s_recv_window := s_recv_window s - int data_len\<rparr>)
        else if s_state s = H2_STREAM_STATE_HALF_CLOSED_LOCAL
        then h2_stream_close (Ptr (s\<lparr>s_recv_window := s_recv_window s - int data_len\<rparr>))
        else Ptr (s\<lparr>s_recv_window := s_recv_window s - int data_len, s_state := H2_STREAM_STATE_HALF_CLOSED_REMOTE\<rparr>)))"
proof -
  have "cast_i32 (int data_len) = int data_len"
    using assms(2) by (intro cast_i32_id) (simp_all add: c_limits)
  moreover have "\<not> s_recv_window s < int data_len \<Longrightarrow>
      INT32_MIN \<le> s_recv_window s - int data_len \<and> s_recv_window s - int data_len \<le> INT32_MAX"
    using assms by (auto simp: stream_ok_def c_limits H2_DEFAULT_WINDOW_SIZE_def)
  ultimately show ?thesis
    using assms(2) by (auto simp: h2_stream_receive_data_def Let_def i32_in_range)
qed

lemma window_grows: "m \<le> a \<Longrightarrow> m \<le> a + uint (x :: u32)"
  by (rule add_increasing2) simp_all

lemma add_send_window_cases:
  assumes "stream_ok s" "int (unat inc) \<le> INT32_MAX" "inc \<noteq> 0"
  shows "h2_stream_add_send_window (Ptr s) inc =
    Some (if s_send_window s + int (unat inc) > INT32_MAX then (H2_FLOW_CONTROL_ERROR, Ptr s)
      else (H2_OK, Ptr (s\<lparr>s_send_window := s_send_window s + int (unat inc)\<rparr>)))"
proof -
  have u: "0 \<le> int (unat inc)" by simp
  have "cast_i32 (int (unat inc)) = int (unat inc)"
    by (rule cast_i32_nonneg [OF u assms(2)])
  moreover have "INT32_MIN \<le> s_send_window s + int (unat inc)"
    using assms(1) by (simp add: stream_ok_def window_grows)
  ultimately show ?thesis
    using assms(3) by (auto simp: h2_stream_add_send_window_def i32_in_range not_less)
qed

text \<open>Every operation is defined, keeps the windows in range, never moves the state back, and a
  failing one changes nothing.\<close>

lemma stream_apply_ok:
  assumes "stream_ok s" "op_in_range op"
  shows "\<exists>ret s'. stream_apply op (Ptr s) = Some (ret, Ptr s') \<and> stream_ok s' \<and> s_state s \<le> s_state s' \<and>
    s_id s' = s_id s \<and> (ret \<noteq> H2_OK \<longrightarrow> s' = s)"
proof (cases op)
  case (Receive_headers fin)
  then show ?thesis using assms by (auto simp: h2_stream_receive_headers_def)
next
  case (Receive_data n fin)
  show ?thesis
  proof (cases "n \<le> nat INT32_MAX")
    case True
    then show ?thesis
      using assms Receive_data
      by (cases "s_state s") (auto simp: receive_data_cases, auto simp: stream_ok_def c_limits)
  next
    case False
    then show ?thesis using assms Receive_data by (simp add: h2_stream_receive_data_def)
  qed
next
  case Send_end_stream
  then show ?thesis using assms by (cases "s_state s") (auto simp: h2_stream_send_end_stream_def)
next
  case (Add_send_window inc)
  show ?thesis
  proof (cases "inc = 0")
    case True
    then show ?thesis using assms Add_send_window by (simp add: h2_stream_add_send_window_def)
  next
    case False
    then show ?thesis
      using assms Add_send_window by (auto simp: add_send_window_cases stream_ok_def window_grows)
  qed
next
  case Close
  then show ?thesis by (cases "s_state s") auto
qed

fun stream_run :: "stream_op list \<Rightarrow> h2_stream ptr \<Rightarrow> h2_stream ptr option" where
  "stream_run [] s = Some s"
| "stream_run (op # ops) s = do {
     (ret, s) \<leftarrow> stream_apply op s;
     stream_run ops s
   }"

text \<open>The life cycle of RFC 7540 section 5.1, for streams that the client opens.\<close>

inductive life_cycle :: "h2_stream_state \<Rightarrow> h2_stream_state \<Rightarrow> bool" where
  recv_headers: "life_cycle H2_STREAM_STATE_IDLE H2_STREAM_STATE_OPEN"
| recv_headers_end: "life_cycle H2_STREAM_STATE_IDLE H2_STREAM_STATE_HALF_CLOSED_REMOTE"
| recv_end: "life_cycle H2_STREAM_STATE_OPEN H2_STREAM_STATE_HALF_CLOSED_REMOTE"
| send_end: "life_cycle H2_STREAM_STATE_OPEN H2_STREAM_STATE_HALF_CLOSED_LOCAL"
| recv_end_closes: "life_cycle H2_STREAM_STATE_HALF_CLOSED_LOCAL H2_STREAM_STATE_CLOSED"
| send_end_closes: "life_cycle H2_STREAM_STATE_HALF_CLOSED_REMOTE H2_STREAM_STATE_CLOSED"
| reset: "life_cycle s H2_STREAM_STATE_CLOSED"

code_pred life_cycle .

inductive_simps life_cycle_closed: "life_cycle H2_STREAM_STATE_CLOSED t"

text \<open>The same life cycle with its labels: in which state which operation gives which result, and the state
  after it. A result other than \<open>H2_OK\<close> leaves the state as it is.\<close>

inductive rfc_step :: "h2_stream_state \<Rightarrow> stream_op \<Rightarrow> h2_error_code \<Rightarrow> h2_stream_state \<Rightarrow> bool" where
  headers: "rfc_step H2_STREAM_STATE_IDLE (Receive_headers False) H2_OK H2_STREAM_STATE_OPEN"
| headers_end: "rfc_step H2_STREAM_STATE_IDLE (Receive_headers True) H2_OK H2_STREAM_STATE_HALF_CLOSED_REMOTE"
| headers_refused: "s \<noteq> H2_STREAM_STATE_IDLE \<Longrightarrow> rfc_step s (Receive_headers fin) H2_PROTOCOL_ERROR s"
| data: "s \<in> {H2_STREAM_STATE_OPEN, H2_STREAM_STATE_HALF_CLOSED_LOCAL} \<Longrightarrow> rfc_step s (Receive_data n False) H2_OK s"
| data_end: "rfc_step H2_STREAM_STATE_OPEN (Receive_data n True) H2_OK H2_STREAM_STATE_HALF_CLOSED_REMOTE"
| data_end_closes: "rfc_step H2_STREAM_STATE_HALF_CLOSED_LOCAL (Receive_data n True) H2_OK H2_STREAM_STATE_CLOSED"
| data_beyond_window:
    "s \<in> {H2_STREAM_STATE_OPEN, H2_STREAM_STATE_HALF_CLOSED_LOCAL} \<Longrightarrow>
       rfc_step s (Receive_data n fin) H2_FLOW_CONTROL_ERROR s"
| data_refused:
    "s \<notin> {H2_STREAM_STATE_OPEN, H2_STREAM_STATE_HALF_CLOSED_LOCAL} \<Longrightarrow> n \<le> nat INT32_MAX \<Longrightarrow>
       rfc_step s (Receive_data n fin) H2_STREAM_CLOSED s"
| data_too_long: "nat INT32_MAX < n \<Longrightarrow> rfc_step s (Receive_data n fin) H2_INTERNAL_ERROR s"
| end_sent: "rfc_step H2_STREAM_STATE_OPEN Send_end_stream H2_OK H2_STREAM_STATE_HALF_CLOSED_LOCAL"
| end_sent_closes: "rfc_step H2_STREAM_STATE_HALF_CLOSED_REMOTE Send_end_stream H2_OK H2_STREAM_STATE_CLOSED"
| end_refused:
    "s \<notin> {H2_STREAM_STATE_OPEN, H2_STREAM_STATE_HALF_CLOSED_REMOTE} \<Longrightarrow>
       rfc_step s Send_end_stream H2_STREAM_CLOSED s"
| window: "inc \<noteq> 0 \<Longrightarrow> rfc_step s (Add_send_window inc) H2_OK s"
| window_zero: "rfc_step s (Add_send_window 0) H2_PROTOCOL_ERROR s"
| window_overflow: "inc \<noteq> 0 \<Longrightarrow> rfc_step s (Add_send_window inc) H2_FLOW_CONTROL_ERROR s"
| closed: "rfc_step s Close H2_OK H2_STREAM_STATE_CLOSED"

lemma rfc_step_life_cycle: "rfc_step s op ret t \<Longrightarrow> life_cycle\<^sup>=\<^sup>= s t"
  by (induction rule: rfc_step.induct) (auto intro: life_cycle.intros)

lemma rfc_step_idle: "rfc_step s (Receive_headers fin) H2_OK t \<Longrightarrow> s = H2_STREAM_STATE_IDLE \<and> t \<noteq> H2_STREAM_STATE_IDLE"
  by (auto elim: rfc_step.cases)

text \<open>What one operation does to the windows: data that fits is taken from the receive window, an increment
  is added to the send window, and the flow-control errors are exactly the cases where that cannot be.\<close>

fun windows_step :: "h2_stream \<Rightarrow> stream_op \<Rightarrow> h2_error_code \<Rightarrow> h2_stream \<Rightarrow> bool" where
  "windows_step s (Receive_data n fin) ret t \<longleftrightarrow>
     (ret = H2_FLOW_CONTROL_ERROR \<longrightarrow> s_recv_window s < int n) \<and>
     (ret = H2_OK \<longrightarrow> int n \<le> s_recv_window s \<and> 
        (s_state t \<noteq> H2_STREAM_STATE_CLOSED \<longrightarrow>
          s_recv_window t = s_recv_window s - int n \<and> s_send_window t = s_send_window s))"
| "windows_step s (Add_send_window inc) ret t \<longleftrightarrow>
     (ret = H2_FLOW_CONTROL_ERROR \<longrightarrow> INT32_MAX < s_send_window s + int (unat inc)) \<and>
     (ret = H2_OK \<longrightarrow> s_send_window t = s_send_window s + int (unat inc) \<and> s_recv_window t = s_recv_window s)"
| "windows_step s op ret t \<longleftrightarrow>
     s_state t = H2_STREAM_STATE_CLOSED \<or> s_recv_window t = s_recv_window s \<and> s_send_window t = s_send_window s"

text \<open>An operation that was applied: the stream before it, its result, and the stream after it.\<close>

record stream_event =
  ev_before :: h2_stream
  ev_op :: stream_op
  ev_ret :: h2_error_code
  ev_after :: h2_stream

definition event_ok :: "stream_event \<Rightarrow> bool" where
  "event_ok e \<longleftrightarrow> rfc_step (s_state (ev_before e)) (ev_op e) (ev_ret e) (s_state (ev_after e)) \<and>
     windows_step (ev_before e) (ev_op e) (ev_ret e) (ev_after e) \<and>
     (ev_ret e \<noteq> H2_OK \<longrightarrow> ev_after e = ev_before e)"

lemma apply_event_ok:
  assumes "stream_ok s" "op_in_range op" "stream_apply op (Ptr s) = Some (ret, Ptr s')"
  shows "event_ok \<lparr>ev_before = s, ev_op = op, ev_ret = ret, ev_after = s'\<rparr>"
proof (cases op)
  case (Receive_headers fin)
  then show ?thesis
    using assms(3) by (cases fin; cases "s_state s")
      (auto simp: event_ok_def h2_stream_receive_headers_def intro: rfc_step.intros)
next
  case (Receive_data n fin)
  show ?thesis
  proof (cases "n \<le> nat INT32_MAX")
    case True
    then show ?thesis
      using assms Receive_data by (cases fin; cases "s_state s"; cases "s_recv_window s < int n")
        (auto simp: event_ok_def receive_data_cases intro: rfc_step.intros)
  next
    case False
    then show ?thesis
      using assms Receive_data by (auto simp: event_ok_def h2_stream_receive_data_def intro: rfc_step.intros)
  qed
next
  case Send_end_stream
  then show ?thesis
    using assms(3) by (cases "s_state s") (auto simp: event_ok_def h2_stream_send_end_stream_def intro: rfc_step.intros)
next
  case (Add_send_window inc)
  show ?thesis
  proof (cases "inc = 0")
    case True
    then show ?thesis
      using assms Add_send_window by (auto simp: event_ok_def h2_stream_add_send_window_def intro: rfc_step.intros)
  next
    case False
    then show ?thesis
      using assms Add_send_window
      by (auto simp: event_ok_def add_send_window_cases intro: rfc_step.intros split: if_split_asm)
  qed
next
  case Close
  then show ?thesis using assms(3) by (auto simp: event_ok_def intro: rfc_step.intros)
qed

lemma apply_life_cycle:
  assumes "stream_ok s" "op_in_range op" "stream_apply op (Ptr s) = Some (ret, Ptr s')"
  shows "life_cycle\<^sup>=\<^sup>= (s_state s) (s_state s')"
  using apply_event_ok [OF assms] by (auto simp: event_ok_def dest: rfc_step_life_cycle)

lemma stream_run_ok:
  "stream_ok s \<Longrightarrow> list_all op_in_range ops \<Longrightarrow>
     \<exists>s'. stream_run ops (Ptr s) = Some (Ptr s') \<and> stream_ok s' \<and> s_id s' = s_id s \<and>
       life_cycle\<^sup>*\<^sup>* (s_state s) (s_state s')"
proof (induction ops arbitrary: s)
  case (Cons op ops)
  then obtain ret t where t: "stream_apply op (Ptr s) = Some (ret, Ptr t)" "stream_ok t" "s_id t = s_id s"
    using stream_apply_ok [of s op] by auto
  with Cons obtain s' where "stream_run ops (Ptr t) = Some (Ptr s')" "stream_ok s'" "s_id s' = s_id t"
      "life_cycle\<^sup>*\<^sup>* (s_state t) (s_state s')" by fastforce
  moreover have "life_cycle\<^sup>*\<^sup>* (s_state s) (s_state t)"
    using apply_life_cycle [OF Cons.prems(1) _ t(1)] Cons.prems(2) by auto
  ultimately show ?case using t by auto
qed simp

lemma life_cycle_forward: "life_cycle\<^sup>*\<^sup>* a b \<Longrightarrow> a \<le> b"
proof (induction rule: rtranclp_induct)
  case (step b c)
  then show ?case by (cases b; cases c) (auto elim: life_cycle.cases)
qed simp

text \<open>The events of a run, in order.\<close>

fun stream_trace :: "stream_op list \<Rightarrow> h2_stream ptr \<Rightarrow> stream_event list option" where
  "stream_trace [] s = Some []"
| "stream_trace (op # ops) s = do {
     before \<leftarrow> deref s;
     (ret, s) \<leftarrow> stream_apply op s;
     after \<leftarrow> deref s;
     events \<leftarrow> stream_trace ops s;
     Some (\<lparr>ev_before = before, ev_op = op, ev_ret = ret, ev_after = after\<rparr> # events)
   }"

text \<open>The headers of the request are accepted once.\<close>

definition headers_accepted :: "stream_event \<Rightarrow> bool" where
  "headers_accepted e \<longleftrightarrow> (case ev_op e of Receive_headers _ \<Rightarrow> ev_ret e = H2_OK | _ \<Rightarrow> False)"

lemma stream_trace_ok:
  assumes "stream_ok s" "list_all op_in_range ops"
  shows "\<exists>events. stream_trace ops (Ptr s) = Some events \<and> map ev_op events = ops \<and>
    list_all (\<lambda>e. event_ok e \<and> stream_ok (ev_after e) \<and> s_id (ev_after e) = s_id s) events \<and>
    stream_run ops (Ptr s) = Some (Ptr (last (s # map ev_after events))) \<and>
    s # map ev_after events = map ev_before events @ [last (s # map ev_after events)] \<and>
    length (filter headers_accepted events) \<le> (if s_state s = H2_STREAM_STATE_IDLE then 1 else 0)"
  using assms
proof (induction ops arbitrary: s)
  case (Cons op ops)
  then obtain ret t where t: "stream_apply op (Ptr s) = Some (ret, Ptr t)" "stream_ok t" "s_id t = s_id s"
      "s_state s \<le> s_state t"
    using stream_apply_ok [of s op] by auto
  from Cons.IH [OF t(2)] Cons.prems obtain events where
    ev: "stream_trace ops (Ptr t) = Some events" "map ev_op events = ops"
      "list_all (\<lambda>e. event_ok e \<and> stream_ok (ev_after e) \<and> s_id (ev_after e) = s_id t) events"
      "stream_run ops (Ptr t) = Some (Ptr (last (t # map ev_after events)))"
      "t # map ev_after events = map ev_before events @ [last (t # map ev_after events)]"
      "length (filter headers_accepted events) \<le> (if s_state t = H2_STREAM_STATE_IDLE then 1 else 0)"
    by auto
  let ?e = "\<lparr>ev_before = s, ev_op = op, ev_ret = ret, ev_after = t\<rparr>"
  have e: "event_ok ?e" using apply_event_ok Cons.prems t(1) by auto
  have count: "length (filter headers_accepted (?e # events)) \<le> (if s_state s = H2_STREAM_STATE_IDLE then 1 else 0)"
  proof (cases "headers_accepted ?e")
    case True
    then have "s_state s = H2_STREAM_STATE_IDLE \<and> s_state t \<noteq> H2_STREAM_STATE_IDLE"
      using e by (cases op) (auto simp: event_ok_def headers_accepted_def dest: rfc_step_idle)
    then show ?thesis using ev(6) True by simp
  next
    case False
    then show ?thesis using ev(6) t(4) by (cases "s_state s"; cases "s_state t") auto
  qed
  show ?case
    using t ev e count by (intro exI [of _ "?e # events"]) auto
qed simp



text \<open>C26: a closed stream stays closed. Whatever is applied to it afterwards, it refuses headers with
  a protocol error and data and the end of the stream as closed, and none of the three changes it.\<close>

theorem closed_stays_closed:
  assumes "stream_ok s" "s_state s = H2_STREAM_STATE_CLOSED" "list_all op_in_range ops"
  shows "\<exists>s'. stream_run ops (Ptr s) = Some (Ptr s') \<and> s_state s' = H2_STREAM_STATE_CLOSED \<and>
    h2_stream_receive_headers (Ptr s') fin = (H2_PROTOCOL_ERROR, Ptr s') \<and>
    h2_stream_send_end_stream (Ptr s') = (H2_STREAM_CLOSED, Ptr s') \<and>
    h2_stream_receive_data (Ptr s') n fin = Some (if n > nat INT32_MAX then H2_INTERNAL_ERROR else H2_STREAM_CLOSED, Ptr s')"
proof -
  obtain s' where s': "stream_run ops (Ptr s) = Some (Ptr s')" "life_cycle\<^sup>*\<^sup>* H2_STREAM_STATE_CLOSED (s_state s')"
    using stream_run_ok [OF assms(1,3)] assms(2) by auto
  then have "s_state s' = H2_STREAM_STATE_CLOSED"
    using life_cycle_forward [OF s'(2)] by (cases "s_state s'") auto
  with s' show ?thesis
    by (simp add: h2_stream_receive_headers_def h2_stream_send_end_stream_def h2_stream_receive_data_def)
qed

definition closed_example :: h2_stream where
  "closed_example = zero_stream\<lparr>s_id := 3, s_state := H2_STREAM_STATE_CLOSED\<rparr>"

lemma closed_stays_closed_witness:
  "\<exists>s'. stream_run [Receive_data 1 False, Close] (Ptr closed_example) = Some (Ptr s') \<and> s_state s' = H2_STREAM_STATE_CLOSED \<and>
    h2_stream_receive_headers (Ptr s') False = (H2_PROTOCOL_ERROR, Ptr s') \<and>
    h2_stream_send_end_stream (Ptr s') = (H2_STREAM_CLOSED, Ptr s') \<and>
    h2_stream_receive_data (Ptr s') 5 False = Some (H2_STREAM_CLOSED, Ptr s')"
  using closed_stays_closed [of closed_example "[Receive_data 1 False, Close]" False 5]
  by (simp add: closed_example_def zero_stream_def stream_ok_def c_limits h2_consts)

text \<open>The guard of \<open>h2_stream_add_send_window\<close> checks the sum in 64 bits, but the update casts the
  increment to \<open>int32_t\<close>: for an increment above \<open>INT32_MAX\<close> and a negative window the guard passes
  and the addition overflows. The frame parser masks the top bit, so the connection never asks for
  it.\<close>

theorem add_send_window_cast_overflows:
  "h2_stream_add_send_window (Ptr (zero_stream\<lparr>s_send_window := - 2147483648\<rparr>)) 0x80000001 = None"
  by (simp add: h2_stream_add_send_window_def zero_stream_def i32_def cast_i32_def c_limits)

end
