(* ===== verification/C_Numbers.thy ===== *)
theory C_Numbers
  imports Prelude
begin

section \<open>Numbers in text\<close>

text \<open>
  The conversions of the C library that the programs use, after the C standard in the C locale with
  64-bit \<open>long\<close> and \<open>size_t\<close>: printing with \<open>%zu\<close>, and \<open>strtoul\<close> and \<open>atoi\<close> with base 10:
  leading white space, an optional sign, the longest run of digits. A \<open>strtoul\<close> value out of range
  gives \<open>ULONG_MAX\<close> and \<open>ERANGE\<close>, and a minus sign negates in the unsigned type; an \<open>atoi\<close> value that is
  no \<open>int\<close> is undefined.
\<close>

subsection \<open>Printing\<close>

text \<open>The text \<open>snprintf\<close> writes for \<open>%zu\<close>.\<close>

fun decimal :: "nat \<Rightarrow> byte list" where
  "decimal n = (if n < 10 then [of_nat (48 + n)] else decimal (n div 10) @ [of_nat (48 + n mod 10)])"

declare decimal.simps [simp del]

subsection \<open>Reading\<close>

definition c_isspace :: "byte \<Rightarrow> bool" where
  "c_isspace c \<longleftrightarrow> c = 32 \<or> (9 \<le> c \<and> c \<le> 13)"

definition c_isdigit :: "byte \<Rightarrow> bool" where
  "c_isdigit c \<longleftrightarrow> 48 \<le> c \<and> c \<le> 57"

fun digits_value :: "nat \<Rightarrow> byte list \<Rightarrow> nat" where
  "digits_value v [] = v"
| "digits_value v (c # cs) = digits_value (10 * v + (unat c - 48)) cs"

text \<open>The value, the text from \<open>end\<close> on, and whether \<open>errno\<close> was set to \<open>ERANGE\<close>.\<close>

definition strtoul10 :: "byte list \<Rightarrow> nat \<times> byte list \<times> bool" where
  "strtoul10 text =
     (let body = dropWhile c_isspace text;
          signed = (body \<noteq> [] \<and> (hd body = 45 \<or> hd body = 43));
          negative = (signed \<and> hd body = 45);
          body = (if signed then tl body else body);
          digits = takeWhile c_isdigit body;
          rest = dropWhile c_isdigit body;
          v = digits_value 0 digits
      in if digits = [] then (0, text, False)
         else if v > SIZE_MAX then (SIZE_MAX, rest, True)
         else (if negative then (2 ^ 64 - v) mod 2 ^ 64 else v, rest, False))"

definition atoi :: "byte list \<Rightarrow> int option" where
  "atoi text =
     (let body = dropWhile c_isspace text;
          signed = (body \<noteq> [] \<and> (hd body = 45 \<or> hd body = 43));
          negative = (signed \<and> hd body = 45);
          body = (if signed then tl body else body);
          v = int (digits_value 0 (takeWhile c_isdigit body))
      in i32 (if negative then - v else v))"

subsection \<open>Decimal numbers are read back\<close>

lemma unat_digit: "d < 10 \<Longrightarrow> unat (of_nat (48 + d) :: byte) = 48 + d"
  by (rule unat_of_nat_u8) simp

lemma digit_isdigit: "d < 10 \<Longrightarrow> c_isdigit (of_nat (48 + d))"
  using unat_digit [of d] by (simp add: c_isdigit_def word_le_nat_alt)

lemma digits_value_append: "digits_value v (xs @ [c]) = 10 * digits_value v xs + (unat c - 48)"
  by (induction xs arbitrary: v) simp_all

lemma decimal_value: "digits_value 0 (decimal n) = n"
proof (induction n rule: decimal.induct)
  case (1 n)
  show ?case
  proof (cases "n < 10")
    case True
    then show ?thesis using unat_digit [of n] by (simp add: decimal.simps [of n])
  next
    case False
    then show ?thesis using 1 unat_digit [of "n mod 10"]
      by (simp add: decimal.simps [of n] digits_value_append)
  qed
qed

lemma decimal_isdigit: "c \<in> set (decimal n) \<Longrightarrow> c_isdigit c"
proof (induction n rule: decimal.induct)
  case (1 n)
  then show ?case using digit_isdigit [of n] digit_isdigit [of "n mod 10"]
    by (cases "n < 10") (auto simp: decimal.simps [of n])
qed

lemma decimal_nonempty: "decimal n \<noteq> []"
  by (simp add: decimal.simps)

lemma isdigit_plain: "c_isdigit c \<Longrightarrow> \<not> c_isspace c \<and> c \<noteq> 45 \<and> c \<noteq> 43"
  by (auto simp: c_isdigit_def c_isspace_def word_le_nat_alt)

lemma strtoul_digits:
  assumes "ds \<noteq> []" "\<forall>c \<in> set ds. c_isdigit c"
  shows "strtoul10 ds = (if digits_value 0 ds > SIZE_MAX then (SIZE_MAX, [], True) else (digits_value 0 ds, [], False))"
proof -
  obtain c cs where ds: "ds = c # cs" using assms(1) by (cases ds) auto
  then have "\<not> c_isspace c" "c \<noteq> 45" "c \<noteq> 43" using assms(2) isdigit_plain by auto
  moreover have "takeWhile c_isdigit ds = ds" "dropWhile c_isdigit ds = []"
    using assms(2) by (auto simp: takeWhile_eq_all_conv dropWhile_eq_Nil_conv)
  ultimately show ?thesis using ds by (simp add: strtoul10_def Let_def)
qed

lemma atoi_digits:
  assumes "\<forall>c \<in> set ds. c_isdigit c"
  shows "atoi ds = i32 (int (digits_value 0 ds))"
proof (cases ds)
  case (Cons c cs)
  then have "\<not> c_isspace c" "c \<noteq> 45" "c \<noteq> 43" using assms isdigit_plain by auto
  moreover have "takeWhile c_isdigit ds = ds" using assms by (auto simp: takeWhile_eq_all_conv)
  ultimately show ?thesis using Cons by (simp add: atoi_def Let_def)
qed (simp add: atoi_def)

lemma atoi_decimal: "int n \<le> INT32_MAX \<Longrightarrow> atoi (decimal n) = Some (int n)"
  using atoi_digits [of "decimal n"] decimal_isdigit by (auto simp: decimal_value i32_def c_limits)

end
