(* ===== verification/Connection.thy ===== *)
theory Connection
  imports H2_Stream C_Numbers
begin

unbundle bit_operations_syntax

section \<open>Connections\<close>

text \<open>
  \<open>include/http2/connection.h\<close> and \<open>src/connection.c\<close>: one HTTP/2 server connection. An array with a
  used length (\<open>input\<close>, \<open>output\<close>, \<open>header_block\<close>) is the list of its used bytes; \<open>memmove\<close> to the
  front is \<open>drop\<close>, and appending past the capacity is undefined. A pointer into the table of streams
  is its index. Every operation takes the connection and returns it updated with the error code;
  \<open>None\<close> is undefined behaviour. The functions come in the order of the source.
\<close>

subsection \<open>The state\<close>

definition H2_CLIENT_PREFACE :: "byte list" where
  "H2_CLIENT_PREFACE = lit ''PRI * HTTP/2.0'' @ [13, 10, 13, 10] @ lit ''SM'' @ [13, 10, 13, 10]"

definition H2_CLIENT_PREFACE_LEN :: nat where
  "H2_CLIENT_PREFACE_LEN = 24"

definition H2_CONN_INPUT_CAP :: nat where
  "H2_CONN_INPUT_CAP = 131072"

definition H2_CONN_OUTPUT_CAP :: nat where
  "H2_CONN_OUTPUT_CAP = 131072"

definition H2_CONN_MAX_STREAMS :: nat where
  "H2_CONN_MAX_STREAMS = 128"

definition H2_CONN_HEADER_BLOCK_CAP :: nat where
  "H2_CONN_HEADER_BLOCK_CAP = 65536"

lemmas [h2_consts] = H2_CLIENT_PREFACE_LEN_def H2_CONN_INPUT_CAP_def H2_CONN_OUTPUT_CAP_def
  H2_CONN_MAX_STREAMS_def H2_CONN_HEADER_BLOCK_CAP_def

record h2_connection =
  c_preface_seen :: bool
  c_settings_sent :: bool
  c_goaway_sent :: bool
  c_goaway_error :: u32
  c_last_stream_id :: u32
  c_max_frame_size :: u32
  c_initial_stream_window :: int
  c_conn_send_window :: int
  c_conn_recv_window :: int
  c_responses_sent :: u32
  c_header_block_open :: bool
  c_header_block_stream_id :: u32
  c_header_block_flags :: byte
  c_header_block :: "byte list"
  c_streams :: "h2_stream list"
  c_input :: "byte list"
  c_output :: "byte list"
  c_output_sent :: nat

type_synonym conn_result = "(h2_error_code \<times> h2_connection) option"

abbreviation set_stream :: "h2_connection \<Rightarrow> nat \<Rightarrow> h2_stream \<Rightarrow> h2_connection" where
  "set_stream conn i s \<equiv> conn\<lparr>c_streams := (c_streams conn)[i := s]\<rparr>"

subsection \<open>The output queue\<close>

definition h2_connection_compact_output :: "h2_connection \<Rightarrow> h2_connection" where
  "h2_connection_compact_output conn =
     (if c_output_sent conn = 0 then conn
      else if c_output_sent conn \<ge> length (c_output conn) then conn\<lparr>c_output := [], c_output_sent := 0\<rparr>
      else conn\<lparr>c_output := drop (c_output_sent conn) (c_output conn), c_output_sent := 0\<rparr>)"

definition h2_connection_queue_bytes :: "h2_connection \<Rightarrow> byte list ptr \<Rightarrow> nat \<Rightarrow> conn_result" where
  "h2_connection_queue_bytes conn data data_len =
     (let conn = h2_connection_compact_output conn in
      if data_len > size_sub H2_CONN_OUTPUT_CAP (length (c_output conn)) \<or> (data_len > 0 \<and> data = NULL)
      then Some (H2_INTERNAL_ERROR, conn)
      else if data_len > 0 then do {
        d \<leftarrow> deref data;
        bytes \<leftarrow> rd_block d data_len;
        out \<leftarrow> append_within H2_CONN_OUTPUT_CAP (c_output conn) bytes;
        Some (H2_OK, conn\<lparr>c_output := out\<rparr>)
      }
      else Some (H2_OK, conn))"

definition h2_connection_queue_goaway :: "h2_connection \<Rightarrow> u32 \<Rightarrow> conn_result" where
  "h2_connection_queue_goaway conn error_code =
     (if c_goaway_sent conn then Some (H2_OK, conn)
      else do {
        (wire_len, wire) \<leftarrow> h2_frame_encode_goaway (Ptr (local_array (H2_FRAME_HEADER_LEN + 8)))
                             (H2_FRAME_HEADER_LEN + 8) (c_last_stream_id conn) error_code NULL 0;
        if wire_len = 0 then Some (H2_INTERNAL_ERROR, conn)
        else h2_connection_queue_bytes (conn\<lparr>c_goaway_sent := True, c_goaway_error := error_code\<rparr>) wire wire_len
      })"

definition h2_connection_queue_settings :: "h2_connection \<Rightarrow> conn_result" where
  "h2_connection_queue_settings conn = do {
     let settings = [\<lparr>st_id = H2_SETTINGS_ENABLE_PUSH, st_value = 0\<rparr>];
     (wire_len, wire) \<leftarrow> h2_frame_encode_settings (Ptr (local_array (H2_FRAME_HEADER_LEN + 6)))
                          (H2_FRAME_HEADER_LEN + 6) 0 (Ptr settings) 1;
     if wire_len = 0 then Some (H2_INTERNAL_ERROR, conn)
     else h2_connection_queue_bytes conn wire wire_len
   }"

definition h2_connection_queue_settings_ack :: "h2_connection \<Rightarrow> conn_result" where
  "h2_connection_queue_settings_ack conn = do {
     (wire_len, wire) \<leftarrow> h2_frame_encode_settings (Ptr (local_array H2_FRAME_HEADER_LEN))
                          H2_FRAME_HEADER_LEN H2_FLAG_ACK NULL 0;
     if wire_len = 0 then Some (H2_INTERNAL_ERROR, conn)
     else h2_connection_queue_bytes conn wire wire_len
   }"

definition h2_connection_queue_window_update :: "h2_connection \<Rightarrow> u32 \<Rightarrow> u32 \<Rightarrow> conn_result" where
  "h2_connection_queue_window_update conn stream_id increment = do {
     (wire_len, wire) \<leftarrow> h2_frame_encode_window_update (Ptr (local_array (H2_FRAME_HEADER_LEN + 4)))
                          (H2_FRAME_HEADER_LEN + 4) stream_id increment;
     if wire_len = 0 then Some (H2_INTERNAL_ERROR, conn)
     else h2_connection_queue_bytes conn wire wire_len
   }"

definition h2_connection_queue_rst_stream :: "h2_connection \<Rightarrow> u32 \<Rightarrow> u32 \<Rightarrow> conn_result" where
  "h2_connection_queue_rst_stream conn stream_id error_code = do {
     (wire_len, wire) \<leftarrow> h2_frame_encode_rst_stream (Ptr (local_array (H2_FRAME_HEADER_LEN + 4)))
                          (H2_FRAME_HEADER_LEN + 4) stream_id error_code;
     if wire_len = 0 then Some (H2_INTERNAL_ERROR, conn)
     else h2_connection_queue_bytes conn wire wire_len
   }"

subsection \<open>The table of streams\<close>

definition h2_connection_find_stream :: "h2_connection \<Rightarrow> u32 \<Rightarrow> nat ptr" where
  "h2_connection_find_stream conn stream_id = scan (\<lambda>s. s_id s = stream_id) (c_streams conn) 0"

definition h2_connection_get_stream :: "h2_connection \<Rightarrow> u32 \<Rightarrow> nat ptr \<times> h2_connection" where
  "h2_connection_get_stream conn stream_id =
     (case h2_connection_find_stream conn stream_id of
        Ptr pos \<Rightarrow> (Ptr pos, conn)
      | NULL \<Rightarrow>
          (case scan (\<lambda>s. s_id s = 0 \<or> s_state s = H2_STREAM_STATE_CLOSED) (c_streams conn) 0 of
             Ptr pos \<Rightarrow>
               (Ptr pos, set_stream conn pos
                  (h2_stream_init (c_streams conn ! pos) stream_id (c_initial_stream_window conn)))
           | NULL \<Rightarrow> (NULL, conn)))"

subsection \<open>Flow control of received data\<close>

text \<open>The two windows are refilled when half of the default size is used up: the increment is sent
  to the peer and added to the window. The first part is the connection's window, the second the
  stream's.\<close>

definition h2_connection_refresh_conn_window :: "h2_connection \<Rightarrow> conn_result" where
  "h2_connection_refresh_conn_window conn =
     (if c_conn_recv_window conn \<le> H2_DEFAULT_WINDOW_SIZE div 2 then do {
        gap \<leftarrow> i32 (H2_DEFAULT_WINDOW_SIZE - c_conn_recv_window conn);
        let increment = (word_of_int gap :: u32);
        win \<leftarrow> i32 (c_conn_recv_window conn + cast_i32 (uint increment));
        (ret, conn) \<leftarrow> h2_connection_queue_window_update (conn\<lparr>c_conn_recv_window := win\<rparr>) 0 increment;
        Some (if ret \<noteq> H2_OK then H2_INTERNAL_ERROR else H2_OK, conn)
      }
      else Some (H2_OK, conn))"

definition h2_connection_refresh_stream_window :: "h2_connection \<Rightarrow> nat \<Rightarrow> conn_result" where
  "h2_connection_refresh_stream_window conn i = do {
     s \<leftarrow> rd (c_streams conn) i;
     if s_recv_window s \<le> H2_DEFAULT_WINDOW_SIZE div 2 then do {
       gap \<leftarrow> i32 (H2_DEFAULT_WINDOW_SIZE - s_recv_window s);
       let increment = (word_of_int gap :: u32);
       win \<leftarrow> i32 (s_recv_window s + cast_i32 (uint increment));
       (ret, conn) \<leftarrow> h2_connection_queue_window_update (set_stream conn i (s\<lparr>s_recv_window := win\<rparr>)) (s_id s) increment;
       Some (if ret \<noteq> H2_OK then H2_INTERNAL_ERROR else H2_OK, conn)
     }
     else Some (H2_OK, conn)
   }"

definition h2_connection_refresh_recv_windows :: "h2_connection \<Rightarrow> nat ptr \<Rightarrow> conn_result" where
  "h2_connection_refresh_recv_windows conn stream = do {
     (ret, conn) \<leftarrow> h2_connection_refresh_conn_window conn;
     if ret \<noteq> H2_OK then Some (ret, conn)
     else (case stream of
         NULL \<Rightarrow> Some (H2_OK, conn)
       | Ptr i \<Rightarrow> h2_connection_refresh_stream_window conn i)
   }"

subsection \<open>Settings of the peer\<close>

text \<open>The inner loop: every live stream's send window moves by \<open>delta\<close>. It stops at the first window
  that would leave the range, with the earlier ones already moved.\<close>

fun h2_connection_shift_send_windows :: "int \<Rightarrow> h2_stream list \<Rightarrow> h2_error_code \<times> h2_stream list" where
  "h2_connection_shift_send_windows delta [] = (H2_OK, [])"
| "h2_connection_shift_send_windows delta (s # ss) =
     (if s_id s \<noteq> 0 \<and> s_state s \<noteq> H2_STREAM_STATE_CLOSED then
        (let new_window = s_send_window s + delta in
         if new_window < INT32_MIN \<or> new_window > INT32_MAX then (H2_FLOW_CONTROL_ERROR, s # ss)
         else
           (let (ret, ss) = h2_connection_shift_send_windows delta ss
            in (ret, s\<lparr>s_send_window := new_window\<rparr> # ss)))
      else
        (let (ret, ss) = h2_connection_shift_send_windows delta ss in (ret, s # ss)))"

text \<open>One setting, and the loop over the settings of a frame.\<close>

definition h2_connection_apply_setting :: "h2_connection \<Rightarrow> h2_setting \<Rightarrow> h2_error_code \<times> h2_connection" where
  "h2_connection_apply_setting conn setting =
     (if st_id setting = H2_SETTINGS_ENABLE_PUSH then
        (if st_value setting > 1 then (H2_PROTOCOL_ERROR, conn) else (H2_OK, conn))
      else if st_id setting = H2_SETTINGS_INITIAL_WINDOW_SIZE then
        (if uint (st_value setting) > INT32_MAX then (H2_FLOW_CONTROL_ERROR, conn)
         else
           let delta = uint (st_value setting) - c_initial_stream_window conn;
               (ret, streams) = h2_connection_shift_send_windows delta (c_streams conn);
               conn = conn\<lparr>c_streams := streams\<rparr>
           in if ret \<noteq> H2_OK then (ret, conn)
              else (H2_OK, conn\<lparr>c_initial_stream_window := uint (st_value setting)\<rparr>))
      else if st_id setting = H2_SETTINGS_MAX_FRAME_SIZE then
        (if unat (st_value setting) < H2_DEFAULT_MAX_FRAME_SIZE \<or> unat (st_value setting) > H2_MAX_FRAME_SIZE
         then (H2_PROTOCOL_ERROR, conn)
         else (H2_OK, conn\<lparr>c_max_frame_size := st_value setting\<rparr>))
      else (H2_OK, conn))"

fun h2_connection_apply_settings_loop :: "h2_connection \<Rightarrow> h2_setting list \<Rightarrow> h2_error_code \<times> h2_connection" where
  "h2_connection_apply_settings_loop conn [] = (H2_OK, conn)"
| "h2_connection_apply_settings_loop conn (setting # rest) =
     (let (ret, conn) = h2_connection_apply_setting conn setting
      in if ret \<noteq> H2_OK then (ret, conn) else h2_connection_apply_settings_loop conn rest)"

definition h2_connection_apply_settings ::
  "h2_connection \<Rightarrow> h2_frame_header \<Rightarrow> byte list \<Rightarrow> conn_result" where
  "h2_connection_apply_settings conn header payload = do {
     (ret, settings, settings_len) \<leftarrow> h2_frame_parse_settings (Ptr header) (Ptr payload)
                                        (Ptr (replicate 32 local_setting)) 32 (Ptr 0);
     if ret \<noteq> H2_OK then Some (ret, conn)
     else if fh_flags header AND H2_FLAG_ACK \<noteq> 0 then Some (H2_OK, conn)
     else do {
       settings \<leftarrow> deref settings;
       settings_len \<leftarrow> deref settings_len;
       settings \<leftarrow> rd_block settings settings_len;
       let (ret, conn) = h2_connection_apply_settings_loop conn settings;
       if ret \<noteq> H2_OK then Some (ret, conn)
       else h2_connection_queue_settings_ack conn
     }
   }"

subsection \<open>Responses\<close>

definition h2_connection_queue_deferred_data ::
  "h2_connection \<Rightarrow> nat \<Rightarrow> byte list \<Rightarrow> nat \<Rightarrow> conn_result" where
  "h2_connection_queue_deferred_data conn i body body_len = do {
     s \<leftarrow> rd (c_streams conn) i;
     if c_conn_send_window conn < int body_len \<or> s_send_window s < int body_len
     then Some (H2_OK, set_stream conn i (s\<lparr>s_response_body_deferred := True\<rparr>))
     else do {
       (wire_len, wire) \<leftarrow> h2_frame_encode_data (Ptr (local_array (H2_FRAME_HEADER_LEN + 1024)))
                            (H2_FRAME_HEADER_LEN + 1024) (s_id s) H2_FLAG_END_STREAM (Ptr body) body_len;
       if wire_len = 0 then Some (H2_INTERNAL_ERROR, conn)
       else do {
         (ret, conn) \<leftarrow> h2_connection_queue_bytes conn wire wire_len;
         if ret \<noteq> H2_OK then Some (H2_INTERNAL_ERROR, conn)
         else do {
           conn_win \<leftarrow> i32 (c_conn_send_window conn - cast_i32 (int body_len));
           win \<leftarrow> i32 (s_send_window s - cast_i32 (int body_len));
           let s = s\<lparr>s_send_window := win, s_response_body_deferred := False, s_response_sent := True\<rparr>;
           let (ret, stream) = h2_stream_send_end_stream (Ptr s);
           s \<leftarrow> deref stream;
           Some (ret, set_stream (conn\<lparr>c_conn_send_window := conn_win,
                                       c_responses_sent := c_responses_sent conn + 1\<rparr>) i s)
         }
       }
     }
   }"

text \<open>The header block of the response: four calls that append to the local array \<open>header_block\<close> at
  \<open>pos\<close>. The number returned is 0 when one of them fails.\<close>

definition h2_connection_response_block :: "byte list \<Rightarrow> (nat \<times> byte list) option" where
  "h2_connection_response_block content_length = do {
     let w = local_array 512;
     let pos = 0;
     (chunk_len, w) \<leftarrow> at_offset w pos (\<lambda>q. h2_hpack_encode_indexed q (size_sub 512 pos) 8);
     if chunk_len = 0 then Some (0, w)
     else do {
       let pos = size_add pos chunk_len;
       (chunk_len, w) \<leftarrow> at_offset w pos (\<lambda>q. h2_hpack_encode_literal_new_name q (size_sub 512 pos)
                          (Ptr (lit ''content-type'')) (Ptr (lit ''text/plain'')));
       if chunk_len = 0 then Some (0, w)
       else do {
         let pos = size_add pos chunk_len;
         (chunk_len, w) \<leftarrow> at_offset w pos (\<lambda>q. h2_hpack_encode_literal_new_name q (size_sub 512 pos)
                            (Ptr (lit ''content-length'')) (Ptr content_length));
         if chunk_len = 0 then Some (0, w)
         else do {
           let pos = size_add pos chunk_len;
           (chunk_len, w) \<leftarrow> at_offset w pos (\<lambda>q. h2_hpack_encode_literal_new_name q (size_sub 512 pos)
                              (Ptr (lit ''server'')) (Ptr (lit ''c11-h2'')));
           if chunk_len = 0 then Some (0, w)
           else Some (size_add pos chunk_len, w)
         }
       }
     }
   }"

text \<open>The HEADERS frame of the response, sent once per stream.\<close>

definition h2_connection_queue_response_headers ::
  "h2_connection \<Rightarrow> nat \<Rightarrow> byte list \<Rightarrow> conn_result" where
  "h2_connection_queue_response_headers conn i content_length = do {
     s \<leftarrow> rd (c_streams conn) i;
     if s_response_headers_sent s then Some (H2_OK, conn)
     else do {
       (pos, header_block) \<leftarrow> h2_connection_response_block content_length;
       if pos = 0 then Some (H2_INTERNAL_ERROR, conn)
       else do {
         (wire_len, wire) \<leftarrow> h2_frame_encode_headers (Ptr (local_array (H2_FRAME_HEADER_LEN + 1024)))
                              (H2_FRAME_HEADER_LEN + 1024) (s_id s) H2_FLAG_END_HEADERS (Ptr header_block) pos;
         if wire_len = 0 then Some (H2_INTERNAL_ERROR, conn)
         else do {
           (ret, conn) \<leftarrow> h2_connection_queue_bytes conn wire wire_len;
           if ret \<noteq> H2_OK then Some (H2_INTERNAL_ERROR, conn)
           else Some (H2_OK, set_stream conn i (s\<lparr>s_response_headers_sent := True\<rparr>))
         }
       }
     }
   }"

definition h2_connection_queue_response :: "h2_connection \<Rightarrow> nat \<Rightarrow> conn_result" where
  "h2_connection_queue_response conn i = do {
     s \<leftarrow> rd (c_streams conn) i;
     if s_response_sent s then Some (H2_OK, conn)
     else do {
       let s = (if cstr (s_path s) = [] then s\<lparr>s_path := lit ''/''\<rparr> else s);
       let conn = set_stream conn i s;
       let body = cstr (s_path s) @ [10];
       let body_len = length body;
       if body_len \<ge> 320 then Some (H2_INTERNAL_ERROR, conn)
       else if length (decimal body_len) \<ge> 32 then Some (H2_INTERNAL_ERROR, conn)
       else do {
         (ret, conn) \<leftarrow> h2_connection_queue_response_headers conn i (decimal body_len);
         if ret \<noteq> H2_OK then Some (ret, conn)
         else h2_connection_queue_deferred_data conn i body body_len
       }
     }
   }"

text \<open>The loop over the table from \<open>pos\<close> on, \<open>n\<close> slots to go.\<close>

fun h2_connection_flush_deferred_responses_loop :: "h2_connection \<Rightarrow> nat \<Rightarrow> nat \<Rightarrow> conn_result" where
  "h2_connection_flush_deferred_responses_loop conn pos 0 = Some (H2_OK, conn)"
| "h2_connection_flush_deferred_responses_loop conn pos (Suc n) = do {
     s \<leftarrow> rd (c_streams conn) pos;
     if s_id s \<noteq> 0 \<and> s_state s \<noteq> H2_STREAM_STATE_CLOSED \<and> s_response_body_deferred s then do {
       (ret, conn) \<leftarrow> h2_connection_queue_response conn pos;
       if ret \<noteq> H2_OK then Some (ret, conn)
       else h2_connection_flush_deferred_responses_loop conn (Suc pos) n
     }
     else h2_connection_flush_deferred_responses_loop conn (Suc pos) n
   }"

definition h2_connection_flush_deferred_responses :: "h2_connection \<Rightarrow> conn_result" where
  "h2_connection_flush_deferred_responses conn =
     h2_connection_flush_deferred_responses_loop conn 0 H2_CONN_MAX_STREAMS"

end
