(* ===== verification/Connection_Feed.thy ===== *)
theory Connection_Feed
  imports Connection
begin

unbundle bit_operations_syntax

section \<open>Frames received on a connection\<close>

text \<open>
  The rest of \<open>src/connection.c\<close>: the handlers of the frame types, the dispatcher, the feed loop that
  cuts the input into frames, and the functions the server uses to drain the output. A payload is
  the list of the input bytes after the frame header.
\<close>

subsection \<open>Header blocks\<close>

definition h2_connection_finish_headers ::
  "h2_connection \<Rightarrow> u32 \<Rightarrow> byte \<Rightarrow> byte list \<Rightarrow> nat \<Rightarrow> conn_result" where
  "h2_connection_finish_headers conn stream_id flags header_block header_block_len =
     (if stream_id AND 1 = 0 then Some (H2_PROTOCOL_ERROR, conn)
      else if stream_id \<le> c_last_stream_id conn then Some (H2_PROTOCOL_ERROR, conn)
      else
        (case h2_connection_get_stream conn stream_id of
           (NULL, conn) \<Rightarrow> Some (H2_REFUSED_STREAM, conn)
         | (Ptr i, conn) \<Rightarrow> do {
             let conn = conn\<lparr>c_last_stream_id := stream_id\<rparr>;
             s \<leftarrow> rd (c_streams conn) i;
             (ret, path) \<leftarrow> h2_hpack_extract_path (Ptr header_block) header_block_len (Ptr (s_path s)) H2_STREAM_PATH_CAP;
             path \<leftarrow> deref path;
             let s = s\<lparr>s_path := path\<rparr>;
             let conn = set_stream conn i s;
             if ret \<noteq> H2_OK then Some (ret, conn)
             else do {
               let (ret, stream) = h2_stream_receive_headers (Ptr s) (flags AND H2_FLAG_END_STREAM \<noteq> 0);
               s \<leftarrow> deref stream;
               let conn = set_stream conn i s;
               if ret \<noteq> H2_OK then Some (ret, conn)
               else h2_connection_queue_response conn i
             }
           }))"

definition h2_connection_append_header_block :: "h2_connection \<Rightarrow> byte list \<Rightarrow> nat \<Rightarrow> conn_result" where
  "h2_connection_append_header_block conn data data_len =
     (if data_len > size_sub H2_CONN_HEADER_BLOCK_CAP (length (c_header_block conn))
      then Some (H2_COMPRESSION_ERROR, conn)
      else if data_len > 0 then do {
        bytes \<leftarrow> rd_block data data_len;
        block \<leftarrow> append_within H2_CONN_HEADER_BLOCK_CAP (c_header_block conn) bytes;
        Some (H2_OK, conn\<lparr>c_header_block := block\<rparr>)
      }
      else Some (H2_OK, conn))"

definition h2_connection_process_headers ::
  "h2_connection \<Rightarrow> h2_frame_header \<Rightarrow> byte list \<Rightarrow> conn_result" where
  "h2_connection_process_headers conn header payload = do {
     (ret, parsed) \<leftarrow> h2_frame_parse_headers (Ptr header) (Ptr payload) (Ptr local_headers_payload);
     if ret \<noteq> H2_OK then Some (ret, conn)
     else do {
       parsed \<leftarrow> deref parsed;
       if fh_flags header AND H2_FLAG_END_HEADERS = 0 then
         if c_header_block_open conn then Some (H2_PROTOCOL_ERROR, conn)
         else
           h2_connection_append_header_block
             (conn\<lparr>c_header_block_open := True, c_header_block_stream_id := fh_stream_id header,
                   c_header_block_flags := fh_flags header, c_header_block := []\<rparr>)
             (hp_header_block parsed) (hp_header_block_len parsed)
       else
         h2_connection_finish_headers conn (fh_stream_id header) (fh_flags header)
           (hp_header_block parsed) (hp_header_block_len parsed)
     }
   }"

definition h2_connection_process_continuation ::
  "h2_connection \<Rightarrow> h2_frame_header \<Rightarrow> byte list \<Rightarrow> conn_result" where
  "h2_connection_process_continuation conn header payload =
     (if \<not> c_header_block_open conn \<or> fh_stream_id header \<noteq> c_header_block_stream_id conn
      then Some (H2_PROTOCOL_ERROR, conn)
      else do {
        (ret, parsed) \<leftarrow> h2_frame_parse_continuation (Ptr header) (Ptr payload) (Ptr local_continuation_payload);
        if ret \<noteq> H2_OK then Some (ret, conn)
        else do {
          parsed \<leftarrow> deref parsed;
          (ret, conn) \<leftarrow> h2_connection_append_header_block conn (cn_header_block parsed) (cn_header_block_len parsed);
          if ret \<noteq> H2_OK then Some (ret, conn)
          else if fh_flags header AND H2_FLAG_END_HEADERS = 0 then Some (H2_OK, conn)
          else
            h2_connection_finish_headers (conn\<lparr>c_header_block_open := False\<rparr>)
              (c_header_block_stream_id conn) (c_header_block_flags conn)
              (c_header_block conn) (length (c_header_block conn))
        }
      })"

subsection \<open>Data and flow control\<close>

definition h2_connection_process_data ::
  "h2_connection \<Rightarrow> h2_frame_header \<Rightarrow> byte list \<Rightarrow> conn_result" where
  "h2_connection_process_data conn header payload = do {
     (ret, parsed) \<leftarrow> h2_frame_parse_data (Ptr header) (Ptr payload) (Ptr local_data_payload);
     if ret \<noteq> H2_OK then Some (ret, conn)
     else (case h2_connection_find_stream conn (fh_stream_id header) of
         NULL \<Rightarrow> Some (H2_PROTOCOL_ERROR, conn)
       | Ptr i \<Rightarrow> do {
           s \<leftarrow> rd (c_streams conn) i;
           if s_state s \<noteq> H2_STREAM_STATE_OPEN \<and> s_state s \<noteq> H2_STREAM_STATE_HALF_CLOSED_LOCAL then
             if cast_size (c_conn_recv_window conn) < unat (fh_length header)
             then Some (H2_FLOW_CONTROL_ERROR, conn)
             else do {
               win \<leftarrow> i32 (c_conn_recv_window conn - cast_i32 (uint (fh_length header)));
               (_, conn) \<leftarrow> h2_connection_refresh_recv_windows (conn\<lparr>c_conn_recv_window := win\<rparr>) NULL;
               Some (H2_STREAM_CLOSED, conn)
             }
           else if cast_size (c_conn_recv_window conn) < unat (fh_length header)
           then Some (H2_FLOW_CONTROL_ERROR, conn)
           else do {
             win \<leftarrow> i32 (c_conn_recv_window conn - cast_i32 (uint (fh_length header)));
             let conn = conn\<lparr>c_conn_recv_window := win\<rparr>;
             (ret, stream) \<leftarrow> h2_stream_receive_data (Ptr s) (unat (fh_length header))
                               (fh_flags header AND H2_FLAG_END_STREAM \<noteq> 0);
             s \<leftarrow> deref stream;
             let conn = set_stream conn i s;
             if ret \<noteq> H2_OK then Some (ret, conn)
             else h2_connection_refresh_recv_windows conn
                    (if s_state s = H2_STREAM_STATE_CLOSED then NULL else Ptr i)
           }
         })
   }"

definition h2_connection_process_window_update ::
  "h2_connection \<Rightarrow> h2_frame_header \<Rightarrow> byte list \<Rightarrow> conn_result" where
  "h2_connection_process_window_update conn header payload = do {
     (ret, increment) \<leftarrow> h2_frame_parse_window_update (Ptr header) (Ptr payload) (Ptr 0);
     if ret \<noteq> H2_OK then Some (ret, conn)
     else do {
       increment \<leftarrow> deref increment;
       if fh_stream_id header = 0 then
         if c_conn_send_window conn + uint increment > INT32_MAX then Some (H2_FLOW_CONTROL_ERROR, conn)
         else do {
           win \<leftarrow> i32 (c_conn_send_window conn + cast_i32 (uint increment));
           h2_connection_flush_deferred_responses (conn\<lparr>c_conn_send_window := win\<rparr>)
         }
       else (case h2_connection_find_stream conn (fh_stream_id header) of
           NULL \<Rightarrow> Some (H2_OK, conn)
         | Ptr i \<Rightarrow> do {
             s \<leftarrow> rd (c_streams conn) i;
             (ret, stream) \<leftarrow> h2_stream_add_send_window (Ptr s) increment;
             s \<leftarrow> deref stream;
             let conn = set_stream conn i s;
             if ret \<noteq> H2_OK then Some (ret, conn)
             else h2_connection_flush_deferred_responses conn
           })
     }
   }"

subsection \<open>The dispatcher\<close>

definition h2_connection_is_stream_error :: "h2_error_code \<Rightarrow> bool" where
  "h2_connection_is_stream_error error_code \<longleftrightarrow>
     error_code = H2_REFUSED_STREAM \<or> error_code = H2_STREAM_CLOSED"

definition h2_connection_reset_stream_error :: "h2_connection \<Rightarrow> u32 \<Rightarrow> u32 \<Rightarrow> conn_result" where
  "h2_connection_reset_stream_error conn stream_id error_code = do {
     let stream = h2_connection_find_stream conn stream_id;
     (ret, conn) \<leftarrow> h2_connection_queue_rst_stream conn stream_id error_code;
     if ret \<noteq> H2_OK then Some (ret, conn)
     else (case stream of
         NULL \<Rightarrow> Some (H2_OK, conn)
       | Ptr i \<Rightarrow> do {
           s \<leftarrow> rd (c_streams conn) i;
           s \<leftarrow> deref (h2_stream_close (Ptr s));
           Some (H2_OK, set_stream conn i s)
         })
   }"

text \<open>Three cases of the \<open>switch\<close>: PRIORITY, RST_STREAM and PING.\<close>

definition h2_connection_process_priority ::
  "h2_connection \<Rightarrow> h2_frame_header \<Rightarrow> byte list \<Rightarrow> conn_result" where
  "h2_connection_process_priority conn header payload = do {
     (ret, _) \<leftarrow> h2_frame_parse_priority (Ptr header) (Ptr payload) (Ptr local_priority_payload);
     Some (ret, conn)
   }"

definition h2_connection_process_rst_stream ::
  "h2_connection \<Rightarrow> h2_frame_header \<Rightarrow> byte list \<Rightarrow> conn_result" where
  "h2_connection_process_rst_stream conn header payload = do {
     (ret, _) \<leftarrow> h2_frame_parse_rst_stream (Ptr header) (Ptr payload) (Ptr 0);
     if ret \<noteq> H2_OK then Some (ret, conn)
     else (case h2_connection_find_stream conn (fh_stream_id header) of
         Ptr i \<Rightarrow> do {
           s \<leftarrow> rd (c_streams conn) i;
           s \<leftarrow> deref (h2_stream_close (Ptr s));
           Some (H2_OK, set_stream conn i s)
         }
       | NULL \<Rightarrow>
           if fh_stream_id header AND 1 = 0 then Some (H2_PROTOCOL_ERROR, conn)
           else if fh_stream_id header > c_last_stream_id conn then Some (H2_PROTOCOL_ERROR, conn)
           else Some (H2_OK, conn))
   }"

definition h2_connection_process_ping ::
  "h2_connection \<Rightarrow> h2_frame_header \<Rightarrow> byte list \<Rightarrow> conn_result" where
  "h2_connection_process_ping conn header payload = do {
     (ret, opaque) \<leftarrow> h2_frame_parse_ping (Ptr header) (Ptr payload) (Ptr (local_array 8));
     if ret \<noteq> H2_OK \<or> fh_flags header AND H2_FLAG_ACK \<noteq> 0 then Some (ret, conn)
     else do {
       (wire_len, wire) \<leftarrow> h2_frame_encode_ping (Ptr (local_array (H2_FRAME_HEADER_LEN + 8)))
                            (H2_FRAME_HEADER_LEN + 8) H2_FLAG_ACK opaque;
       if wire_len = 0 then Some (H2_INTERNAL_ERROR, conn)
       else h2_connection_queue_bytes conn wire wire_len
     }
   }"

definition h2_connection_process_frame ::
  "h2_connection \<Rightarrow> h2_frame_header \<Rightarrow> byte list \<Rightarrow> conn_result" where
  "h2_connection_process_frame conn header payload =
     (if fh_length header > c_max_frame_size conn then Some (H2_FRAME_SIZE_ERROR, conn)
      else if c_header_block_open conn \<and>
              (fh_type header \<noteq> H2_FRAME_CONTINUATION \<or> fh_stream_id header \<noteq> c_header_block_stream_id conn)
      then Some (H2_PROTOCOL_ERROR, conn)
      else if fh_type header = H2_FRAME_DATA then h2_connection_process_data conn header payload
      else if fh_type header = H2_FRAME_HEADERS then h2_connection_process_headers conn header payload
      else if fh_type header = H2_FRAME_PRIORITY then h2_connection_process_priority conn header payload
      else if fh_type header = H2_FRAME_RST_STREAM then h2_connection_process_rst_stream conn header payload
      else if fh_type header = H2_FRAME_SETTINGS then h2_connection_apply_settings conn header payload
      else if fh_type header = H2_FRAME_PUSH_PROMISE then Some (H2_PROTOCOL_ERROR, conn)
      else if fh_type header = H2_FRAME_PING then h2_connection_process_ping conn header payload
      else if fh_type header = H2_FRAME_GOAWAY then Some (h2_frame_validate_payload (Ptr header), conn)
      else if fh_type header = H2_FRAME_WINDOW_UPDATE then h2_connection_process_window_update conn header payload
      else if fh_type header = H2_FRAME_CONTINUATION then h2_connection_process_continuation conn header payload
      else Some (H2_OK, conn))"

subsection \<open>Feeding bytes\<close>

definition zero_connection :: h2_connection where
  "zero_connection = \<lparr>c_preface_seen = False, c_settings_sent = False, c_goaway_sent = False,
     c_goaway_error = 0, c_last_stream_id = 0, c_max_frame_size = 0, c_initial_stream_window = 0,
     c_conn_send_window = 0, c_conn_recv_window = 0, c_responses_sent = 0, c_header_block_open = False,
     c_header_block_stream_id = 0, c_header_block_flags = 0, c_header_block = [],
     c_streams = replicate H2_CONN_MAX_STREAMS zero_stream, c_input = [], c_output = [], c_output_sent = 0\<rparr>"

definition h2_connection_init :: "h2_connection \<Rightarrow> h2_connection" where
  "h2_connection_init conn =
     zero_connection\<lparr>c_max_frame_size := of_nat H2_DEFAULT_MAX_FRAME_SIZE,
                     c_initial_stream_window := H2_DEFAULT_WINDOW_SIZE,
                     c_conn_send_window := H2_DEFAULT_WINDOW_SIZE,
                     c_conn_recv_window := H2_DEFAULT_WINDOW_SIZE\<rparr>"

text \<open>One iteration of the \<open>while\<close> loop: \<open>Inl\<close> is a \<open>return\<close> or the \<open>break\<close> (which returns
  \<open>H2_OK\<close>), \<open>Inr\<close> the connection the next iteration starts with.\<close>

definition h2_connection_feed_step ::
  "h2_connection \<Rightarrow> ((h2_error_code \<times> h2_connection) + h2_connection) option" where
  "h2_connection_feed_step conn = do {
     (ret, header) \<leftarrow> h2_frame_parse_header (Ptr (c_input conn)) (length (c_input conn)) (Ptr local_frame_header);
     if ret \<noteq> H2_OK then Some (Inl (ret, conn))
     else do {
       header \<leftarrow> deref header;
       let whole_len = size_add H2_FRAME_HEADER_LEN (unat (fh_length header));
       if whole_len > length (c_input conn) then Some (Inl (H2_OK, conn))
       else do {
         (ret, conn) \<leftarrow> h2_connection_process_frame conn header (drop H2_FRAME_HEADER_LEN (c_input conn));
         if ret \<noteq> H2_OK then
           if h2_connection_is_stream_error ret \<and> fh_stream_id header \<noteq> 0 then do {
             (rst_ret, conn) \<leftarrow> h2_connection_reset_stream_error conn (fh_stream_id header) (h2_error_value ret);
             if rst_ret \<noteq> H2_OK then Some (Inl (rst_ret, conn))
             else Some (Inr (conn\<lparr>c_input := drop whole_len (c_input conn)\<rparr>))
           }
           else do {
             (_, conn) \<leftarrow> h2_connection_queue_goaway conn (h2_error_value ret);
             Some (Inl (ret, conn))
           }
         else Some (Inr (conn\<lparr>c_input := drop whole_len (c_input conn)\<rparr>))
       }
     }
   }"

text \<open>The loop ends because every iteration removes at least a frame header from the input, which is
  proved in \<open>Connection_Safety\<close>.\<close>

partial_function (option) h2_connection_feed_loop :: "h2_connection \<Rightarrow> conn_result" where
  "h2_connection_feed_loop conn =
     (if length (c_input conn) \<ge> H2_FRAME_HEADER_LEN then do {
        r \<leftarrow> h2_connection_feed_step conn;
        (case r of
           Inl result \<Rightarrow> Some result
         | Inr conn \<Rightarrow> h2_connection_feed_loop conn)
      }
      else Some (H2_OK, conn))"

text \<open>The client preface: \<open>Inl\<close> is a \<open>return\<close>, \<open>Inr\<close> goes on to the loop.\<close>

definition h2_connection_feed_preface ::
  "h2_connection \<Rightarrow> ((h2_error_code \<times> h2_connection) + h2_connection) option" where
  "h2_connection_feed_preface conn =
     (if c_preface_seen conn then Some (Inr conn)
      else if length (c_input conn) < H2_CLIENT_PREFACE_LEN then Some (Inl (H2_OK, conn))
      else do {
        start \<leftarrow> rd_block (c_input conn) H2_CLIENT_PREFACE_LEN;
        if start \<noteq> H2_CLIENT_PREFACE then do {
          (_, conn) \<leftarrow> h2_connection_queue_goaway conn (h2_error_value H2_PROTOCOL_ERROR);
          Some (Inl (H2_PROTOCOL_ERROR, conn))
        }
        else do {
          let conn = conn\<lparr>c_input := drop H2_CLIENT_PREFACE_LEN (c_input conn), c_preface_seen := True\<rparr>;
          if \<not> c_settings_sent conn then do {
            (ret, conn) \<leftarrow> h2_connection_queue_settings conn;
            if ret \<noteq> H2_OK then Some (Inl (ret, conn))
            else Some (Inr (conn\<lparr>c_settings_sent := True\<rparr>))
          }
          else Some (Inr conn)
        }
      })"

definition h2_connection_feed ::
  "h2_connection ptr \<Rightarrow> byte list ptr \<Rightarrow> nat \<Rightarrow> (h2_error_code \<times> h2_connection ptr) option" where
  "h2_connection_feed conn data data_len =
     (case conn of
        NULL \<Rightarrow> Some (H2_INTERNAL_ERROR, conn)
      | Ptr c \<Rightarrow>
          if data = NULL \<and> data_len > 0 then Some (H2_INTERNAL_ERROR, conn)
          else if data_len > size_sub H2_CONN_INPUT_CAP (length (c_input c)) then Some (H2_INTERNAL_ERROR, conn)
          else do {
            c \<leftarrow> (if data_len > 0 then do {
                    d \<leftarrow> deref data;
                    bytes \<leftarrow> rd_block d data_len;
                    input \<leftarrow> append_within H2_CONN_INPUT_CAP (c_input c) bytes;
                    Some (c\<lparr>c_input := input\<rparr>)
                  }
                  else Some c);
            r \<leftarrow> h2_connection_feed_preface c;
            (ret, c) \<leftarrow> (case r of Inl result \<Rightarrow> Some result | Inr c \<Rightarrow> h2_connection_feed_loop c);
            Some (ret, Ptr c)
          })"

subsection \<open>Draining the output\<close>

definition h2_connection_wants_write :: "h2_connection ptr \<Rightarrow> bool" where
  "h2_connection_wants_write conn =
     (case conn of NULL \<Rightarrow> False | Ptr c \<Rightarrow> c_output_sent c < length (c_output c))"

definition h2_connection_output :: "h2_connection ptr \<Rightarrow> byte list ptr" where
  "h2_connection_output conn =
     (case conn of
        NULL \<Rightarrow> NULL
      | Ptr c \<Rightarrow> if c_output_sent c \<ge> length (c_output c) then NULL
                 else Ptr (drop (c_output_sent c) (c_output c)))"

definition h2_connection_output_len :: "h2_connection ptr \<Rightarrow> nat" where
  "h2_connection_output_len conn =
     (case conn of
        NULL \<Rightarrow> 0
      | Ptr c \<Rightarrow> if c_output_sent c \<ge> length (c_output c) then 0
                 else size_sub (length (c_output c)) (c_output_sent c))"

definition h2_connection_consume_output :: "h2_connection ptr \<Rightarrow> nat \<Rightarrow> h2_connection ptr" where
  "h2_connection_consume_output conn sent_len =
     (case conn of
        NULL \<Rightarrow> NULL
      | Ptr c \<Rightarrow>
          let available = h2_connection_output_len conn;
              sent_len = (if sent_len > available then available else sent_len)
          in Ptr (h2_connection_compact_output (c\<lparr>c_output_sent := size_add (c_output_sent c) sent_len\<rparr>)))"

end
