(* ===== verification/Io.thy ===== *)
theory Io
  imports Prelude
begin

section \<open>The event interface\<close>

text \<open>
  \<open>include/http2/io.h\<close>: the interface between the server and its three event backends, and the
  vocabulary of system calls that the server and the backends share. The operating system is a
  parameter: a value of a type \<open>'w\<close> is the state of the system outside the program, and every system
  call is a function of it, given by a record of functions. A failed call carries its \<open>errno\<close>. Every
  function of the interface takes the \<open>h2_io\<close> object, here of a type \<open>'i\<close> chosen by the backend, and
  returns it updated; \<open>None\<close> is undefined behaviour or a call that does not return.
\<close>

subsection \<open>Results of system calls\<close>

datatype errno = EAGAIN | EWOULDBLOCK | EINTR | EINVAL | EMFILE | ENOENT | ETIME | ETIMEDOUT | ECONNABORTED | EPIPE
  | ECONNRESET | Eother nat

datatype 'a sys = Failed errno | Done 'a

fun sys_ok :: "'a sys \<Rightarrow> bool" where
  "sys_ok (Failed e) = False"
| "sys_ok (Done x) = True"

text \<open>The status a wrapper returns: \<open>0\<close> or \<open>-1\<close>.\<close>

definition status :: "'a sys \<Rightarrow> int" where
  "status r = (if sys_ok r then 0 else - 1)"

lemma status_simps [simp]: "status (Failed e) = - 1" "status (Done x) = 0"
  by (simp_all add: status_def)

lemma status_cases: "status r = 0 \<or> status r = - 1"
  by (cases r) simp_all

subsection \<open>Events and operations\<close>

record h2_event =
  ev_fd :: int
  ev_readable :: bool
  ev_writable :: bool
  ev_closed :: bool

text \<open>The functions declared in \<open>io.h\<close>. \<open>h2_io_wait\<close> returns its count and the events it stored.\<close>

record ('i, 'w) h2_io_ops =
  io_init :: "'w \<Rightarrow> (int \<times> 'i \<times> 'w) option"
  io_add_listener :: "'i \<Rightarrow> int \<Rightarrow> 'w \<Rightarrow> (int \<times> 'i \<times> 'w) option"
  io_add_connection :: "'i \<Rightarrow> int \<Rightarrow> 'w \<Rightarrow> (int \<times> 'i \<times> 'w) option"
  io_mod_connection :: "'i \<Rightarrow> int \<Rightarrow> bool \<Rightarrow> 'w \<Rightarrow> (int \<times> 'i \<times> 'w) option"
  io_remove :: "'i \<Rightarrow> int \<Rightarrow> 'w \<Rightarrow> (int \<times> 'i \<times> 'w) option"
  io_wait :: "'i \<Rightarrow> nat \<Rightarrow> int \<Rightarrow> 'w \<Rightarrow> (int \<times> h2_event list \<times> 'i \<times> 'w) option"
  io_close :: "'i \<Rightarrow> 'w \<Rightarrow> ('i \<times> 'w) option"

subsection \<open>What the server may rely on\<close>

text \<open>A step that is defined and stays related to its start: \<open>runs same ok w r\<close>.\<close>

definition runs :: "('w \<Rightarrow> 'w \<Rightarrow> bool) \<Rightarrow> ('i \<Rightarrow> bool) \<Rightarrow> 'w \<Rightarrow> (int \<times> 'i \<times> 'w) option \<Rightarrow> bool" where
  "runs same ok w r \<longleftrightarrow> (\<exists>ret i w'. r = Some (ret, i, w') \<and> ok i \<and> same w w')"

lemma runsI: "r = Some (ret, i, w') \<Longrightarrow> ok i \<Longrightarrow> same w w' \<Longrightarrow> runs same ok w r"
  by (auto simp: runs_def)

lemma runsE:
  assumes "runs same ok w r"
  obtains ret i w' where "r = Some (ret, i, w')" "ok i" "same w w'"
  using assms by (auto simp: runs_def)

text \<open>The result of a backend that changes no field of its object.\<close>

definition with_io :: "'i \<Rightarrow> int \<times> 'w \<Rightarrow> (int \<times> 'i \<times> 'w) option" where
  "with_io i r = (case r of (ret, w) \<Rightarrow> Some (ret, i, w))"

lemma with_io_runs: "same w (snd r) \<Longrightarrow> runs same (\<lambda>i. True) w (with_io i r)"
  by (cases r) (simp add: with_io_def runs_def)

text \<open>A relation that every system call of a backend keeps: what the rest of the server sees of the
  system, for instance which descriptors are open.\<close>

definition frame_relation :: "('w \<Rightarrow> 'w \<Rightarrow> bool) \<Rightarrow> bool" where
  "frame_relation same \<longleftrightarrow> reflp same \<and> transp same"

lemma frame_refl: "frame_relation same \<Longrightarrow> same w w"
  by (auto simp: frame_relation_def reflp_def)

lemma frame_trans: "frame_relation same \<Longrightarrow> same u v \<Longrightarrow> same v w \<Longrightarrow> same u w"
  by (auto simp: frame_relation_def transp_def)

text \<open>The contract of a backend. \<open>ready k same\<close> is what the backend assumes of the system calls
  \<open>k\<close> it uses. Then every operation is defined, returns, keeps the backend's own invariant \<open>ok\<close> and
  the relation \<open>same\<close>, and \<open>h2_io_wait\<close> stores as many events as it reports and no more than
  the caller has room for.\<close>

locale io_backend =
  fixes ops :: "'k \<Rightarrow> ('i, 'w) h2_io_ops"
    and ready :: "'k \<Rightarrow> ('w \<Rightarrow> 'w \<Rightarrow> bool) \<Rightarrow> bool"
    and ok :: "'i \<Rightarrow> bool"
  assumes frame: "ready k same \<Longrightarrow> frame_relation same"
    and add_listener: "ready k same \<Longrightarrow> ok i \<Longrightarrow> runs same ok w (io_add_listener (ops k) i fd w)"
    and add_connection: "ready k same \<Longrightarrow> ok i \<Longrightarrow> runs same ok w (io_add_connection (ops k) i fd w)"
    and mod_connection: "ready k same \<Longrightarrow> ok i \<Longrightarrow> runs same ok w (io_mod_connection (ops k) i fd b w)"
    and remove: "ready k same \<Longrightarrow> ok i \<Longrightarrow> runs same ok w (io_remove (ops k) i fd w)"
    and wait: "ready k same \<Longrightarrow> ok i \<Longrightarrow> 0 < cap \<Longrightarrow>
      \<exists>ret evs i' w'. io_wait (ops k) i cap t w = Some (ret, evs, i', w') \<and> ok i' \<and> same w w' \<and>
        length evs \<le> cap \<and> (ret < 0 \<or> ret = int (length evs))"

end
