(* ===== verification/Server.thy ===== *)
theory Server
  imports Connection_Feed Io
begin

section \<open>The server\<close>

text \<open>
  \<open>include/http2/server.h\<close> and \<open>src/server.c\<close>: the listening socket, the table of clients and the event
  loop that moves bytes between sockets and connections. The system calls are the fields of a record
  \<open>h2_os\<close> and the event backend a record \<open>h2_io_ops\<close>; both act on the state \<open>'w\<close> of the system. The
  local variables of \<open>h2_server_run\<close> that live across iterations are the record \<open>h2_server\<close>.
  A pointer into the client table is an index. Not modelled: what is written to \<open>stderr\<close>, the
  value of \<open>errno\<close> left behind, \<open>signal\<close> and \<open>free\<close>.
\<close>

subsection \<open>System calls\<close>

record 'w h2_os =
  os_nonblock :: int
  os_calloc :: "'w \<Rightarrow> bool \<times> 'w"
  os_socket :: "'w \<Rightarrow> int sys \<times> 'w"
  os_setsockopt :: "int \<Rightarrow> 'w \<Rightarrow> unit sys \<times> 'w"
  os_getfl :: "int \<Rightarrow> 'w \<Rightarrow> int sys \<times> 'w"
  os_setfl :: "int \<Rightarrow> int \<Rightarrow> 'w \<Rightarrow> unit sys \<times> 'w"
  os_inet_pton :: "byte list \<Rightarrow> u32 option"
  os_bind :: "int \<Rightarrow> u32 \<Rightarrow> u16 \<Rightarrow> 'w \<Rightarrow> unit sys \<times> 'w"
  os_listen :: "int \<Rightarrow> int \<Rightarrow> 'w \<Rightarrow> unit sys \<times> 'w"
  os_getsockname :: "int \<Rightarrow> 'w \<Rightarrow> u16 sys \<times> 'w"
  os_accept :: "int \<Rightarrow> 'w \<Rightarrow> int sys \<times> 'w"
  os_read :: "int \<Rightarrow> nat \<Rightarrow> 'w \<Rightarrow> byte list sys \<times> 'w"
  os_write :: "int \<Rightarrow> byte list \<Rightarrow> 'w \<Rightarrow> nat sys \<times> 'w"
  os_close :: "int \<Rightarrow> 'w \<Rightarrow> 'w"
  os_fopen :: "byte list \<Rightarrow> 'w \<Rightarrow> int option \<times> 'w"
  os_fprintf :: "int \<Rightarrow> u16 \<Rightarrow> 'w \<Rightarrow> 'w"
  os_fclose :: "int \<Rightarrow> 'w \<Rightarrow> bool \<times> 'w"

subsection \<open>Configuration, clients and state\<close>

definition H2_SERVER_MAX_CLIENTS :: nat where
  "H2_SERVER_MAX_CLIENTS = 128"

record h2_server_config =
  cfg_host :: "byte list ptr"
  cfg_port :: u16
  cfg_ready_file :: "byte list ptr"
  cfg_max_connections :: u32

record h2_client =
  cl_fd :: int
  cl_used :: bool
  cl_conn :: h2_connection

record ('i, 'w) h2_server =
  sv_clients :: "h2_client list"
  sv_io :: 'i
  sv_accepted :: u32
  sv_exit :: int
  sv_world :: 'w

text \<open>The slot after \<open>memset\<close> or \<open>calloc\<close>.\<close>

definition zero_client :: h2_client where
  "zero_client = \<lparr>cl_fd = 0, cl_used = False, cl_conn = zero_connection\<rparr>"

subsection \<open>The listening socket\<close>

definition h2_set_nonblock :: "'w h2_os \<Rightarrow> int \<Rightarrow> 'w \<Rightarrow> int \<times> 'w" where
  "h2_set_nonblock os fd w =
     (case os_getfl os fd w of
        (Failed e, w) \<Rightarrow> (- 1, w)
      | (Done flags, w) \<Rightarrow>
          (case os_setfl os fd (or flags (os_nonblock os)) w of (r, w) \<Rightarrow> (status r, w)))"

definition h2_create_listener :: "'w h2_os \<Rightarrow> h2_server_config \<Rightarrow> 'w \<Rightarrow> (int \<times> u16 \<times> 'w) option" where
  "h2_create_listener os config w =
     (case os_socket os w of
        (Failed e, w) \<Rightarrow> Some (- 1, 0, w)
      | (Done fd, w) \<Rightarrow>
          (case os_setsockopt os fd w of (_, w) \<Rightarrow>
          (case h2_set_nonblock os fd w of (ret, w) \<Rightarrow>
             if ret \<noteq> 0 then Some (- 1, 0, os_close os fd w)
             else do {
               host \<leftarrow> deref (cfg_host config);
               (case os_inet_pton os host of
                  None \<Rightarrow> Some (- 1, 0, os_close os fd w)
                | Some ip \<Rightarrow>
                    (case os_bind os fd ip (cfg_port config) w of
                       (Failed e, w) \<Rightarrow> Some (- 1, 0, os_close os fd w)
                     | (Done _, w) \<Rightarrow>
                         (case os_listen os fd 128 w of
                            (Failed e, w) \<Rightarrow> Some (- 1, 0, os_close os fd w)
                          | (Done _, w) \<Rightarrow>
                              (case os_getsockname os fd w of
                                 (Failed e, w) \<Rightarrow> Some (- 1, 0, os_close os fd w)
                               | (Done port, w) \<Rightarrow> Some (fd, port, w)))))
             })))"

definition h2_write_ready_file :: "'w h2_os \<Rightarrow> byte list ptr \<Rightarrow> u16 \<Rightarrow> 'w \<Rightarrow> int \<times> 'w" where
  "h2_write_ready_file os path port w =
     (case path of
        NULL \<Rightarrow> (0, w)
      | Ptr p \<Rightarrow>
          (case os_fopen os p w of
             (None, w) \<Rightarrow> (- 1, w)
           | (Some file, w) \<Rightarrow>
               (case os_fclose os file (os_fprintf os file port w) of
                  (closed, w) \<Rightarrow> (if closed then 0 else - 1, w))))"

subsection \<open>The client table\<close>

definition h2_find_client :: "h2_client list \<Rightarrow> int \<Rightarrow> nat ptr" where
  "h2_find_client clients fd = scan (\<lambda>c. cl_used c \<and> cl_fd c = fd) clients 0"

definition h2_alloc_client :: "h2_client list \<Rightarrow> int \<Rightarrow> nat ptr \<times> h2_client list" where
  "h2_alloc_client clients fd =
     (case scan (\<lambda>c. \<not> cl_used c) clients 0 of
        NULL \<Rightarrow> (NULL, clients)
      | Ptr pos \<Rightarrow>
          (Ptr pos, clients[pos := \<lparr>cl_fd = fd, cl_used = True,
                                    cl_conn = h2_connection_init (cl_conn (clients ! pos))\<rparr>]))"

fun h2_active_client_count :: "h2_client list \<Rightarrow> nat" where
  "h2_active_client_count [] = 0"
| "h2_active_client_count (c # cs) = (if cl_used c then Suc (h2_active_client_count cs) else h2_active_client_count cs)"

definition h2_close_client ::
  "'w h2_os \<Rightarrow> ('i, 'w) h2_io_ops \<Rightarrow> nat ptr \<Rightarrow> ('i, 'w) h2_server \<Rightarrow> ('i, 'w) h2_server option" where
  "h2_close_client os io client sv =
     (case client of
        NULL \<Rightarrow> Some sv
      | Ptr pos \<Rightarrow> do {
          c \<leftarrow> rd (sv_clients sv) pos;
          if \<not> cl_used c then Some sv
          else do {
            (_, i, w) \<leftarrow> io_remove io (sv_io sv) (cl_fd c) (sv_world sv);
            Some (sv\<lparr>sv_io := i, sv_world := os_close os (cl_fd c) w,
                     sv_clients := (sv_clients sv)[pos := zero_client\<lparr>cl_fd := - 1\<rparr>]\<rparr>)
          }
        })"

subsection \<open>Moving bytes\<close>

partial_function (option) h2_flush_client ::
  "'w h2_os \<Rightarrow> h2_client \<Rightarrow> 'w \<Rightarrow> (int \<times> h2_client \<times> 'w) option" where
  "h2_flush_client os client w =
     (if h2_connection_wants_write (Ptr (cl_conn client)) then do {
        data \<leftarrow> deref (h2_connection_output (Ptr (cl_conn client)));
        bytes \<leftarrow> rd_block data (h2_connection_output_len (Ptr (cl_conn client)));
        (case os_write os (cl_fd client) bytes w of
           (Failed e, w) \<Rightarrow>
             if e = EAGAIN \<or> e = EWOULDBLOCK \<or> e = EINTR then Some (0, client, w) else Some (- 1, client, w)
         | (Done written, w) \<Rightarrow>
             if written = 0 then Some (0, client, w)
             else do {
               conn \<leftarrow> deref (h2_connection_consume_output (Ptr (cl_conn client)) written);
               h2_flush_client os (client\<lparr>cl_conn := conn\<rparr>) w
             })
      }
      else Some (0, client, w))"

text \<open>The loop body of \<open>h2_read_client\<close>: \<open>Inl\<close> is a \<open>return\<close>, \<open>Inr\<close> the next iteration. The buffer has
  8192 bytes, of which \<open>read\<close> fills the first \<open>got\<close>.\<close>

definition h2_read_client_step ::
  "'w h2_os \<Rightarrow> h2_client \<Rightarrow> 'w \<Rightarrow> ((int \<times> h2_client \<times> 'w) + (h2_client \<times> 'w)) option" where
  "h2_read_client_step os client w =
     (case os_read os (cl_fd client) 8192 w of
        (Failed e, w) \<Rightarrow>
          if e = EAGAIN \<or> e = EWOULDBLOCK then Some (Inl (0, client, w))
          else if e = EINTR then Some (Inr (client, w))
          else Some (Inl (- 1, client, w))
      | (Done got, w) \<Rightarrow>
          if got = [] then Some (Inl (1, client, w))
          else do {
            buffer \<leftarrow> append_within 8192 [] got;
            (ret, conn) \<leftarrow> h2_connection_feed (Ptr (cl_conn client)) (Ptr buffer) (length got);
            conn \<leftarrow> deref conn;
            let client = client\<lparr>cl_conn := conn\<rparr>;
            if ret \<noteq> H2_OK \<and> \<not> h2_connection_wants_write (Ptr conn) then Some (Inl (- 1, client, w))
            else Some (Inr (client, w))
          })"

partial_function (option) h2_read_client ::
  "'w h2_os \<Rightarrow> h2_client \<Rightarrow> 'w \<Rightarrow> (int \<times> h2_client \<times> 'w) option" where
  "h2_read_client os client w = do {
     r \<leftarrow> h2_read_client_step os client w;
     (case r of
        Inl result \<Rightarrow> Some result
      | Inr (client, w) \<Rightarrow> h2_read_client os client w)
   }"

subsection \<open>Accepting\<close>

definition h2_accept_clients_step ::
  "'w h2_os \<Rightarrow> ('i, 'w) h2_io_ops \<Rightarrow> int \<Rightarrow> ('i, 'w) h2_server \<Rightarrow>
     ((int \<times> ('i, 'w) h2_server) + ('i, 'w) h2_server) option" where
  "h2_accept_clients_step os io listener_fd sv =
     (case os_accept os listener_fd (sv_world sv) of
        (Failed e, w) \<Rightarrow>
          let sv = sv\<lparr>sv_world := w\<rparr> in
          if e = EAGAIN \<or> e = EWOULDBLOCK then Some (Inl (0, sv))
          else if e = EINTR then Some (Inr sv)
          else Some (Inl (- 1, sv))
      | (Done fd, w) \<Rightarrow>
          (case h2_set_nonblock os fd w of (ret, w) \<Rightarrow>
             if ret \<noteq> 0 then Some (Inr (sv\<lparr>sv_world := os_close os fd w\<rparr>))
             else
               (case h2_alloc_client (sv_clients sv) fd of
                  (NULL, clients) \<Rightarrow> Some (Inr (sv\<lparr>sv_world := os_close os fd w\<rparr>))
                | (Ptr client, clients) \<Rightarrow> do {
                    (ret, i, w) \<leftarrow> io_add_connection io (sv_io sv) fd w;
                    let sv = sv\<lparr>sv_clients := clients, sv_io := i, sv_world := w\<rparr>;
                    if ret \<noteq> 0 then do {
                      sv \<leftarrow> h2_close_client os io (Ptr client) sv;
                      Some (Inr sv)
                    }
                    else Some (Inr (sv\<lparr>sv_accepted := sv_accepted sv + 1\<rparr>))
                  })))"

partial_function (option) h2_accept_clients ::
  "'w h2_os \<Rightarrow> ('i, 'w) h2_io_ops \<Rightarrow> int \<Rightarrow> ('i, 'w) h2_server \<Rightarrow> (int \<times> ('i, 'w) h2_server) option" where
  "h2_accept_clients os io listener_fd sv = do {
     r \<leftarrow> h2_accept_clients_step os io listener_fd sv;
     (case r of
        Inl result \<Rightarrow> Some result
      | Inr sv \<Rightarrow> h2_accept_clients os io listener_fd sv)
   }"

subsection \<open>The event loop\<close>

text \<open>The body of the loop over the events, for the event of a client.\<close>

definition h2_server_client_event ::
  "'w h2_os \<Rightarrow> ('i, 'w) h2_io_ops \<Rightarrow> h2_event \<Rightarrow> nat \<Rightarrow> ('i, 'w) h2_server \<Rightarrow> ('i, 'w) h2_server option" where
  "h2_server_client_event os io event pos sv = do {
     client \<leftarrow> rd (sv_clients sv) pos;
     (close_after, client, w) \<leftarrow>
       (if ev_readable event then do {
          (read_result, client, w) \<leftarrow> h2_read_client os client (sv_world sv);
          Some (read_result < 0 \<or> read_result > 0, client, w)
        }
        else Some (False, client, sv_world sv));
     let close_after = (close_after \<or> ev_closed event);
     (close_after, client, w) \<leftarrow>
       (if h2_connection_wants_write (Ptr (cl_conn client)) then do {
          (ret, client, w) \<leftarrow> h2_flush_client os client w;
          Some (close_after \<or> ret \<noteq> 0, client, w)
        }
        else Some (close_after, client, w));
     let sv = sv\<lparr>sv_clients := (sv_clients sv)[pos := client], sv_world := w\<rparr>;
     if close_after \<and> \<not> h2_connection_wants_write (Ptr (cl_conn client))
     then h2_close_client os io (Ptr pos) sv
     else if \<not> close_after then do {
       (_, i, w) \<leftarrow> io_mod_connection io (sv_io sv) (cl_fd client)
                      (h2_connection_wants_write (Ptr (cl_conn client))) (sv_world sv);
       Some (sv\<lparr>sv_io := i, sv_world := w\<rparr>)
     }
     else Some sv
   }"

definition h2_server_event ::
  "'w h2_os \<Rightarrow> ('i, 'w) h2_io_ops \<Rightarrow> int \<Rightarrow> h2_event \<Rightarrow> ('i, 'w) h2_server \<Rightarrow> ('i, 'w) h2_server option" where
  "h2_server_event os io listener_fd event sv =
     (if ev_fd event = listener_fd then
        (if ev_readable event then do {
           (ret, sv) \<leftarrow> h2_accept_clients os io listener_fd sv;
           Some (if ret \<noteq> 0 then sv\<lparr>sv_exit := - 1\<rparr> else sv)
         }
         else Some sv)
      else
        (case h2_find_client (sv_clients sv) (ev_fd event) of
           NULL \<Rightarrow> Some sv
         | Ptr pos \<Rightarrow> h2_server_client_event os io event pos sv))"

fun h2_server_events ::
  "'w h2_os \<Rightarrow> ('i, 'w) h2_io_ops \<Rightarrow> int \<Rightarrow> h2_event list \<Rightarrow> ('i, 'w) h2_server \<Rightarrow> ('i, 'w) h2_server option" where
  "h2_server_events os io listener_fd [] sv = Some sv"
| "h2_server_events os io listener_fd (event # events) sv = do {
     sv \<leftarrow> h2_server_event os io listener_fd event sv;
     h2_server_events os io listener_fd events sv
   }"

text \<open>One iteration of the \<open>for (;;)\<close> loop: \<open>Inl\<close> is a \<open>break\<close>, \<open>Inr\<close> the next iteration. The array
  \<open>events\<close> has 64 elements.\<close>

definition h2_server_step ::
  "'w h2_os \<Rightarrow> ('i, 'w) h2_io_ops \<Rightarrow> h2_server_config \<Rightarrow> int \<Rightarrow> ('i, 'w) h2_server \<Rightarrow>
     (('i, 'w) h2_server + ('i, 'w) h2_server) option" where
  "h2_server_step os io config listener_fd sv =
     (if cfg_max_connections config > 0 \<and> sv_accepted sv \<ge> cfg_max_connections config \<and>
         h2_active_client_count (sv_clients sv) = 0
      then Some (Inl sv)
      else do {
        (count, events, i, w) \<leftarrow> io_wait io (sv_io sv) 64 (- 1) (sv_world sv);
        let sv = sv\<lparr>sv_io := i, sv_world := w\<rparr>;
        if count < 0 then Some (Inl (sv\<lparr>sv_exit := - 1\<rparr>))
        else do {
          events \<leftarrow> rd_block events (nat count);
          sv \<leftarrow> h2_server_events os io listener_fd events sv;
          Some (if sv_exit sv \<noteq> 0 then Inl sv else Inr sv)
        }
      })"

partial_function (option) h2_server_loop ::
  "'w h2_os \<Rightarrow> ('i, 'w) h2_io_ops \<Rightarrow> h2_server_config \<Rightarrow> int \<Rightarrow> ('i, 'w) h2_server \<Rightarrow> ('i, 'w) h2_server option" where
  "h2_server_loop os io config listener_fd sv = do {
     r \<leftarrow> h2_server_step os io config listener_fd sv;
     (case r of
        Inl sv \<Rightarrow> Some sv
      | Inr sv \<Rightarrow> h2_server_loop os io config listener_fd sv)
   }"

fun h2_server_close_clients ::
  "'w h2_os \<Rightarrow> ('i, 'w) h2_io_ops \<Rightarrow> nat list \<Rightarrow> ('i, 'w) h2_server \<Rightarrow> ('i, 'w) h2_server option" where
  "h2_server_close_clients os io [] sv = Some sv"
| "h2_server_close_clients os io (pos # ps) sv = do {
     client \<leftarrow> rd (sv_clients sv) pos;
     sv \<leftarrow> (if cl_used client then h2_close_client os io (Ptr pos) sv else Some sv);
     h2_server_close_clients os io ps sv
   }"

definition h2_server_run ::
  "'w h2_os \<Rightarrow> ('i, 'w) h2_io_ops \<Rightarrow> h2_server_config ptr \<Rightarrow> 'w \<Rightarrow> (int \<times> 'w) option" where
  "h2_server_run os io config w =
     (case config of
        NULL \<Rightarrow> Some (- 1, w)
      | Ptr config \<Rightarrow>
          if cfg_host config = NULL then Some (- 1, w)
          else
            (case os_calloc os w of (allocated, w) \<Rightarrow>
              if \<not> allocated then Some (- 1, w)
              else do {
                (listener_fd, bound_port, w) \<leftarrow> h2_create_listener os config w;
                if listener_fd < 0 then Some (- 1, w)
                else do {
                  (ret, i, w) \<leftarrow> io_init io w;
                  if ret \<noteq> 0 then Some (- 1, os_close os listener_fd w)
                  else do {
                    (ret, i, w) \<leftarrow> io_add_listener io i listener_fd w;
                    let (failed, w) = (if ret \<noteq> 0 then (True, w)
                      else (case h2_write_ready_file os (cfg_ready_file config) bound_port w of
                              (ret, w) \<Rightarrow> (ret \<noteq> 0, w)));
                    if failed then do {
                      (i, w) \<leftarrow> io_close io i w;
                      Some (- 1, os_close os listener_fd w)
                    }
                    else do {
                      sv \<leftarrow> h2_server_loop os io config listener_fd
                              \<lparr>sv_clients = replicate H2_SERVER_MAX_CLIENTS zero_client, sv_io = i,
                               sv_accepted = 0, sv_exit = 0, sv_world = w\<rparr>;
                      sv \<leftarrow> h2_server_close_clients os io [0..<H2_SERVER_MAX_CLIENTS] sv;
                      (i, w) \<leftarrow> io_close io (sv_io sv) (sv_world sv);
                      Some (sv_exit sv, os_close os listener_fd w)
                    }
                  }
                }
              }))"

end
