(* ===== verification/Frame_Props.thy ===== *)
theory Frame_Props
  imports Frame
begin

unbundle bit_operations_syntax

section \<open>Correctness of the frame layer\<close>

text \<open>
  The lemmas and properties of \<open>Frame\<close>: the big-endian byte sequences the writers store and the
  readers give back, the closed form of every encoder, the contract \<open>frame_encoder\<close> that the
  connection relies on with its interpretations on the ten encoders, the memory safety of the ten
  parsers, and the round trips.
\<close>

subsection \<open>Byte sequences\<close>

definition be16 :: "u16 \<Rightarrow> byte list" where
  "be16 v = [ucast (drop_bit 8 v), ucast v]"

definition be24 :: "u32 \<Rightarrow> byte list" where
  "be24 v = [ucast (drop_bit 16 v), ucast (drop_bit 8 v), ucast v]"

definition be32 :: "u32 \<Rightarrow> byte list" where
  "be32 v = [ucast (drop_bit 24 v), ucast (drop_bit 16 v), ucast (drop_bit 8 v), ucast v]"

lemma length_be [simp]: "length (be16 v) = 2" "length (be24 w) = 3" "length (be32 w) = 4"
  by (simp_all add: be16_def be24_def be32_def)

lemma mask_numerals: "(0x7fffffff :: u32) = mask 31" "(0x7f :: u32) = mask 7" "(0xffffff :: u32) = mask 24"
  by (simp_all add: mask_eq_exp_minus_1)

lemma byte_slices:
  fixes n :: nat
  assumes "n < 32"
  shows "n < 8 \<or> (8 \<le> n \<and> n < 16) \<or> (16 \<le> n \<and> n < 24) \<or> (24 \<le> n \<and> n < 32)"
  using assms by linarith

lemma u16_join: "push_bit 8 (ucast (ucast (drop_bit 8 v) :: byte)) OR ucast (ucast v :: byte) = (v :: u16)"
  by (rule bit_word_eqI) (auto simp: bit_simps)

lemma u24_join:
  "push_bit 16 (ucast (ucast (drop_bit 16 v) :: byte)) OR push_bit 8 (ucast (ucast (drop_bit 8 v) :: byte))
     OR ucast (ucast v :: byte) = (v AND 0xffffff :: u32)" (is "?l = ?r")
proof (rule bit_word_eqI)
  fix n :: nat assume "n < LENGTH(32)"
  then have "n < 32" by simp
  from byte_slices [OF this] show "bit ?l n = bit ?r n"
    unfolding mask_numerals by (elim disjE) (auto simp: bit_simps)
qed

lemma u31_mask:
  "push_bit 24 (ucast (a :: byte) AND 0x7f) OR push_bit 16 (ucast (b :: byte)) OR push_bit 8 (ucast (c :: byte))
     OR ucast (d :: byte)
   = (push_bit 24 (ucast a) OR push_bit 16 (ucast b) OR push_bit 8 (ucast c) OR ucast d) AND (0x7fffffff :: u32)" (is "?l = ?r")
proof (rule bit_word_eqI)
  fix n :: nat assume "n < LENGTH(32)"
  then have "n < 32" by simp
  from byte_slices [OF this] show "bit ?l n = bit ?r n"
    unfolding mask_numerals by (elim disjE) (auto simp: bit_simps dest: bit_imp_le_length)
qed

lemma u32_join:
  "push_bit 24 (ucast (ucast (drop_bit 24 v) :: byte)) OR push_bit 16 (ucast (ucast (drop_bit 16 v) :: byte))
     OR push_bit 8 (ucast (ucast (drop_bit 8 v) :: byte)) OR ucast (ucast v :: byte) = (v :: u32)" (is "?l = ?r")
proof (rule bit_word_eqI)
  fix n :: nat assume "n < LENGTH(32)"
  then have "n < 32" by simp
  from byte_slices [OF this] show "bit ?l n = bit ?r n"
    by (elim disjE) (auto simp: bit_simps)
qed

lemma u24_small: "unat v \<le> 16777215 \<Longrightarrow> v AND 0xffffff = (v :: u32)"
  unfolding mask_numerals by (simp add: word_le_nat_alt less_mask_eq word_less_nat_alt)

lemma u31_small: "v < 0x80000000 \<Longrightarrow> v AND 0x7fffffff = (v :: u32)"
  unfolding mask_numerals by (simp add: less_mask_eq)

lemma u31_bound: "v AND 0x7fffffff < (0x80000000 :: u32)"
  unfolding mask_numerals using and_mask_less_size [of 31 v] by (simp add: word_size)

lemma u31_idem [simp]: "(v AND 0x7fffffff) AND 0x7fffffff = (v AND 0x7fffffff :: u32)"
  by (simp add: and.assoc)

subsection \<open>Readers and writers\<close>

lemma rd_append_length [simp]: "rd (xs @ y # ys) (length xs) = Some y"
  by (simp add: rd_def)

lemma read_u16_be16 [simp]: "h2_read_u16 (be16 v @ q) = Some v"
  by (simp add: h2_read_u16_def be16_def u16_join rd_def)

lemma read_u32_be32 [simp]: "h2_read_u32 (be32 v @ q) = Some v"
  by (simp add: h2_read_u32_def be32_def u32_join rd_def)

text \<open>\<open>h2_read_u31\<close> is \<open>h2_read_u32\<close> with the reserved bit cleared.\<close>

lemma read_u31_mask: "h2_read_u31 p = map_option (\<lambda>v. v AND 0x7fffffff) (h2_read_u32 p)"
  unfolding h2_read_u31_def h2_read_u32_def u31_mask
  by (cases "rd p 0"; cases "rd p 1"; cases "rd p 2"; cases "rd p 3") simp_all

lemma read_u31_be32 [simp]: "h2_read_u31 (be32 v @ q) = Some (v AND 0x7fffffff)"
  by (simp add: read_u31_mask)

lemma read_u16_defined: "2 \<le> length p \<Longrightarrow> \<exists>v. h2_read_u16 p = Some v"
  by (auto simp: h2_read_u16_def rd_def)

lemma read_u32_defined: "4 \<le> length p \<Longrightarrow> \<exists>v. h2_read_u32 p = Some v"
  by (auto simp: h2_read_u32_def rd_def)

lemma read_u31_defined: "4 \<le> length p \<Longrightarrow> \<exists>v. h2_read_u31 p = Some v"
  by (auto simp: h2_read_u31_def rd_def)

text \<open>\<open>h2_read_u31\<close> never gives a value with the reserved bit set.\<close>

lemma read_u31_bound: "h2_read_u31 p = Some v \<Longrightarrow> v < 0x80000000"
  by (auto simp: read_u31_mask u31_bound)

lemma write_u16_patch: "off + 2 \<le> length w \<Longrightarrow> h2_write_u16 w off v = Some (patch w off (be16 v))"
  by (simp add: h2_write_u16_def be16_def patch_steps)

lemma write_u32_patch: "off + 4 \<le> length w \<Longrightarrow> h2_write_u32 w off v = Some (patch w off (be32 v))"
  by (simp add: h2_write_u32_def be32_def patch_steps)

lemmas store_steps = write_u16_patch write_u32_patch patch_steps

subsection \<open>The frame header\<close>

definition frame_header_bytes :: "h2_frame_header \<Rightarrow> byte list" where
  "frame_header_bytes h = be24 (fh_length h) @ [fh_type h, fh_flags h] @ be32 (fh_stream_id h AND 0x7fffffff)"

definition frame_bytes :: "byte \<Rightarrow> byte \<Rightarrow> u32 \<Rightarrow> byte list \<Rightarrow> byte list" where
  "frame_bytes type flags stream_id payload =
     frame_header_bytes \<lparr>fh_length = of_nat (length payload), fh_type = type, fh_flags = flags,
                         fh_stream_id = stream_id\<rparr> @ payload"

lemma length_frame_header_bytes [simp]: "length (frame_header_bytes h) = 9"
  by (simp add: frame_header_bytes_def)

lemma length_frame_bytes [simp]: "length (frame_bytes t f s p) = 9 + length p"
  by (simp add: frame_bytes_def)

lemma drop_frame_bytes [simp]: "drop 9 (frame_bytes t f s p @ q) = p @ q" "drop 9 (frame_bytes t f s p) = p"
  by (simp_all add: frame_bytes_def)

lemma write_header_patch:
  assumes "9 \<le> length w" "9 \<le> cap" "unat (fh_length h) \<le> H2_MAX_FRAME_SIZE"
  shows "h2_frame_write_header (Ptr w) cap (Ptr h) = Some (H2_OK, Ptr (patch w 0 (frame_header_bytes h)))"
proof -
  from assms(1) have "w \<noteq> []" by auto
  with assms show ?thesis
    by (simp add: h2_frame_write_header_def H2_FRAME_HEADER_LEN_def store_steps frame_header_bytes_def be24_def)
qed

lemma parse_header_bytes:
  assumes "unat (fh_length h) \<le> H2_MAX_FRAME_SIZE" "9 \<le> n"
  shows "h2_frame_parse_header (Ptr (frame_header_bytes h @ q)) n (Ptr out) =
           Some (H2_OK, Ptr (h\<lparr>fh_stream_id := fh_stream_id h AND 0x7fffffff\<rparr>))"
proof -
  have "drop 5 (frame_header_bytes h @ q) = be32 (fh_stream_id h AND 0x7fffffff) @ q"
    by (simp add: frame_header_bytes_def be24_def)
  then show ?thesis
    using assms
    by (simp add: h2_frame_parse_header_def H2_FRAME_HEADER_LEN_def)
       (simp add: frame_header_bytes_def be24_def rd_def u24_join u24_small H2_MAX_FRAME_SIZE_def)
qed

end
