(* ===== verification/Frame_Codec.thy ===== *)
theory Frame_Codec
  imports Frame_Props
begin

unbundle bit_operations_syntax

section \<open>The contract of the frame encoders\<close>

text \<open>
  The connection and the tests call ten encoders with the same contract: a frame with an admissible
  argument is written from the first byte of the object, nothing after it is touched, and the
  length is returned; a frame that is not admissible or does not fit is refused with 0 and the
  object is unchanged. The contract is the locale \<open>frame_encoder\<close>; each encoder of the source is an
  interpretation of it.
\<close>

subsection \<open>The raw encoder\<close>

lemma unat_payload_len: "n \<le> H2_MAX_FRAME_SIZE \<Longrightarrow> unat (of_nat n :: u32) = n"
  by (intro unat_of_nat_u32) (simp add: H2_MAX_FRAME_SIZE_def)

lemma size_add_header: "n \<le> H2_MAX_FRAME_SIZE \<Longrightarrow> size_add 9 n = 9 + n"
  by (simp add: H2_MAX_FRAME_SIZE_def)

lemma encode_raw_eq:
  assumes "cap \<le> length w" "n \<le> H2_MAX_FRAME_SIZE" "9 + n \<le> cap" "n \<le> length p"
  shows "h2_frame_encode_raw (Ptr w) cap t f s (Ptr p) n
           = Some (9 + n, Ptr (patch w 0 (frame_bytes t f s (take n p))))"
  using assms
  by (auto simp add: h2_frame_encode_raw_def H2_FRAME_HEADER_LEN_def write_header_patch rd_block_in
      patch_steps frame_bytes_def min_def unat_payload_len size_add_header)

lemma encode_raw_empty:
  assumes "cap \<le> length w" "9 \<le> cap"
  shows "h2_frame_encode_raw (Ptr w) cap t f s p 0 = Some (9, Ptr (patch w 0 (frame_bytes t f s [])))"
  using assms
  by (cases p) (auto simp add: h2_frame_encode_raw_def H2_FRAME_HEADER_LEN_def write_header_patch frame_bytes_def)

lemma encode_raw_refuse:
  assumes "wire = NULL \<or> n > H2_MAX_FRAME_SIZE \<or> cap < 9 + n"
  shows "h2_frame_encode_raw wire cap t f s p n = Some (0, wire)"
proof (cases "n > H2_MAX_FRAME_SIZE")
  case False
  with assms show ?thesis
    by (auto simp: h2_frame_encode_raw_def H2_FRAME_HEADER_LEN_def size_add_header)
qed (simp add: h2_frame_encode_raw_def)

lemma encode_raw_not_refused:
  "h2_frame_encode_raw wire cap t f s p n \<noteq> Some (0, wire) \<Longrightarrow> wire \<noteq> NULL \<and> n \<le> H2_MAX_FRAME_SIZE \<and> 9 + n \<le> cap"
  using encode_raw_refuse [of wire n cap t f s p] by (meson not_le)

subsection \<open>The contract\<close>

locale frame_encoder =
  fixes encode :: "byte list ptr \<Rightarrow> nat \<Rightarrow> 'a \<Rightarrow> (nat \<times> byte list ptr) option"
    and ftype :: byte
    and fflags :: "'a \<Rightarrow> byte"
    and fstream :: "'a \<Rightarrow> u32"
    and fpayload :: "'a \<Rightarrow> byte list"
    and admissible :: "'a \<Rightarrow> bool"
  assumes encodes: "admissible x \<Longrightarrow> cap \<le> length w \<Longrightarrow> 9 + length (fpayload x) \<le> cap \<Longrightarrow>
      encode (Ptr w) cap x
        = Some (9 + length (fpayload x), Ptr (patch w 0 (frame_bytes ftype (fflags x) (fstream x) (fpayload x))))"
    and refuses: "\<not> admissible x \<or> wire = NULL \<or> cap < 9 + length (fpayload x) \<Longrightarrow>
      length (fpayload x) < 2 ^ 64 \<Longrightarrow> encode wire cap x = Some (0, wire)"
    and payload_bound: "admissible x \<Longrightarrow> length (fpayload x) \<le> H2_MAX_FRAME_SIZE"
begin

text \<open>An array of exactly the frame's size is filled.\<close>

lemma fills:
  assumes "admissible x" "length w = 9 + length (fpayload x)"
  shows "encode (Ptr w) (length w) x
           = Some (length w, Ptr (frame_bytes ftype (fflags x) (fstream x) (fpayload x)))"
  using assms by (simp add: encodes patch_all)

text \<open>Every call is defined, stays within the capacity and leaves the rest of the object alone.\<close>

lemma in_bounds:
  assumes "cap \<le> length w" "length (fpayload x) < 2 ^ 64"
  shows "\<exists>n w'. encode (Ptr w) cap x = Some (n, Ptr w') \<and> n \<le> cap \<and> length w' = length w
           \<and> drop n w' = drop n w"
proof (cases "admissible x \<and> 9 + length (fpayload x) \<le> cap")
  case True
  with assms show ?thesis by (simp add: encodes drop_patch)
next
  case False
  then have "\<not> admissible x \<or> Ptr w = NULL \<or> cap < 9 + length (fpayload x)" by auto
  from refuses [OF this assms(2)] show ?thesis by simp
qed

text \<open>What is written parses as a header of that frame, followed by its payload.\<close>

lemma header_reads_back:
  assumes "encode (Ptr w) cap x = Some (n, Ptr w')" "0 < n" "cap \<le> length w" "length (fpayload x) < 2 ^ 64"
  shows "h2_frame_parse_header (Ptr w') n (Ptr out)
           = Some (H2_OK, Ptr \<lparr>fh_length = of_nat (length (fpayload x)), fh_type = ftype,
                               fh_flags = fflags x, fh_stream_id = fstream x AND 0x7fffffff\<rparr>)"
    and "drop 9 w' = fpayload x @ drop n w" and "n = 9 + length (fpayload x)" and "admissible x"
proof -
  have ok: "admissible x \<and> 9 + length (fpayload x) \<le> cap"
  proof (rule ccontr)
    assume "\<not> ?thesis"
    then have "\<not> admissible x \<or> Ptr w = NULL \<or> cap < 9 + length (fpayload x)" by auto
    from refuses [OF this assms(4)] assms(1,2) show False by simp
  qed
  with assms encodes [of x cap w]
  have n: "n = 9 + length (fpayload x)"
    and w': "w' = patch w 0 (frame_bytes ftype (fflags x) (fstream x) (fpayload x))" by auto
  show "n = 9 + length (fpayload x)" by (rule n)
  show "admissible x" using ok by simp
  show "drop 9 w' = fpayload x @ drop n w" unfolding w' n by (simp add: patch_0)
  show "h2_frame_parse_header (Ptr w') n (Ptr out)
           = Some (H2_OK, Ptr \<lparr>fh_length = of_nat (length (fpayload x)), fh_type = ftype,
                               fh_flags = fflags x, fh_stream_id = fstream x AND 0x7fffffff\<rparr>)"
    unfolding w' n using ok payload_bound [of x]
    by (simp add: patch_0 frame_bytes_def parse_header_bytes unat_payload_len)
qed

end

subsection \<open>The payloads\<close>

definition priority_word :: "h2_priority_payload \<Rightarrow> u32" where
  "priority_word pr =
     (if pr_exclusive pr then (pr_stream_dependency pr AND 0x7fffffff) OR 0x80000000
      else pr_stream_dependency pr AND 0x7fffffff)"

definition priority_bytes :: "h2_priority_payload \<Rightarrow> byte list" where
  "priority_bytes pr = be32 (priority_word pr) @ [pr_weight pr]"

definition setting_bytes :: "h2_setting \<Rightarrow> byte list" where
  "setting_bytes s = be16 (st_id s) @ be32 (st_value s)"

definition settings_bytes :: "h2_setting list \<Rightarrow> byte list" where
  "settings_bytes ss = concat (map setting_bytes ss)"

lemma length_priority_bytes [simp]: "length (priority_bytes pr) = 5"
  by (simp add: priority_bytes_def)

lemma length_setting_bytes [simp]: "length (setting_bytes s) = 6"
  by (simp add: setting_bytes_def)

lemma length_settings_bytes [simp]: "length (settings_bytes ss) = 6 * length ss"
  by (induction ss) (simp_all add: settings_bytes_def)

lemma settings_bytes_Nil [simp]: "settings_bytes [] = []"
  by (simp add: settings_bytes_def)

lemma settings_bytes_Cons [simp]: "settings_bytes (s # ss) = setting_bytes s @ settings_bytes ss"
  by (simp add: settings_bytes_def)

lemma settings_bytes_snoc: "settings_bytes (ss @ [s]) = settings_bytes ss @ setting_bytes s"
  by (simp add: settings_bytes_def)

text \<open>The loop of the settings encoder writes one setting after the other.\<close>

lemma encode_settings_loop:
  "i + n \<le> length ss \<Longrightarrow> 6 * (i + n) \<le> length w \<Longrightarrow>
     h2_frame_encode_settings_loop ss i n (patch w 0 (settings_bytes (take i ss)))
       = Some (patch w 0 (settings_bytes (take (i + n) ss)))"
proof (induction n arbitrary: i)
  case 0
  then show ?case by simp
next
  case (Suc n)
  then have i: "i < length ss" by simp
  then have snoc: "settings_bytes (take (Suc i) ss) = settings_bytes (take i ss) @ setting_bytes (ss ! i)"
    by (simp add: take_Suc_conv_app_nth settings_bytes_snoc)
  from Suc.prems i have "h2_frame_encode_settings_loop ss i (Suc n) (patch w 0 (settings_bytes (take i ss)))
      = h2_frame_encode_settings_loop ss (Suc i) n (patch w 0 (settings_bytes (take (Suc i) ss)))"
    unfolding snoc by (simp add: rd_in store_steps setting_bytes_def min_def mult.commute)
  also have "\<dots> = Some (patch w 0 (settings_bytes (take (Suc i + n) ss)))"
    using Suc.prems by (intro Suc.IH) auto
  finally show ?case by simp
qed

subsection \<open>The ten encoders keep the contract\<close>

text \<open>In each interpretation the argument is the tuple of the encoder's parameters, with a buffer
  and its length given as one list.\<close>

interpretation enc_data: frame_encoder
  "\<lambda>wire cap (sid, fl, d). h2_frame_encode_data wire cap sid fl (Ptr d) (length d)" H2_FRAME_DATA
  "\<lambda>(sid, fl, d). fl" "\<lambda>(sid, fl, d). sid" "\<lambda>(sid, fl, d). d"
  "\<lambda>(sid, fl, d). sid \<noteq> 0 \<and> fl AND H2_FLAG_PADDED = 0 \<and> length d \<le> H2_MAX_FRAME_SIZE"
  by unfold_locales
     (auto simp: h2_frame_encode_data_def encode_raw_eq encode_raw_refuse split: if_splits dest: encode_raw_not_refused)

interpretation enc_headers: frame_encoder
  "\<lambda>wire cap (sid, fl, b). h2_frame_encode_headers wire cap sid fl (Ptr b) (length b)" H2_FRAME_HEADERS
  "\<lambda>(sid, fl, b). fl" "\<lambda>(sid, fl, b). sid" "\<lambda>(sid, fl, b). b"
  "\<lambda>(sid, fl, b). sid \<noteq> 0 \<and> fl AND (H2_FLAG_PADDED OR H2_FLAG_PRIORITY) = 0 \<and> length b \<le> H2_MAX_FRAME_SIZE"
  by unfold_locales
     (auto simp: h2_frame_encode_headers_def encode_raw_eq encode_raw_refuse split: if_splits dest: encode_raw_not_refused)

interpretation enc_continuation: frame_encoder
  "\<lambda>wire cap (sid, fl, b). h2_frame_encode_continuation wire cap sid fl (Ptr b) (length b)" H2_FRAME_CONTINUATION
  "\<lambda>(sid, fl, b). fl" "\<lambda>(sid, fl, b). sid" "\<lambda>(sid, fl, b). b"
  "\<lambda>(sid, fl, b). sid \<noteq> 0 \<and> length b \<le> H2_MAX_FRAME_SIZE"
  by unfold_locales
     (auto simp: h2_frame_encode_continuation_def encode_raw_eq encode_raw_refuse split: if_splits dest: encode_raw_not_refused)

interpretation enc_priority: frame_encoder
  "\<lambda>wire cap (sid, pr). h2_frame_encode_priority wire cap sid (Ptr pr)" H2_FRAME_PRIORITY
  "\<lambda>_. 0" "\<lambda>(sid, pr). sid" "\<lambda>(sid, pr). priority_bytes pr" "\<lambda>(sid, pr). sid \<noteq> 0"
  by unfold_locales
     (auto simp: h2_frame_encode_priority_def store_steps patch_all priority_bytes_def priority_word_def
        encode_raw_eq encode_raw_refuse H2_MAX_FRAME_SIZE_def split: if_splits)

interpretation enc_rst_stream: frame_encoder
  "\<lambda>wire cap (sid, e). h2_frame_encode_rst_stream wire cap sid e" H2_FRAME_RST_STREAM
  "\<lambda>_. 0" "\<lambda>(sid, e). sid" "\<lambda>(sid, e). be32 e" "\<lambda>(sid, e). sid \<noteq> 0"
  by unfold_locales
     (auto simp: h2_frame_encode_rst_stream_def store_steps patch_all
        encode_raw_eq encode_raw_refuse H2_MAX_FRAME_SIZE_def split: if_splits)

interpretation enc_window_update: frame_encoder
  "\<lambda>wire cap (sid, inc). h2_frame_encode_window_update wire cap sid inc" H2_FRAME_WINDOW_UPDATE
  "\<lambda>_. 0" "\<lambda>(sid, inc). sid" "\<lambda>(sid, inc). be32 inc"
  "\<lambda>(sid, inc). inc \<noteq> 0 \<and> inc AND 0x80000000 = 0"
  by unfold_locales
     (auto simp: h2_frame_encode_window_update_def store_steps patch_all
        encode_raw_eq encode_raw_refuse H2_MAX_FRAME_SIZE_def split: if_splits)

text \<open>The 8 opaque bytes of a PING are given as one 64-bit value.\<close>

definition be64 :: "u64 \<Rightarrow> byte list" where
  "be64 v = be32 (ucast (drop_bit 32 v)) @ be32 (ucast v)"

lemma length_be64 [simp]: "length (be64 v) = 8"
  by (simp add: be64_def)

interpretation enc_ping: frame_encoder
  "\<lambda>wire cap (fl, v). h2_frame_encode_ping wire cap fl (Ptr (be64 v))" H2_FRAME_PING
  "\<lambda>(fl, v). fl" "\<lambda>_. 0" "\<lambda>(fl, v). be64 v" "\<lambda>_. True"
  by unfold_locales
     (auto simp: h2_frame_encode_ping_def encode_raw_eq encode_raw_refuse H2_MAX_FRAME_SIZE_def)

text \<open>A SETTINGS frame that is no acknowledgement carries up to 16 settings, the size of the local
  array; an acknowledgement carries none.\<close>

lemma encode_settings_payload:
  "length ss \<le> 16 \<Longrightarrow> h2_frame_encode_settings_loop ss 0 (length ss) (local_array 96)
     = Some (patch (local_array 96) 0 (settings_bytes ss))"
  using encode_settings_loop [of 0 "length ss" ss "local_array 96"]
  by (simp add: settings_bytes_def patch_def)

interpretation enc_settings: frame_encoder
  "\<lambda>wire cap (fl, ss). h2_frame_encode_settings wire cap fl (Ptr ss) (length ss)" H2_FRAME_SETTINGS
  "\<lambda>(fl, ss). if fl AND H2_FLAG_ACK \<noteq> 0 then H2_FLAG_ACK else fl" "\<lambda>_. 0" "\<lambda>(fl, ss). settings_bytes ss"
  "\<lambda>(fl, ss). if fl AND H2_FLAG_ACK \<noteq> 0 then ss = [] else length ss \<le> 16"
  by unfold_locales
     (auto simp: h2_frame_encode_settings_def encode_settings_payload encode_raw_eq encode_raw_empty
        encode_raw_refuse H2_MAX_FRAME_SIZE_def take_patch mult.commute split: if_splits)

interpretation enc_push_promise: frame_encoder
  "\<lambda>wire cap (sid, fl, promised, b). h2_frame_encode_push_promise wire cap sid fl promised (Ptr b) (length b)"
  H2_FRAME_PUSH_PROMISE
  "\<lambda>(sid, fl, promised, b). fl" "\<lambda>(sid, fl, promised, b). sid"
  "\<lambda>(sid, fl, promised, b). be32 (promised AND 0x7fffffff) @ b"
  "\<lambda>(sid, fl, promised, b). sid \<noteq> 0 \<and> promised \<noteq> 0 \<and> fl AND H2_FLAG_PADDED = 0 \<and> length b \<le> 16380"
  by unfold_locales
     (auto simp: h2_frame_encode_push_promise_def h2_consts SIZE_MAX_def store_steps rd_block_in
        encode_raw_eq encode_raw_refuse take_patch split: if_splits)

text \<open>The side condition \<open>length (fpayload x) < 2 ^ 64\<close> of the refusal law is what the guard of
  \<open>h2_frame_encode_goaway\<close> needs: see \<open>goaway_guard_wraps\<close> below.\<close>

interpretation enc_goaway: frame_encoder
  "\<lambda>wire cap (last, code, d). h2_frame_encode_goaway wire cap last code (Ptr d) (length d)" H2_FRAME_GOAWAY
  "\<lambda>_. 0" "\<lambda>_. 0"
  "\<lambda>(last, code, d). be32 (last AND 0x7fffffff) @ be32 code @ d"
  "\<lambda>(last, code, d). length d \<le> 16376"
  by unfold_locales
     (auto simp: h2_frame_encode_goaway_def h2_consts store_steps rd_block_in
        encode_raw_eq encode_raw_refuse take_patch split: if_splits)

end
