(* ===== verification/Frame_Parsers.thy ===== *)
theory Frame_Parsers
  imports Frame_Codec
begin

unbundle bit_operations_syntax

section \<open>The frame parsers are safe on any payload\<close>

text \<open>
  The parsers of \<open>Frame\<close> read a payload that the peer chose. Given a payload with the \<open>fh_length\<close>
  bytes its header announces, each is defined whatever the bytes are, and the block a successful
  parser points at, the fields before it and the padding after it account for exactly those bytes.
\<close>

subsection \<open>What an accepted header guarantees\<close>

lemma validate_len:
  assumes "h2_frame_validate_payload (Ptr h) = H2_OK"
  shows "fh_type h = H2_FRAME_PRIORITY \<Longrightarrow> unat (fh_length h) = 5"
    and "fh_type h = H2_FRAME_RST_STREAM \<Longrightarrow> unat (fh_length h) = 4"
    and "fh_type h = H2_FRAME_PING \<Longrightarrow> unat (fh_length h) = 8"
    and "fh_type h = H2_FRAME_WINDOW_UPDATE \<Longrightarrow> unat (fh_length h) = 4"
    and "fh_type h = H2_FRAME_GOAWAY \<Longrightarrow> 8 \<le> unat (fh_length h)"
    and "fh_type h = H2_FRAME_PUSH_PROMISE \<Longrightarrow> (if fh_flags h AND H2_FLAG_PADDED \<noteq> 0 then 5 else 4) \<le> unat (fh_length h)"
    and "fh_type h = H2_FRAME_SETTINGS \<Longrightarrow> fh_flags h AND H2_FLAG_ACK = 0 \<Longrightarrow> unat (fh_length h) mod 6 = 0"
    and "unat (fh_length h) \<le> H2_MAX_FRAME_SIZE"
  using assms by (auto simp: h2_frame_validate_payload_def word_le_nat_alt unat_mod unat_arith_simps split: if_splits)

subsection \<open>Runs of the parsers\<close>

text \<open>The bytes of the optional pad-length and priority fields.\<close>

definition pad_field :: "byte \<Rightarrow> nat" where
  "pad_field flags = (if flags AND H2_FLAG_PADDED \<noteq> 0 then 1 else 0)"

definition priority_field :: "h2_headers_payload \<Rightarrow> nat" where
  "priority_field hp = (if hp_has_priority hp then 5 else 0)"

lemma priority_field_update [simp]:
  "priority_field (hp\<lparr>hp_header_block := x, hp_header_block_len := y, hp_pad_len := z\<rparr>) = priority_field hp"
  by (simp add: priority_field_def)

lemma parse_data_run:
  assumes "unat (fh_length h) \<le> length p"
  shows "\<exists>ret o'. h2_frame_parse_data (Ptr h) (Ptr p) (Ptr out) = Some (ret, Ptr o') \<and>
     (ret = H2_OK \<longrightarrow> dp_data o' = drop (pad_field (fh_flags h)) p \<and>
        pad_field (fh_flags h) + dp_data_len o' + unat (dp_pad_len o') = unat (fh_length h))"
  using assms by (auto simp: h2_frame_parse_data_def Let_def rd_def pad_field_def)

lemma parse_priority_defined:
  assumes "5 \<le> length p"
  shows "\<exists>ret out'. h2_frame_parse_priority (Ptr h) (Ptr p) (Ptr out) = Some (ret, Ptr out')"
proof -
  from assms obtain v where "h2_read_u31 p = Some v" using read_u31_defined [of p] by auto
  with assms show ?thesis by (auto simp: h2_frame_parse_priority_def Let_def rd_def)
qed

lemma parse_priority_frame_defined:
  assumes "unat (fh_length h) \<le> length p"
  shows "h2_frame_parse_priority (Ptr h) (Ptr p) (Ptr out) \<noteq> None"
proof (cases "fh_type h = H2_FRAME_PRIORITY \<and> h2_frame_validate_payload (Ptr h) = H2_OK")
  case True
  then have "5 \<le> length p" using assms validate_len(1) [of h] by simp
  then show ?thesis using parse_priority_defined [of p h out] by auto
qed (auto simp: h2_frame_parse_priority_def)

lemma parse_headers_priority_run:
  assumes "pos + blen \<le> length p"
  shows "\<exists>ret hp' pos' blen'. h2_frame_parse_headers_priority h p pos blen hp = Some (ret, hp', pos', blen')
     \<and> (ret = H2_OK \<longrightarrow> pos' = pos + priority_field hp' \<and> pos' + blen' = pos + blen)"
proof (cases "5 \<le> blen")
  case True
  let ?ph = "\<lparr>fh_length = 5, fh_type = H2_FRAME_PRIORITY, fh_flags = 0, fh_stream_id = fh_stream_id h\<rparr>"
  from True assms have "5 \<le> length (drop pos p)" by simp
  then obtain ret pr where "h2_frame_parse_priority (Ptr ?ph) (Ptr (drop pos p)) (Ptr (hp_priority hp)) = Some (ret, Ptr pr)"
    using parse_priority_defined by blast
  with True show ?thesis by (simp add: h2_frame_parse_headers_priority_def Let_def priority_field_def)
qed (auto simp: h2_frame_parse_headers_priority_def Let_def priority_field_def)

lemma parse_headers_run:
  assumes "unat (fh_length h) \<le> length p"
  shows "\<exists>ret o'. h2_frame_parse_headers (Ptr h) (Ptr p) (Ptr out) = Some (ret, Ptr o') \<and>
     (ret = H2_OK \<longrightarrow> hp_header_block o' = drop (pad_field (fh_flags h) + priority_field o') p \<and>
        pad_field (fh_flags h) + priority_field o' + hp_header_block_len o' + unat (hp_pad_len o') = unat (fh_length h))"
proof (cases "fh_flags h AND H2_FLAG_PADDED \<noteq> 0 \<and> unat (fh_length h) \<noteq> 0")
  case True
  then obtain b q where p: "p = b # q" using assms by (cases p) auto
  show ?thesis
  proof (cases "unat b \<le> unat (fh_length h) - 1")
    case fit: True
    from True have "0 < unat (fh_length h)" by simp
    with assms fit have "1 + (unat (fh_length h) - 1 - unat b) \<le> length p" by linarith
    from parse_headers_priority_run [OF this, of h out]
    obtain ret hp' pos' blen' where "h2_frame_parse_headers_priority h p 1 (unat (fh_length h) - 1 - unat b) out = Some (ret, hp', pos', blen')"
      "ret = H2_OK \<longrightarrow> pos' = 1 + priority_field hp' \<and> pos' + blen' = 1 + (unat (fh_length h) - 1 - unat b)" by blast
    with True fit show ?thesis
      unfolding p by (cases "ret = H2_OK") (auto simp add: h2_frame_parse_headers_def pad_field_def)
  qed (use True in \<open>auto simp: h2_frame_parse_headers_def Let_def p\<close>)
next
  case False
  from assms have "0 + unat (fh_length h) \<le> length p" by simp
  from parse_headers_priority_run [OF this, of h out]
  obtain ret hp' pos' blen' where "h2_frame_parse_headers_priority h p 0 (unat (fh_length h)) out = Some (ret, hp', pos', blen')"
    "ret = H2_OK \<longrightarrow> pos' = 0 + priority_field hp' \<and> pos' + blen' = 0 + unat (fh_length h)" by blast
  with False show ?thesis
    by (cases "ret = H2_OK") (auto simp: h2_frame_parse_headers_def pad_field_def Let_def)
qed

lemma parse_settings_loop_run:
  "6 * (i + n) \<le> length p \<Longrightarrow> i + n \<le> length ss \<Longrightarrow>
     \<exists>ss'. h2_frame_parse_settings_loop p i n ss = Some ss' \<and> length ss' = length ss"
proof (induction n arbitrary: i ss)
  case 0
  then show ?case by simp
next
  case (Suc n)
  then have "2 \<le> length (drop (i * 6) p)" "4 \<le> length (drop (i * 6 + 2) p)" by simp_all
  then obtain u v where u: "h2_read_u16 (drop (i * 6) p) = Some u"
    and v: "h2_read_u32 (drop (i * 6 + 2) p) = Some v"
    using read_u16_defined read_u32_defined by blast
  have "\<exists>ss'. h2_frame_parse_settings_loop p (Suc i) n (ss[i := \<lparr>st_id = u, st_value = v\<rparr>]) = Some ss' \<and>
     length ss' = length (ss[i := \<lparr>st_id = u, st_value = v\<rparr>])"
    using Suc.prems by (intro Suc.IH) simp_all
  with u v Suc.prems show ?case by (simp add: wr_in)
qed

lemma parse_settings_run:
  assumes "unat (fh_length h) \<le> length p" "max_settings \<le> length ss"
  shows "\<exists>ret ss' n'. h2_frame_parse_settings (Ptr h) (Ptr p) (Ptr ss) max_settings (Ptr n) = Some (ret, Ptr ss', Ptr n')
     \<and> length ss' = length ss \<and> (ret = H2_OK \<longrightarrow> n' \<le> max_settings)"
proof -
  have "6 * (unat (fh_length h) div 6) \<le> length p" using assms(1) by linarith
  moreover have "unat (fh_length h div 6) = unat (fh_length h) div 6" by (simp add: unat_div)
  ultimately show ?thesis
    using assms(2) parse_settings_loop_run [of 0 "unat (fh_length h) div 6" p ss]
    by (auto simp: h2_frame_parse_settings_def Let_def not_less)
qed

lemma parse_fixed_defined:
  assumes "unat (fh_length h) \<le> length p"
  shows "\<exists>ret o'. h2_frame_parse_window_update (Ptr h) (Ptr p) (Ptr inc) = Some (ret, Ptr o')"
    and "\<exists>ret o'. h2_frame_parse_rst_stream (Ptr h) (Ptr p) (Ptr inc) = Some (ret, Ptr o')"
    and "\<exists>ret o'. h2_frame_parse_continuation (Ptr h) (Ptr p) (Ptr cn) = Some (ret, Ptr o')"
    and "8 \<le> length opaque \<Longrightarrow> \<exists>ret o'. h2_frame_parse_ping (Ptr h) (Ptr p) (Ptr opaque) = Some (ret, Ptr o') \<and> length o' = length opaque"
proof -
  show "\<exists>ret o'. h2_frame_parse_window_update (Ptr h) (Ptr p) (Ptr inc) = Some (ret, Ptr o')"
    using assms read_u31_defined [of p] validate_len(4) [of h]
    by (auto simp: h2_frame_parse_window_update_def)
  show "\<exists>ret o'. h2_frame_parse_rst_stream (Ptr h) (Ptr p) (Ptr inc) = Some (ret, Ptr o')"
    using assms read_u32_defined [of p] validate_len(2) [of h]
    by (auto simp: h2_frame_parse_rst_stream_def)
  show "\<exists>ret o'. h2_frame_parse_continuation (Ptr h) (Ptr p) (Ptr cn) = Some (ret, Ptr o')"
    by (simp add: h2_frame_parse_continuation_def)
  show "8 \<le> length opaque \<Longrightarrow> \<exists>ret o'. h2_frame_parse_ping (Ptr h) (Ptr p) (Ptr opaque) = Some (ret, Ptr o') \<and> length o' = length opaque"
    using assms validate_len(3) [of h]
    by (auto simp: h2_frame_parse_ping_def rd_block_in wr_block_patch)
qed

lemma parse_goaway_run:
  assumes "unat (fh_length h) \<le> length p"
  shows "\<exists>ret o'. h2_frame_parse_goaway (Ptr h) (Ptr p) (Ptr out) = Some (ret, Ptr o') \<and>
     (ret = H2_OK \<longrightarrow> ga_debug_data o' = drop 8 p \<and> 8 + ga_debug_len o' = unat (fh_length h))"
proof (cases "fh_type h = H2_FRAME_GOAWAY \<and> h2_frame_validate_payload (Ptr h) = H2_OK")
  case True
  then have len: "8 \<le> unat (fh_length h)" using validate_len(5) [of h] by simp
  with assms have "4 \<le> length p" "4 \<le> length (drop 4 p)" by auto
  then obtain u v where "h2_read_u31 p = Some u" "h2_read_u32 (drop 4 p) = Some v"
    using read_u31_defined read_u32_defined by blast
  moreover have "8 + unat (fh_length h - 8) = unat (fh_length h)"
    using len by (simp add: unat_sub word_le_nat_alt)
  ultimately show ?thesis using True by (simp add: h2_frame_parse_goaway_def)
qed (auto simp: h2_frame_parse_goaway_def)

lemma parse_push_promise_run:
  assumes "unat (fh_length h) \<le> length p"
  shows "\<exists>ret o'. h2_frame_parse_push_promise (Ptr h) (Ptr p) (Ptr out) = Some (ret, Ptr o') \<and>
     (ret = H2_OK \<longrightarrow> pp_header_block o' = drop (pad_field (fh_flags h) + 4) p \<and>
        pad_field (fh_flags h) + 4 + pp_header_block_len o' + unat (pp_pad_len o') = unat (fh_length h))"
proof (cases "fh_type h = H2_FRAME_PUSH_PROMISE \<and> h2_frame_validate_payload (Ptr h) = H2_OK")
  case True
  then have len: "(if fh_flags h AND H2_FLAG_PADDED \<noteq> 0 then 5 else 4) \<le> unat (fh_length h)"
    using validate_len(6) [of h] by simp
  with assms have "pad_field (fh_flags h) + 4 \<le> length p"
    by (simp add: pad_field_def split: if_splits)
  then have "4 \<le> length (drop (pad_field (fh_flags h)) p)" by simp
  then obtain v where "h2_read_u31 (drop (pad_field (fh_flags h)) p) = Some v"
    using read_u31_defined by blast
  with len assms True show ?thesis
    by (cases "fh_flags h AND H2_FLAG_PADDED = 0") (auto simp: h2_frame_parse_push_promise_def Let_def rd_def pad_field_def)
qed (auto simp: h2_frame_parse_push_promise_def)

subsection \<open>Properties\<close>

text \<open>C10: memory safety of the ten payload parsers. Whatever header and payload bytes the peer
  sends, a parser that is given the \<open>length\<close> bytes the header announces (and, for SETTINGS and PING,
  arrays of the size it is told) reads and writes only inside its objects.\<close>

theorem frame_parsers_memory_safe:
  assumes "unat (fh_length h) \<le> length p" "max_settings \<le> length ss" "8 \<le> length opaque"
  shows "h2_frame_parse_data (Ptr h) (Ptr p) (Ptr dp) \<noteq> None \<and>
         h2_frame_parse_headers (Ptr h) (Ptr p) (Ptr hp) \<noteq> None \<and>
         h2_frame_parse_priority (Ptr h) (Ptr p) (Ptr pr) \<noteq> None \<and>
         h2_frame_parse_settings (Ptr h) (Ptr p) (Ptr ss) max_settings (Ptr n) \<noteq> None \<and>
         h2_frame_parse_window_update (Ptr h) (Ptr p) (Ptr inc) \<noteq> None \<and>
         h2_frame_parse_ping (Ptr h) (Ptr p) (Ptr opaque) \<noteq> None \<and>
         h2_frame_parse_goaway (Ptr h) (Ptr p) (Ptr ga) \<noteq> None \<and>
         h2_frame_parse_rst_stream (Ptr h) (Ptr p) (Ptr e) \<noteq> None \<and>
         h2_frame_parse_continuation (Ptr h) (Ptr p) (Ptr cn) \<noteq> None \<and>
         h2_frame_parse_push_promise (Ptr h) (Ptr p) (Ptr pp) \<noteq> None"
proof (intro conjI)
  show "h2_frame_parse_data (Ptr h) (Ptr p) (Ptr dp) \<noteq> None"
    using parse_data_run [OF assms(1), of dp] by auto
  show "h2_frame_parse_headers (Ptr h) (Ptr p) (Ptr hp) \<noteq> None"
    using parse_headers_run [OF assms(1), of hp] by auto
  show "h2_frame_parse_priority (Ptr h) (Ptr p) (Ptr pr) \<noteq> None"
    by (rule parse_priority_frame_defined [OF assms(1)])
  show "h2_frame_parse_settings (Ptr h) (Ptr p) (Ptr ss) max_settings (Ptr n) \<noteq> None"
    using parse_settings_run [OF assms(1,2), of n] by auto
  show "h2_frame_parse_goaway (Ptr h) (Ptr p) (Ptr ga) \<noteq> None"
    using parse_goaway_run [OF assms(1), of ga] by auto
  show "h2_frame_parse_push_promise (Ptr h) (Ptr p) (Ptr pp) \<noteq> None"
    using parse_push_promise_run [OF assms(1), of pp] by auto
qed (use parse_fixed_defined [OF assms(1)] assms(3) in fastforce)+

theorem frame_parsers_memory_safe_witness:
  "\<exists>h ss. h2_frame_parse_settings (Ptr h) (Ptr [0, 4, 0, 0, 255, 255]) (Ptr ss) 1 (Ptr 0) \<noteq> None
     \<and> fh_length h = 6"
  using frame_parsers_memory_safe [of "\<lparr>fh_length = 6, fh_type = H2_FRAME_SETTINGS, fh_flags = 0, fh_stream_id = 0\<rparr>"
      "[0, 4, 0, 0, 255, 255]" 1 "[\<lparr>st_id = 0, st_value = 0\<rparr>]" "local_array 8"]
  by fastforce

text \<open>C25: exact accounting of a parsed payload. A DATA, HEADERS, PUSH_PROMISE or GOAWAY frame that is
  accepted splits into its optional fields, the block the output points at and the padding, and the
  three parts add up to the announced length; so the block lies inside the payload.\<close>

theorem parsed_blocks_account_for_payload:
  assumes "unat (fh_length h) \<le> length p"
  shows "(h2_frame_parse_data (Ptr h) (Ptr p) (Ptr dp0) = Some (H2_OK, Ptr dp) \<longrightarrow>
       dp_data dp = drop (pad_field (fh_flags h)) p \<and>
       pad_field (fh_flags h) + dp_data_len dp + unat (dp_pad_len dp) = unat (fh_length h)) \<and>
     (h2_frame_parse_headers (Ptr h) (Ptr p) (Ptr hp0) = Some (H2_OK, Ptr hp) \<longrightarrow>
       hp_header_block hp = drop (pad_field (fh_flags h) + priority_field hp) p \<and>
       pad_field (fh_flags h) + priority_field hp + hp_header_block_len hp + unat (hp_pad_len hp) = unat (fh_length h)) \<and>
     (h2_frame_parse_push_promise (Ptr h) (Ptr p) (Ptr pp0) = Some (H2_OK, Ptr pp) \<longrightarrow>
       pp_header_block pp = drop (pad_field (fh_flags h) + 4) p \<and>
       pad_field (fh_flags h) + 4 + pp_header_block_len pp + unat (pp_pad_len pp) = unat (fh_length h)) \<and>
     (h2_frame_parse_goaway (Ptr h) (Ptr p) (Ptr ga0) = Some (H2_OK, Ptr ga) \<longrightarrow>
       ga_debug_data ga = drop 8 p \<and> 8 + ga_debug_len ga = unat (fh_length h))"
  using parse_data_run [OF assms, of dp0] parse_headers_run [OF assms, of hp0]
    parse_push_promise_run [OF assms, of pp0] parse_goaway_run [OF assms, of ga0] by auto

text \<open>The witness: a padded DATA frame of 6 bytes, of which 3 are data and 2 padding.\<close>

theorem parsed_blocks_account_for_payload_witness:
  "\<exists>h dp. h2_frame_parse_data (Ptr h) (Ptr [2, 7, 8, 9, 0, 0]) (Ptr dp) = Some (H2_OK, Ptr dp) \<and>
     dp_data dp = [7, 8, 9, 0, 0] \<and> 1 + dp_data_len dp + unat (dp_pad_len dp) = 6"
proof -
  let ?h = "\<lparr>fh_length = 6, fh_type = H2_FRAME_DATA, fh_flags = H2_FLAG_PADDED, fh_stream_id = 1\<rparr>"
  let ?dp = "\<lparr>dp_data = [7, 8, 9, 0, 0], dp_data_len = 3, dp_pad_len = 2\<rparr>"
  have parsed: "h2_frame_parse_data (Ptr ?h) (Ptr [2, 7, 8, 9, 0, 0]) (Ptr ?dp) = Some (H2_OK, Ptr ?dp)"
    by (simp add: h2_frame_parse_data_def h2_frame_validate_payload_def h2_validate_stream_nonzero_def
        H2_MAX_FRAME_SIZE_def)
  have "unat (fh_length ?h) \<le> length [2, 7, 8, 9, 0, 0 :: byte]" by simp
  from parsed_blocks_account_for_payload [OF this, of ?dp ?dp] parsed
  have "dp_data ?dp = [7, 8, 9, 0, 0] \<and> 1 + dp_data_len ?dp + unat (dp_pad_len ?dp) = 6"
    by (simp add: pad_field_def)
  with parsed show ?thesis by blast
qed

end
