(* ===== verification/Frame_Roundtrip.thy ===== *)
theory Frame_Roundtrip
  imports Frame_Parsers
begin

unbundle bit_operations_syntax

section \<open>Encoding and parsing a frame\<close>

text \<open>
  For every frame type, the parser of the type gives back what its encoder was called with. The
  interpretations of \<open>frame_encoder\<close> supply the header; each proof adds the payload.
\<close>

lemmas frame_eval = local_array_def patch_def frame_bytes_def frame_header_bytes_def be16_def be24_def
  be32_def H2_MAX_FRAME_SIZE_def

lemma top_clear_bit: "v AND 0x80000000 = 0 \<longleftrightarrow> \<not> bit (v :: u32) 31"
  using and_exp_eq_0_iff_not_bit [of v 31] by simp

lemma u31_top_clear: "v AND 0x80000000 = 0 \<Longrightarrow> v AND 0x7fffffff = (v :: u32)"
  unfolding top_clear_bit mask_numerals
  by (rule bit_word_eqI) (auto simp: bit_simps less_Suc_eq numeral_eq_Suc)

lemma top_bit_of_first_byte: "(ucast (drop_bit 24 v) :: byte) AND 0x80 = 0 \<longleftrightarrow> \<not> bit (v :: u32) 31"
  using and_exp_eq_0_iff_not_bit [of "ucast (drop_bit 24 v) :: byte" 7] by (simp add: bit_simps)

lemma validate_ok:
  assumes "unat (fh_length h) \<le> H2_MAX_FRAME_SIZE"
  shows "fh_type h = H2_FRAME_DATA \<or> fh_type h = H2_FRAME_HEADERS \<or> fh_type h = H2_FRAME_CONTINUATION \<Longrightarrow>
       fh_stream_id h \<noteq> 0 \<Longrightarrow> h2_frame_validate_payload (Ptr h) = H2_OK"
  using assms by (auto simp: h2_frame_validate_payload_def h2_validate_stream_nonzero_def)

text \<open>C17: DATA round trip. What \<open>h2_frame_encode_data\<close> writes parses back as a DATA header with the same
  stream and flags, followed by exactly the data, with no padding.\<close>

theorem data_round_trip:
  assumes "h2_frame_encode_data (Ptr w) cap sid fl (Ptr d) (length d) = Some (n, Ptr w')" "0 < n"
    and "cap \<le> length w" "length d < 2 ^ 64" "sid < 0x80000000"
  shows "\<exists>h. h2_frame_parse_header (Ptr w') n (Ptr h0) = Some (H2_OK, Ptr h) \<and>
       fh_stream_id h = sid \<and> fh_flags h = fl \<and>
       h2_frame_parse_data (Ptr h) (Ptr (drop 9 w')) (Ptr d0) =
         Some (H2_OK, Ptr \<lparr>dp_data = d @ drop n w, dp_data_len = length d, dp_pad_len = 0\<rparr>)"
proof -
  note rb = enc_data.header_reads_back [of w cap "(sid, fl, d)" n w']
  have "sid \<noteq> 0 \<and> fl AND H2_FLAG_PADDED = 0 \<and> length d \<le> H2_MAX_FRAME_SIZE"
    using rb(4) assms by simp
  then show ?thesis
    using rb(1,2) assms
    by (simp add: h2_frame_parse_data_def validate_ok unat_payload_len u31_small)
qed

theorem data_round_trip_witness:
  "\<exists>h. h2_frame_parse_header (Ptr [0, 0, 3, 0, 1, 0, 0, 0, 1, 7, 8, 9]) 12 (Ptr local_frame_header) = Some (H2_OK, Ptr h) \<and>
     h2_frame_parse_data (Ptr h) (Ptr [7, 8, 9]) (Ptr local_data_payload) =
       Some (H2_OK, Ptr \<lparr>dp_data = [7, 8, 9], dp_data_len = 3, dp_pad_len = 0\<rparr>)"
proof -
  have "h2_frame_encode_data (Ptr (local_array 12)) 12 1 1 (Ptr [7, 8, 9]) (length [7, 8, 9 :: byte])
      = Some (12, Ptr [0, 0, 3, 0, 1, 0, 0, 0, 1, 7, 8, 9])"
    by (simp add: h2_frame_encode_data_def encode_raw_eq frame_eval)
  from data_round_trip [OF this, of local_frame_header local_data_payload] show ?thesis
    by (auto simp: local_array_def)
qed


text \<open>C18: HEADERS round trip. What \<open>h2_frame_encode_headers\<close> writes parses back with the same stream, flags and
  header block, no padding and no priority fields.\<close>

theorem headers_round_trip:
  assumes "h2_frame_encode_headers (Ptr w) cap sid fl (Ptr b) (length b) = Some (n, Ptr w')" "0 < n"
    and "cap \<le> length w" "length b < 2 ^ 64" "sid < 0x80000000"
  shows "\<exists>h hp. h2_frame_parse_header (Ptr w') n (Ptr h0) = Some (H2_OK, Ptr h) \<and>
       fh_stream_id h = sid \<and> fh_flags h = fl \<and>
       h2_frame_parse_headers (Ptr h) (Ptr (drop 9 w')) (Ptr hp0) = Some (H2_OK, Ptr hp) \<and>
       hp_header_block hp = b @ drop n w \<and> hp_header_block_len hp = length b \<and>
       hp_pad_len hp = 0 \<and> \<not> hp_has_priority hp"
proof -
  note rb = enc_headers.header_reads_back [of w cap "(sid, fl, b)" n w']
  have "sid \<noteq> 0 \<and> fl AND (H2_FLAG_PADDED OR H2_FLAG_PRIORITY) = 0 \<and> length b \<le> H2_MAX_FRAME_SIZE"
    using rb(4) assms by simp
  moreover have "(fl AND 40) AND 8 = fl AND 8" "(fl AND 40) AND 0x20 = fl AND 0x20"
    by (simp_all add: and.assoc)
  ultimately show ?thesis
    using rb(1,2) assms
    by (simp add: h2_frame_parse_headers_def h2_frame_parse_headers_priority_def validate_ok unat_payload_len u31_small)
qed

theorem headers_round_trip_witness:
  "\<exists>h hp. h2_frame_parse_header (Ptr [0, 0, 1, 1, 4, 0, 0, 0, 1, 0x88]) 10 (Ptr local_frame_header) = Some (H2_OK, Ptr h) \<and>
     h2_frame_parse_headers (Ptr h) (Ptr [0x88]) (Ptr local_headers_payload) = Some (H2_OK, Ptr hp) \<and>
     hp_header_block hp = [0x88] \<and> hp_header_block_len hp = 1"
proof -
  have "h2_frame_encode_headers (Ptr (local_array 10)) 10 1 4 (Ptr [0x88]) (length [0x88 :: byte])
      = Some (10, Ptr [0, 0, 1, 1, 4, 0, 0, 0, 1, 0x88])"
    by (simp add: h2_frame_encode_headers_def encode_raw_eq frame_eval)
  from headers_round_trip [OF this, of local_frame_header local_headers_payload] show ?thesis
    by (auto simp: local_array_def)
qed


lemma continuation_round_trip:
  assumes "h2_frame_encode_continuation (Ptr w) cap sid fl (Ptr b) (length b) = Some (n, Ptr w')" "0 < n"
    and "cap \<le> length w" "length b < 2 ^ 64" "sid < 0x80000000"
  shows "\<exists>h. h2_frame_parse_header (Ptr w') n (Ptr h0) = Some (H2_OK, Ptr h) \<and>
       fh_stream_id h = sid \<and> fh_flags h = fl \<and>
       h2_frame_parse_continuation (Ptr h) (Ptr (drop 9 w')) (Ptr c0) =
         Some (H2_OK, Ptr \<lparr>cn_header_block = b @ drop n w, cn_header_block_len = length b\<rparr>)"
proof -
  note rb = enc_continuation.header_reads_back [of w cap "(sid, fl, b)" n w']
  have "sid \<noteq> 0 \<and> length b \<le> H2_MAX_FRAME_SIZE"
    using rb(4) assms by simp
  then show ?thesis
    using rb(1,2) assms
    by (simp add: h2_frame_parse_continuation_def validate_ok unat_payload_len u31_small)
qed

lemma window_update_round_trip:
  assumes "h2_frame_encode_window_update (Ptr w) cap sid inc = Some (n, Ptr w')" "0 < n"
    and "cap \<le> length w"
  shows "\<exists>h. h2_frame_parse_header (Ptr w') n (Ptr h0) = Some (H2_OK, Ptr h) \<and>
       fh_stream_id h = sid AND 0x7fffffff \<and>
       h2_frame_parse_window_update (Ptr h) (Ptr (drop 9 w')) (Ptr i0) = Some (H2_OK, Ptr inc)"
proof -
  note rb = enc_window_update.header_reads_back [of w cap "(sid, inc)" n w']
  have "inc \<noteq> 0 \<and> inc AND 0x80000000 = 0"
    using rb(4) assms by simp
  moreover from this have "inc AND 0x7fffffff = inc" by (simp add: u31_top_clear)
  ultimately show ?thesis
    using rb(1,2) assms
    by (simp add: h2_frame_parse_window_update_def h2_frame_validate_payload_def H2_MAX_FRAME_SIZE_def)
qed

lemma rst_stream_round_trip:
  assumes "h2_frame_encode_rst_stream (Ptr w) cap sid e = Some (n, Ptr w')" "0 < n"
    and "cap \<le> length w" "sid < 0x80000000"
  shows "\<exists>h. h2_frame_parse_header (Ptr w') n (Ptr h0) = Some (H2_OK, Ptr h) \<and>
       fh_stream_id h = sid \<and>
       h2_frame_parse_rst_stream (Ptr h) (Ptr (drop 9 w')) (Ptr e0) = Some (H2_OK, Ptr e)"
proof -
  note rb = enc_rst_stream.header_reads_back [of w cap "(sid, e)" n w']
  have "sid \<noteq> 0"
    using rb(4) assms by simp
  then show ?thesis
    using rb(1,2) assms
    by (simp add: h2_frame_parse_rst_stream_def h2_frame_validate_payload_def H2_MAX_FRAME_SIZE_def u31_small)
qed

lemma ping_round_trip:
  assumes "h2_frame_encode_ping (Ptr w) cap fl (Ptr (be64 v)) = Some (n, Ptr w')" "0 < n"
    and "cap \<le> length w" "length q = 8"
  shows "\<exists>h. h2_frame_parse_header (Ptr w') n (Ptr h0) = Some (H2_OK, Ptr h) \<and> fh_flags h = fl \<and>
       h2_frame_parse_ping (Ptr h) (Ptr (drop 9 w')) (Ptr q) = Some (H2_OK, Ptr (be64 v))"
  using enc_ping.header_reads_back [of w cap "(fl, v)" n w'] assms
  by (simp add: h2_frame_parse_ping_def h2_frame_validate_payload_def H2_MAX_FRAME_SIZE_def rd_block_in
      wr_block_patch patch_all)

lemma goaway_round_trip:
  assumes "h2_frame_encode_goaway (Ptr w) cap lst code (Ptr d) (length d) = Some (n, Ptr w')" "0 < n"
    and "cap \<le> length w" "length d + 8 < 2 ^ 64" "lst < 0x80000000"
  shows "\<exists>h. h2_frame_parse_header (Ptr w') n (Ptr h0) = Some (H2_OK, Ptr h) \<and>
       h2_frame_parse_goaway (Ptr h) (Ptr (drop 9 w')) (Ptr g0) =
         Some (H2_OK, Ptr \<lparr>ga_last_stream_id = lst, ga_error_code = code, ga_debug_data = d @ drop n w, ga_debug_len = length d\<rparr>)"
proof -
  note rb = enc_goaway.header_reads_back [of w cap "(lst, code, d)" n w']
  have d: "length d \<le> 16376"
    using rb(4) assms by simp
  then have "unat (8 + of_nat (length d) :: u32) = 8 + length d"
    using unat_of_nat_u32 [of "8 + length d"] by simp
  then show ?thesis
    using rb(1,2) assms d
    by (simp add: h2_frame_parse_goaway_def h2_frame_validate_payload_def H2_MAX_FRAME_SIZE_def u31_small word_le_nat_alt unat_of_nat_u32)
qed

lemma push_promise_round_trip:
  assumes "h2_frame_encode_push_promise (Ptr w) cap sid fl promised (Ptr b) (length b) = Some (n, Ptr w')" "0 < n"
    and "cap \<le> length w" "length b + 4 < 2 ^ 64" "sid < 0x80000000" "promised < 0x80000000"
  shows "\<exists>h. h2_frame_parse_header (Ptr w') n (Ptr h0) = Some (H2_OK, Ptr h) \<and>
       fh_stream_id h = sid \<and> fh_flags h = fl \<and>
       h2_frame_parse_push_promise (Ptr h) (Ptr (drop 9 w')) (Ptr pp0) =
         Some (H2_OK, Ptr \<lparr>pp_promised_stream_id = promised, pp_header_block = b @ drop n w,
                            pp_header_block_len = length b, pp_pad_len = 0\<rparr>)"
proof -
  note rb = enc_push_promise.header_reads_back [of w cap "(sid, fl, promised, b)" n w']
  have d: "sid \<noteq> 0 \<and> promised \<noteq> 0 \<and> fl AND H2_FLAG_PADDED = 0 \<and> length b \<le> 16380"
    using rb(4) assms by simp
  then have "unat (4 + of_nat (length b) :: u32) = 4 + length b"
    using unat_of_nat_u32 [of "4 + length b"] by simp
  then show ?thesis
    using rb(1,2) assms d
    by (simp add: h2_frame_parse_push_promise_def h2_frame_validate_payload_def H2_MAX_FRAME_SIZE_def u31_small word_le_nat_alt)
qed

lemma parse_priority_bytes:
  assumes "fh_type h = H2_FRAME_PRIORITY" "h2_frame_validate_payload (Ptr h) = H2_OK" "v AND 0x7fffffff \<noteq> fh_stream_id h"
  shows "h2_frame_parse_priority (Ptr h) (Ptr (be32 v @ wt # q)) (Ptr pr0) =
    Some (H2_OK, Ptr \<lparr>pr_exclusive = bit v 31, pr_stream_dependency = v AND 0x7fffffff, pr_weight = wt\<rparr>)"
proof -
  have "rd (be32 v @ wt # q) 0 = Some (ucast (drop_bit 24 v))" "rd (be32 v @ wt # q) 4 = Some wt"
    by (simp_all add: be32_def rd_def)
  then show ?thesis
    using assms unfolding h2_frame_parse_priority_def
    by (simp add: top_bit_of_first_byte Let_def)
qed

lemma priority_word_reads_back:
  assumes "pr_stream_dependency pr < 0x80000000"
  shows "priority_word pr AND 0x7fffffff = pr_stream_dependency pr" "bit (priority_word pr) 31 = pr_exclusive pr"
proof -
  have "pr_stream_dependency pr AND 0x7fffffff = pr_stream_dependency pr" using assms by (rule u31_small)
  then show "priority_word pr AND 0x7fffffff = pr_stream_dependency pr" 
    by (simp add: priority_word_def bit.conj_disj_distrib2)
  show "bit (priority_word pr) 31 = pr_exclusive pr" 
    by (simp add: priority_word_def bit_simps mask_numerals)
qed

lemma priority_round_trip:
  assumes "h2_frame_encode_priority (Ptr w) cap sid (Ptr pr) = Some (n, Ptr w')" "0 < n"
    and "cap \<le> length w" "sid < 0x80000000" "pr_stream_dependency pr < 0x80000000" "pr_stream_dependency pr \<noteq> sid"
  shows "\<exists>h. h2_frame_parse_header (Ptr w') n (Ptr h0) = Some (H2_OK, Ptr h) \<and>
       fh_stream_id h = sid \<and>
       h2_frame_parse_priority (Ptr h) (Ptr (drop 9 w')) (Ptr pr0) = Some (H2_OK, Ptr pr)"
proof -
  note rb = enc_priority.header_reads_back [of w cap "(sid, pr)" n w']
  have "sid \<noteq> 0"
    using rb(4) assms by simp
  then show ?thesis
    using rb(1,2) assms priority_word_reads_back [of pr]
    by (simp add: parse_priority_bytes h2_frame_validate_payload_def H2_MAX_FRAME_SIZE_def u31_small priority_bytes_def)
qed

lemma setting_eta [simp]: "\<lparr>st_id = st_id x, st_value = st_value x\<rparr> = x"
  by simp

lemma parse_settings_loop_bytes:
  "length pre = 6 * i \<Longrightarrow> i + length ss \<le> length s \<Longrightarrow>
     h2_frame_parse_settings_loop (pre @ settings_bytes ss @ q) i (length ss) s = Some (patch s i ss)"
proof (induction ss arbitrary: pre i s)
  case Nil
  then show ?case by (simp add: patch_def)
next
  case (Cons x ss)
  have "h2_read_u16 (drop (i * 6) (pre @ settings_bytes (x # ss) @ q)) = Some (st_id x)"
    "h2_read_u32 (drop (i * 6 + 2) (pre @ settings_bytes (x # ss) @ q)) = Some (st_value x)"
    using Cons.prems(1) by (simp_all add: setting_bytes_def mult.commute)
  moreover have "h2_frame_parse_settings_loop ((pre @ setting_bytes x) @ settings_bytes ss @ q) (Suc i) (length ss) (patch s i [x])
     = Some (patch (patch s i [x]) (Suc i) ss)"
    using Cons.prems by (intro Cons.IH) simp_all
  ultimately show ?case
    using Cons.prems(2) by (simp add: wr_patch patch_patch)
qed

lemma parse_settings_bytes:
  assumes "fh_type h = H2_FRAME_SETTINGS" "fh_stream_id h = 0" "fh_flags h AND H2_FLAG_ACK = 0"
    and "unat (fh_length h) = 6 * length ss" "unat (fh_length h) \<le> H2_MAX_FRAME_SIZE"
    and "length ss \<le> max_settings" "max_settings \<le> length s0"
  shows "h2_frame_parse_settings (Ptr h) (Ptr (settings_bytes ss @ q)) (Ptr s0) max_settings (Ptr n0)
           = Some (H2_OK, Ptr (patch s0 0 ss), Ptr (length ss))"
proof -
  have "fh_length h mod 6 = 0" using assms(4) by (simp add: unat_arith_simps)
  moreover have "unat (fh_length h div 6) = length ss" using assms(4) by (simp add: unat_div)
  ultimately show ?thesis
    using assms parse_settings_loop_bytes [of "[]" 0 ss s0 q]
    by (simp add: h2_frame_parse_settings_def h2_frame_validate_payload_def)
qed

text \<open>C19: SETTINGS round trip. A list of up to 16 settings is written and parsed back in order into the caller's
  array, whose other entries keep their values.\<close>

theorem settings_round_trip:
  assumes "h2_frame_encode_settings (Ptr w) cap fl (Ptr ss) (length ss) = Some (n, Ptr w')" "0 < n"
    and "cap \<le> length w" "6 * length ss < 2 ^ 64" "fl AND H2_FLAG_ACK = 0" "16 \<le> length s0"
  shows "\<exists>h. h2_frame_parse_header (Ptr w') n (Ptr h0) = Some (H2_OK, Ptr h) \<and> fh_flags h = fl \<and>
       h2_frame_parse_settings (Ptr h) (Ptr (drop 9 w')) (Ptr s0) 16 (Ptr n0) =
         Some (H2_OK, Ptr (ss @ drop (length ss) s0), Ptr (length ss))"
proof -
  note rb = enc_settings.header_reads_back [of w cap "(fl, ss)" n w']
  have len: "length ss \<le> 16"
    using rb(4) assms by simp
  then have "unat (6 * of_nat (length ss) :: u32) = 6 * length ss"
    using unat_of_nat_u32 [of "6 * length ss"] by simp
  then show ?thesis
    using rb(1,2) assms len
    by (simp add: parse_settings_bytes patch_0 H2_MAX_FRAME_SIZE_def)
qed

theorem settings_round_trip_witness:
  "\<exists>h. h2_frame_parse_settings (Ptr h) (Ptr [0, 2, 0, 0, 0, 1]) (Ptr (replicate 16 local_setting)) 16 (Ptr 0)
     = Some (H2_OK, Ptr (\<lparr>st_id = 2, st_value = 1\<rparr> # replicate 15 local_setting), Ptr 1)"
proof -
  have "h2_frame_encode_settings (Ptr (local_array 15)) 15 0 (Ptr [\<lparr>st_id = 2, st_value = 1\<rparr>]) (length [\<lparr>st_id = 2, st_value = 1\<rparr>])
      = Some (15, Ptr [0, 0, 6, 4, 0, 0, 0, 0, 0, 0, 2, 0, 0, 0, 1])"
    using enc_settings.encodes [of "(0, [\<lparr>st_id = 2, st_value = 1\<rparr>])" 15 "local_array 15"]
    by (simp add: frame_eval setting_bytes_def)
  from settings_round_trip [OF this, of "replicate 16 local_setting" local_frame_header 0] show ?thesis
    by (auto simp: local_array_def)
qed



subsection \<open>The guard of the GOAWAY encoder\<close>

text \<open>C28: the length guard \<open>debug_len + 8u > sizeof(payload)\<close> of \<open>h2_frame_encode_goaway\<close> wraps. For a
  \<open>debug_len\<close> among the eight largest values of \<open>size_t\<close> the sum is below 8, the guard accepts, and
  the \<open>memcpy\<close> that follows is undefined whatever memory \<open>debug_data\<close> points to. The sibling encoder
  of PUSH_PROMISE tests \<open>header_block_len > SIZE_MAX - 4u\<close> first and refuses such lengths.\<close>

theorem goaway_guard_wraps:
  assumes "SIZE_MAX - 7 \<le> n" "n \<le> SIZE_MAX"
  shows "h2_frame_encode_goaway wire cap last_stream_id code (Ptr d) n = None \<and>
         h2_frame_encode_push_promise wire cap sid fl promised (Ptr d) n = Some (0, wire)"
proof -
  have "size_add n 8 \<le> 7"
    using assms by (simp add: size_add_def SIZE_MAX_def le_mod_geq)
  with assms show ?thesis
    by (simp add: h2_frame_encode_goaway_def h2_frame_encode_push_promise_def h2_consts store_steps
        rd_block_def wr_block_def SIZE_MAX_def)
qed

theorem goaway_guard_wraps_witness:
  "h2_frame_encode_goaway (Ptr (local_array 17)) 17 3 0 (Ptr [1, 2]) SIZE_MAX = None"
  using goaway_guard_wraps [of SIZE_MAX "Ptr (local_array 17)" 17 3 0 "[1, 2]"] by simp

end
