(* ===== verification/Connection_Queue.thy ===== *)
theory Connection_Queue
  imports Connection_Feed Frame_Roundtrip
begin

unbundle bit_operations_syntax

section \<open>The output queue of a connection\<close>

text \<open>
  \<open>pending\<close> abstracts the output array with its two indices to the bytes still to be sent. \<open>push\<close> is the
  closed form of queueing: append if it fits the capacity, otherwise fail and keep the content. The
  locale \<open>output_queue\<close> is the contract between the connection, which queues, and the server, which
  drains; the connection's functions are an interpretation of it.
\<close>

subsection \<open>Closed forms\<close>

definition pending :: "h2_connection \<Rightarrow> byte list" where
  "pending conn = drop (c_output_sent conn) (c_output conn)"

definition queue_ok :: "h2_connection \<Rightarrow> bool" where
  "queue_ok conn \<longleftrightarrow> c_output_sent conn \<le> length (c_output conn) \<and> length (c_output conn) \<le> H2_CONN_OUTPUT_CAP"

definition queued :: "h2_connection \<Rightarrow> byte list \<Rightarrow> h2_connection" where
  "queued conn bs = conn\<lparr>c_output := pending conn @ bs, c_output_sent := 0\<rparr>"

definition push :: "h2_connection \<Rightarrow> byte list \<Rightarrow> h2_error_code \<times> h2_connection" where
  "push conn bs =
     (if length (pending conn) + length bs \<le> H2_CONN_OUTPUT_CAP then (H2_OK, queued conn bs)
      else (H2_INTERNAL_ERROR, queued conn []))"

lemma compact_eq: "c_output_sent conn \<le> length (c_output conn) \<Longrightarrow> h2_connection_compact_output conn = queued conn []"
  by (cases conn) (auto simp: h2_connection_compact_output_def queued_def pending_def)

lemma queued_fields [simp]:
  "c_preface_seen (queued c bs) = c_preface_seen c" "c_settings_sent (queued c bs) = c_settings_sent c"
  "c_goaway_sent (queued c bs) = c_goaway_sent c" "c_goaway_error (queued c bs) = c_goaway_error c"
  "c_last_stream_id (queued c bs) = c_last_stream_id c" "c_max_frame_size (queued c bs) = c_max_frame_size c"
  "c_initial_stream_window (queued c bs) = c_initial_stream_window c"
  "c_conn_send_window (queued c bs) = c_conn_send_window c" "c_conn_recv_window (queued c bs) = c_conn_recv_window c"
  "c_responses_sent (queued c bs) = c_responses_sent c" "c_header_block_open (queued c bs) = c_header_block_open c"
  "c_header_block_stream_id (queued c bs) = c_header_block_stream_id c"
  "c_header_block_flags (queued c bs) = c_header_block_flags c" "c_header_block (queued c bs) = c_header_block c"
  "c_streams (queued c bs) = c_streams c" "c_input (queued c bs) = c_input c"
  "c_output (queued c bs) = pending c @ bs" "c_output_sent (queued c bs) = 0"
  by (simp_all add: queued_def)

lemma pending_queued [simp]: "pending (queued c bs) = pending c @ bs"
  by (simp add: pending_def)

lemma queued_queued [simp]: "queued (queued c as) bs = queued c (as @ bs)"
  by (simp add: queued_def pending_def)

lemma length_pending: "queue_ok c \<Longrightarrow> length (pending c) \<le> H2_CONN_OUTPUT_CAP"
  by (auto simp add: queue_ok_def pending_def)

lemma queue_ok_push: "queue_ok c \<Longrightarrow> queue_ok (snd (push c bs))"
  using length_pending [of c] by (simp add: push_def queue_ok_def)

lemma queue_bytes_eq:
  assumes "queue_ok c" "n \<le> length d"
  shows "h2_connection_queue_bytes c (Ptr d) n = Some (push c (take n d))"
proof -
  have "length (pending c) \<le> H2_CONN_OUTPUT_CAP" using assms(1) by (rule length_pending)
  moreover have "h2_connection_compact_output c = queued c []"
    using assms(1) by (intro compact_eq) (simp add: queue_ok_def)
  ultimately show ?thesis
    using assms(2)
    by (auto simp: h2_connection_queue_bytes_def push_def rd_block_in append_within_in queued_def Let_def)
qed

lemma queue_bytes_all: "queue_ok c \<Longrightarrow> n = length d \<Longrightarrow> h2_connection_queue_bytes c (Ptr d) n = Some (push c d)"
  by (simp add: queue_bytes_eq)

subsection \<open>The frames the connection queues\<close>

definition window_update_frame :: "u32 \<Rightarrow> u32 \<Rightarrow> byte list" where
  "window_update_frame sid inc = frame_bytes H2_FRAME_WINDOW_UPDATE 0 sid (be32 inc)"

definition rst_stream_frame :: "u32 \<Rightarrow> u32 \<Rightarrow> byte list" where
  "rst_stream_frame sid e = frame_bytes H2_FRAME_RST_STREAM 0 sid (be32 e)"

definition goaway_frame :: "u32 \<Rightarrow> u32 \<Rightarrow> byte list" where
  "goaway_frame sid e = frame_bytes H2_FRAME_GOAWAY 0 0 (be32 (sid AND 0x7fffffff) @ be32 e)"

definition settings_frame :: "byte list" where
  "settings_frame = frame_bytes H2_FRAME_SETTINGS 0 0 (setting_bytes \<lparr>st_id = H2_SETTINGS_ENABLE_PUSH, st_value = 0\<rparr>)"

definition settings_ack_frame :: "byte list" where
  "settings_ack_frame = frame_bytes H2_FRAME_SETTINGS H2_FLAG_ACK 0 []"

lemma queue_window_update_eq:
  assumes "queue_ok c" "inc \<noteq> 0" "inc AND 0x80000000 = 0"
  shows "h2_connection_queue_window_update c sid inc = Some (push c (window_update_frame sid inc))"
  using enc_window_update.fills [of "(sid, inc)" "local_array 13"] assms
  by (simp add: h2_connection_queue_window_update_def H2_FRAME_HEADER_LEN_def window_update_frame_def queue_bytes_all)

lemma queue_rst_stream_eq:
  assumes "queue_ok c" "sid \<noteq> 0"
  shows "h2_connection_queue_rst_stream c sid e = Some (push c (rst_stream_frame sid e))"
  using enc_rst_stream.fills [of "(sid, e)" "local_array 13"] assms
  by (simp add: h2_connection_queue_rst_stream_def H2_FRAME_HEADER_LEN_def rst_stream_frame_def queue_bytes_all)

lemma queue_settings_eq:
  assumes "queue_ok c"
  shows "h2_connection_queue_settings c = Some (push c settings_frame)"
  using enc_settings.fills [of "(0, [\<lparr>st_id = H2_SETTINGS_ENABLE_PUSH, st_value = 0\<rparr>])" "local_array 15"] assms
  by (simp add: h2_connection_queue_settings_def H2_FRAME_HEADER_LEN_def settings_frame_def queue_bytes_all)

lemma queue_settings_ack_eq:
  assumes "queue_ok c"
  shows "h2_connection_queue_settings_ack c = Some (push c settings_ack_frame)"
  using assms
  by (simp add: h2_connection_queue_settings_ack_def h2_frame_encode_settings_def H2_FRAME_HEADER_LEN_def
      encode_raw_empty patch_all settings_ack_frame_def queue_bytes_all)

lemma encode_goaway_eq:
  "h2_frame_encode_goaway (Ptr (local_array 17)) 17 sid e NULL 0 = Some (17, Ptr (goaway_frame sid e))"
  by (simp add: h2_frame_encode_goaway_def h2_consts store_steps encode_raw_eq take_patch patch_all goaway_frame_def)

lemma queue_goaway_eq:
  assumes "queue_ok c"
  shows "h2_connection_queue_goaway c e = Some (if c_goaway_sent c then (H2_OK, c)
     else push (c\<lparr>c_goaway_sent := True, c_goaway_error := e\<rparr>) (goaway_frame (c_last_stream_id c) e))"
proof -
  have "queue_ok (c\<lparr>c_goaway_sent := True, c_goaway_error := e\<rparr>)" using assms by (simp add: queue_ok_def)
  then show ?thesis
    by (simp add: h2_connection_queue_goaway_def H2_FRAME_HEADER_LEN_def encode_goaway_eq queue_bytes_all goaway_frame_def)
qed

subsection \<open>The contract of the queue\<close>

datatype queue_event = Enqueue "byte list" | Consume nat

fun queue_run ::
  "('s \<Rightarrow> byte list \<Rightarrow> (h2_error_code \<times> 's) option) \<Rightarrow> ('s \<Rightarrow> byte list) \<Rightarrow> ('s \<Rightarrow> nat \<Rightarrow> 's) \<Rightarrow>
     queue_event list \<Rightarrow> 's \<Rightarrow> (byte list \<times> byte list \<times> 's) option" where
  "queue_run enq peek cons [] s = Some ([], [], s)"
| "queue_run enq peek cons (Enqueue bs # es) s = do {
     (ret, s) \<leftarrow> enq s bs;
     (accepted, sent, s) \<leftarrow> queue_run enq peek cons es s;
     Some ((if ret = H2_OK then bs else []) @ accepted, sent, s)
   }"
| "queue_run enq peek cons (Consume n # es) s = do {
     (accepted, sent, s') \<leftarrow> queue_run enq peek cons es (cons s n);
     Some (accepted, take n (peek s) @ sent, s')
   }"

locale output_queue =
  fixes content :: "'s \<Rightarrow> byte list"
    and ok :: "'s \<Rightarrow> bool"
    and cap :: nat
    and enq :: "'s \<Rightarrow> byte list \<Rightarrow> (h2_error_code \<times> 's) option"
    and peek :: "'s \<Rightarrow> byte list"
    and cons :: "'s \<Rightarrow> nat \<Rightarrow> 's"
  assumes enq_fits: "ok s \<Longrightarrow> length (content s) + length bs \<le> cap \<Longrightarrow>
      \<exists>s'. enq s bs = Some (H2_OK, s') \<and> ok s' \<and> content s' = content s @ bs"
    and enq_full: "ok s \<Longrightarrow> cap < length (content s) + length bs \<Longrightarrow>
      \<exists>s' e. enq s bs = Some (e, s') \<and> e \<noteq> H2_OK \<and> ok s' \<and> content s' = content s"
    and peek_content: "ok s \<Longrightarrow> peek s = content s"
    and cons_content: "ok s \<Longrightarrow> ok (cons s n) \<and> content (cons s n) = drop n (content s)"
begin

lemma enq_cases:
  assumes "ok s"
  obtains e s' where "enq s bs = Some (e, s')" "ok s'" "content s' = content s @ (if e = H2_OK then bs else [])"
  using enq_fits [OF assms, of bs] enq_full [OF assms, of bs] by fastforce

text \<open>First in, first out: what has been taken out followed by what is left is what was there at the
  start followed by what was accepted.\<close>

lemma fifo:
  "ok s \<Longrightarrow> \<exists>accepted sent s'. queue_run enq peek cons es s = Some (accepted, sent, s') \<and> ok s' \<and>
     content s @ accepted = sent @ content s'"
proof (induction es arbitrary: s)
  case (Cons ev es)
  show ?case
  proof (cases ev)
    case (Enqueue bs)
    obtain e t where t: "enq s bs = Some (e, t)" "ok t" "content t = content s @ (if e = H2_OK then bs else [])"
      using enq_cases [OF Cons.prems] by blast
    with Cons.IH [OF t(2)] Enqueue show ?thesis by auto
  next
    case (Consume n)
    have t: "ok (cons s n)" "content (cons s n) = drop n (content s)"
      using cons_content [OF Cons.prems] by auto
    from Cons.IH [OF t(1)] obtain accepted sent s' where
      r: "queue_run enq peek cons es (cons s n) = Some (accepted, sent, s')" "ok s'"
        "content (cons s n) @ accepted = sent @ content s'" by blast
    have "content s @ accepted = (take n (peek s) @ sent) @ content s'"
      using r(3) t(2) peek_content [OF Cons.prems] by (metis append.assoc append_take_drop_id)
    with r Consume show ?thesis by simp
  qed
qed simp

end

definition conn_enqueue :: "h2_connection \<Rightarrow> byte list \<Rightarrow> conn_result" where
  "conn_enqueue conn bs = h2_connection_queue_bytes conn (Ptr bs) (length bs)"

definition conn_peek :: "h2_connection \<Rightarrow> byte list" where
  "conn_peek conn =
     (case h2_connection_output (Ptr conn) of
        NULL \<Rightarrow> [] | Ptr p \<Rightarrow> take (h2_connection_output_len (Ptr conn)) p)"

definition conn_consume :: "h2_connection \<Rightarrow> nat \<Rightarrow> h2_connection" where
  "conn_consume conn n = (case h2_connection_consume_output (Ptr conn) n of NULL \<Rightarrow> conn | Ptr c \<Rightarrow> c)"

lemma output_len_eq: "queue_ok c \<Longrightarrow> h2_connection_output_len (Ptr c) = length (pending c)"
  by (auto simp: h2_connection_output_len_def queue_ok_def pending_def)

lemma consume_eq:
  assumes "queue_ok c"
  shows "h2_connection_consume_output (Ptr c) n = Ptr (c\<lparr>c_output := drop n (pending c), c_output_sent := 0\<rparr>)"
proof -
  let ?k = "min n (length (pending c))"
  let ?c = "c\<lparr>c_output_sent := c_output_sent c + ?k\<rparr>"
  have k: "c_output_sent c + ?k \<le> length (c_output c)"
    using assms by (auto simp: queue_ok_def pending_def min_def)
  have "c_output_sent c + ?k < 2 ^ 64"
    using k assms by (simp add: queue_ok_def h2_consts)
  then have "size_add (c_output_sent c) ?k = c_output_sent c + ?k" by (rule size_add_small)
  then have "h2_connection_consume_output (Ptr c) n = Ptr (h2_connection_compact_output ?c)"
    by (cases "n \<le> length (pending c)")
       (simp_all add: h2_connection_consume_output_def output_len_eq [OF assms] Let_def not_less)
  moreover have "h2_connection_compact_output ?c = queued ?c []"
    using k by (intro compact_eq) simp
  moreover have "pending ?c = drop n (pending c)"
    by (cases "n \<le> length (pending c)") (simp_all add: pending_def add.commute min_def)
  ultimately show ?thesis by (auto simp: queued_def)
qed

interpretation conn_queue: output_queue pending queue_ok H2_CONN_OUTPUT_CAP conn_enqueue conn_peek conn_consume
proof (unfold_locales, goal_cases)
  case (1 s bs)
  then show ?case using queue_ok_push [of s bs] by (simp add: conn_enqueue_def queue_bytes_all push_def)
next
  case (2 s bs)
  then show ?case using queue_ok_push [of s bs] by (simp add: conn_enqueue_def queue_bytes_all push_def)
next
  case (3 s)
  then show ?case
    by (auto simp: conn_peek_def output_len_eq h2_connection_output_def pending_def)
next
  case (4 s n)
  then show ?case
    using length_pending [of s] by (auto simp: conn_consume_def consume_eq queue_ok_def pending_def)
qed

text \<open>C9: the output of a connection is a lossless FIFO. Over every sequence of frames queued by
  \<open>h2_connection_queue_bytes\<close> and bytes taken by the server through \<open>h2_connection_output\<close>,
  \<open>h2_connection_output_len\<close> and \<open>h2_connection_consume_output\<close>, all calls are defined, and the bytes
  sent followed by the bytes still pending are the initial ones followed by the accepted ones, in
  order, whatever compaction does in between.\<close>

theorem output_is_fifo:
  assumes "queue_ok conn"
  shows "\<exists>accepted sent conn'. queue_run conn_enqueue conn_peek conn_consume events conn = Some (accepted, sent, conn') \<and>
    pending conn @ accepted = sent @ pending conn' \<and> length (pending conn') \<le> H2_CONN_OUTPUT_CAP"
  using conn_queue.fifo [OF assms, of events] length_pending by blast

lemma output_is_fifo_witness:
  "\<exists>accepted sent conn'. queue_run conn_enqueue conn_peek conn_consume [Enqueue [1, 2, 3], Consume 2, Enqueue [4], Consume 9]
      (h2_connection_init zero_connection) = Some (accepted, sent, conn') \<and>
    pending (h2_connection_init zero_connection) @ accepted = sent @ pending conn' \<and>
    length (pending conn') \<le> H2_CONN_OUTPUT_CAP"
  using output_is_fifo [of "h2_connection_init zero_connection" "[Enqueue [1, 2, 3], Consume 2, Enqueue [4], Consume 9]"]
  by (simp add: queue_ok_def h2_connection_init_def zero_connection_def)

end
