(* ===== verification/Connection_Invariant.thy ===== *)
theory Connection_Invariant
  imports Connection_Queue
begin

unbundle bit_operations_syntax

section \<open>The invariant of a connection\<close>

text \<open>
  \<open>conn_ok\<close> is the invariant: the arrays within their capacities, 128 slots whose windows are in range,
  stream ids that are odd, unique and not above the last one, and the windows and settings of the
  connection in range. \<open>keeps c r\<close> says that a run \<open>r\<close> of an operation from \<open>c\<close> is defined, ends in a
  state with the invariant and leaves the input alone; \<open>keeps_bind\<close> composes such runs the way the
  code composes calls. The lemmas cover the table of streams, the refill of the receive windows and
  the settings of the peer.
\<close>

subsection \<open>The invariant\<close>

text \<open>What the stream ids of the table satisfy.\<close>

definition ids_ok :: "u32 \<Rightarrow> u32 list \<Rightarrow> bool" where
  "ids_ok hi ids \<longleftrightarrow>
     (\<forall>i < length ids. ids ! i \<noteq> 0 \<longrightarrow> ids ! i \<le> hi \<and> ids ! i AND 1 \<noteq> 0) \<and>
     (\<forall>i j. i < length ids \<and> j < length ids \<and> i \<noteq> j \<and> ids ! i \<noteq> 0 \<longrightarrow> ids ! i \<noteq> ids ! j)"

definition deferred_ok :: "h2_stream \<Rightarrow> bool" where
  "deferred_ok s \<longleftrightarrow> (s_response_body_deferred s \<longrightarrow>
     s_state s = H2_STREAM_STATE_OPEN \<or> s_state s = H2_STREAM_STATE_HALF_CLOSED_REMOTE)"

definition slot_ok :: "h2_stream \<Rightarrow> bool" where
  "slot_ok s \<longleftrightarrow> stream_ok s \<and> deferred_ok s"

definition conn_ok :: "h2_connection \<Rightarrow> bool" where
  "conn_ok c \<longleftrightarrow> queue_ok c \<and>
     length (c_streams c) = H2_CONN_MAX_STREAMS \<and> (\<forall>i < H2_CONN_MAX_STREAMS. slot_ok (c_streams c ! i)) \<and>
     ids_ok (c_last_stream_id c) (map s_id (c_streams c)) \<and>
     length (c_input c) \<le> H2_CONN_INPUT_CAP \<and> length (c_header_block c) \<le> H2_CONN_HEADER_BLOCK_CAP \<and>
     0 \<le> c_conn_recv_window c \<and> c_conn_recv_window c \<le> H2_DEFAULT_WINDOW_SIZE \<and>
     0 \<le> c_conn_send_window c \<and> c_conn_send_window c \<le> INT32_MAX \<and>
     0 \<le> c_initial_stream_window c \<and> c_initial_stream_window c \<le> INT32_MAX \<and>
     H2_DEFAULT_MAX_FRAME_SIZE \<le> unat (c_max_frame_size c) \<and> unat (c_max_frame_size c) \<le> H2_MAX_FRAME_SIZE"

lemma conn_okD:
  assumes "conn_ok c"
  shows "queue_ok c" "length (c_streams c) = 128" "i < 128 \<Longrightarrow> slot_ok (c_streams c ! i)"
    "ids_ok (c_last_stream_id c) (map s_id (c_streams c))"
    "length (c_input c) \<le> 131072" "length (c_header_block c) \<le> 65536"
    "0 \<le> c_conn_recv_window c" "c_conn_recv_window c \<le> 65535"
    "0 \<le> c_conn_send_window c" "c_conn_send_window c \<le> INT32_MAX"
    "0 \<le> c_initial_stream_window c" "c_initial_stream_window c \<le> INT32_MAX"
  using assms by (simp_all add: conn_ok_def h2_consts)

text \<open>An operation that is defined, keeps the invariant and does not touch the input.\<close>

definition keeps :: "h2_connection \<Rightarrow> conn_result \<Rightarrow> bool" where
  "keeps c r \<longleftrightarrow> (\<exists>ret c'. r = Some (ret, c') \<and> conn_ok c' \<and> c_input c' = c_input c)"

lemma keeps_Some [simp]: "keeps c (Some (ret, c')) \<longleftrightarrow> conn_ok c' \<and> c_input c' = c_input c"
  by (simp add: keeps_def)

lemma keeps_bind:
  assumes "keeps c r"
    and "\<And>ret c'. r = Some (ret, c') \<Longrightarrow> conn_ok c' \<Longrightarrow> c_input c' = c_input c \<Longrightarrow> keeps c' (f (ret, c'))"
  shows "keeps c (Option.bind r f)"
  using assms by (fastforce simp: keeps_def)

lemma keeps_trans: "keeps c' r \<Longrightarrow> c_input c' = c_input c \<Longrightarrow> keeps c r"
  by (auto simp: keeps_def)

subsection \<open>The building blocks\<close>

lemma conn_ok_queued: "conn_ok c \<Longrightarrow> length (pending c) + length bs \<le> H2_CONN_OUTPUT_CAP \<Longrightarrow> conn_ok (queued c bs)"
  by (simp add: conn_ok_def queue_ok_def)

lemma conn_ok_push: "conn_ok c \<Longrightarrow> conn_ok (snd (push c bs)) \<and> c_input (snd (push c bs)) = c_input c"
  using conn_ok_queued [of c bs] conn_ok_queued [of c "[]"] length_pending [of c] conn_okD(1) [of c]
  by (simp add: push_def)

lemma keeps_push: "conn_ok c \<Longrightarrow> keeps c (Some (push c bs))"
  using conn_ok_push [of c bs] by (cases "push c bs") simp

lemma push_streams [simp]: "c_streams (snd (push c bs)) = c_streams c"
  by (simp add: push_def)

lemma push_cases:
  "push c bs = (H2_OK, queued c bs) \<and> length (pending c) + length bs \<le> H2_CONN_OUTPUT_CAP \<or>
   push c bs = (H2_INTERNAL_ERROR, queued c []) \<and> H2_CONN_OUTPUT_CAP < length (pending c) + length bs"
  by (simp add: push_def not_le)

lemma conn_ok_set_stream:
  assumes "conn_ok c" "i < 128" "slot_ok s" "s_id s = s_id (c_streams c ! i)"
  shows "conn_ok (set_stream c i s)"
proof -
  have "map s_id ((c_streams c)[i := s]) = map s_id (c_streams c)"
    using assms by (simp add: map_update list_update_same_conv conn_okD(2))
  moreover have "\<forall>k < 128. slot_ok ((c_streams c)[i := s] ! k)"
    using assms conn_okD(2,3) [OF assms(1)] by (simp add: nth_list_update)
  ultimately show ?thesis using assms(1) by (simp add: conn_ok_def queue_ok_def h2_consts)
qed

lemma conn_ok_fields [simp]:
  "conn_ok (c\<lparr>c_goaway_sent := b\<rparr>) = conn_ok c" "conn_ok (c\<lparr>c_goaway_error := e\<rparr>) = conn_ok c"
  "conn_ok (c\<lparr>c_preface_seen := b\<rparr>) = conn_ok c" "conn_ok (c\<lparr>c_settings_sent := b\<rparr>) = conn_ok c"
  "conn_ok (c\<lparr>c_responses_sent := n\<rparr>) = conn_ok c" "conn_ok (c\<lparr>c_header_block_open := b\<rparr>) = conn_ok c"
  "conn_ok (c\<lparr>c_header_block_stream_id := e\<rparr>) = conn_ok c" "conn_ok (c\<lparr>c_header_block_flags := f\<rparr>) = conn_ok c"
  by (simp_all add: conn_ok_def queue_ok_def)

lemma conn_ok_recv_window: "conn_ok c \<Longrightarrow> 0 \<le> w \<Longrightarrow> w \<le> 65535 \<Longrightarrow> conn_ok (c\<lparr>c_conn_recv_window := w\<rparr>)"
  by (simp add: conn_ok_def queue_ok_def h2_consts)

lemma conn_ok_send_window: "conn_ok c \<Longrightarrow> 0 \<le> w \<Longrightarrow> w \<le> INT32_MAX \<Longrightarrow> conn_ok (c\<lparr>c_conn_send_window := w\<rparr>)"
  by (simp add: conn_ok_def queue_ok_def)

lemma conn_ok_header_block: "conn_ok c \<Longrightarrow> length b \<le> 65536 \<Longrightarrow> conn_ok (c\<lparr>c_header_block := b\<rparr>)"
  by (simp add: conn_ok_def queue_ok_def h2_consts)

lemma conn_ok_input: "conn_ok c \<Longrightarrow> length b \<le> 131072 \<Longrightarrow> conn_ok (c\<lparr>c_input := b\<rparr>)"
  by (simp add: conn_ok_def queue_ok_def h2_consts)

lemma find_stream_Ptr:
  assumes "conn_ok c" "h2_connection_find_stream c sid = Ptr i"
  shows "i < 128" "s_id (c_streams c ! i) = sid" "slot_ok (c_streams c ! i)" "rd (c_streams c) i = Some (c_streams c ! i)"
  using assms scan_Ptr [of "\<lambda>s. s_id s = sid" "c_streams c" i] conn_okD(2,3) [OF assms(1)]
  by (auto simp: h2_connection_find_stream_def rd_in)

lemma slot_ok_close: "h2_stream_close (Ptr s) = Ptr s' \<Longrightarrow> slot_ok s' \<and> s_id s' = s_id s \<and> s_state s' = H2_STREAM_STATE_CLOSED"
  by (auto simp: slot_ok_def deferred_ok_def)

lemma slot_ok_init: "0 \<le> w \<Longrightarrow> w \<le> INT32_MAX \<Longrightarrow> slot_ok (h2_stream_init z i w)"
  using init_ok [of w z i] by (simp add: slot_ok_def deferred_ok_def h2_stream_init_def zero_stream_def)

subsection \<open>Taking a slot\<close>

lemma ids_ok_insert:
  assumes "ids_ok hi ids" "hi < sid" "sid AND 1 \<noteq> 0" "i < length ids"
  shows "ids_ok sid (ids[i := sid])"
proof -
  have old: "ids ! k \<le> hi \<and> ids ! k AND 1 \<noteq> 0" if "k < length ids" "ids ! k \<noteq> 0" for k
    using assms(1) that by (simp add: ids_ok_def)
  have new: "ids ! k \<noteq> sid" if "k < length ids" for k
    using old [OF that] assms(2) word_gt_0 [of sid] by (cases "ids ! k = 0") auto
  have "ids[i := sid] ! k \<le> sid \<and> ids[i := sid] ! k AND 1 \<noteq> 0" if "k < length ids" "ids[i := sid] ! k \<noteq> 0" for k
    using old [OF that(1)] that assms by (cases "k = i") (auto simp: nth_list_update)
  moreover have "ids[i := sid] ! k \<noteq> ids[i := sid] ! j"
    if "k < length ids" "j < length ids" "k \<noteq> j" "ids[i := sid] ! k \<noteq> 0" for k j
    using that new [of k] new [of j] assms(1,4)
    by (cases "k = i"; cases "j = i") (auto simp: nth_list_update ids_ok_def)
  ultimately show ?thesis by (simp add: ids_ok_def)
qed

lemma get_stream_keeps:
  assumes "conn_ok c" "c_last_stream_id c < sid" "sid AND 1 \<noteq> 0"
    and "h2_connection_get_stream c sid = (Ptr i, c')"
  shows "i < 128" "conn_ok (c'\<lparr>c_last_stream_id := sid\<rparr>)" "c_input c' = c_input c"
    "c_streams c' ! i = h2_stream_init (c_streams c ! i) sid (c_initial_stream_window c)"
    "c' = set_stream c i (h2_stream_init (c_streams c ! i) sid (c_initial_stream_window c))"
    "s_id (c_streams c ! i) = 0 \<or> s_state (c_streams c ! i) = H2_STREAM_STATE_CLOSED"
proof -
  have sid: "sid \<noteq> 0" using assms(2) by auto
  have ids: "ids_ok (c_last_stream_id c) (map s_id (c_streams c))" and len: "length (c_streams c) = 128"
    using conn_okD [OF assms(1)] by simp_all
  have "\<forall>k < 128. s_id (c_streams c ! k) \<noteq> sid"
    using ids len sid assms(2) by (auto simp: ids_ok_def)
  then have "h2_connection_find_stream c sid = NULL"
    using len by (auto simp: h2_connection_find_stream_def scan_NULL_iff in_set_conv_nth)
  then have i: "scan (\<lambda>s. s_id s = 0 \<or> s_state s = H2_STREAM_STATE_CLOSED) (c_streams c) 0 = Ptr i"
    and c': "c' = set_stream c i (h2_stream_init (c_streams c ! i) sid (c_initial_stream_window c))"
    using assms(4) by (auto simp: h2_connection_get_stream_def split: ptr.splits)
  from scan_Ptr [OF i] len show "i < 128" "s_id (c_streams c ! i) = 0 \<or> s_state (c_streams c ! i) = H2_STREAM_STATE_CLOSED"
    by auto
  note i = this(1)
  show "c' = set_stream c i (h2_stream_init (c_streams c ! i) sid (c_initial_stream_window c))" by (rule c')
  show "c_input c' = c_input c" "c_streams c' ! i = h2_stream_init (c_streams c ! i) sid (c_initial_stream_window c)"
    using i len by (simp_all add: c')
  have s: "slot_ok (h2_stream_init (c_streams c ! i) sid (c_initial_stream_window c))"
    using conn_okD(11,12) [OF assms(1)] by (rule slot_ok_init)
  have "ids_ok sid ((map s_id (c_streams c))[i := sid])" using ids assms(2,3) i len by (intro ids_ok_insert) simp_all
  then have "ids_ok sid (map s_id (c_streams c'))"
    by (simp add: c' map_update h2_stream_init_def)
  moreover have "\<forall>k < 128. slot_ok (c_streams c' ! k)"
    using s conn_okD(2,3) [OF assms(1)] i by (simp add: c' nth_list_update)
  ultimately show "conn_ok (c'\<lparr>c_last_stream_id := sid\<rparr>)"
    using assms(1) by (simp add: conn_ok_def queue_ok_def h2_consts c')
qed

subsection \<open>Flow control of received data\<close>

lemma increment_bits:
  assumes "0 < g" "g < 2147483648"
  shows "uint (word_of_int g :: u32) = g" "(word_of_int g :: u32) \<noteq> 0" "(word_of_int g :: u32) AND 0x80000000 = 0"
proof -
  show u: "uint (word_of_int g :: u32) = g"
    using assms by (simp add: uint_word_of_int)
  then show "(word_of_int g :: u32) \<noteq> 0" using assms by auto
  have "\<not> bit (word_of_int g :: u32) 31"
    using assms by (simp add: bit_word_of_int_iff) (simp add: bit_iff_odd)
  then show "(word_of_int g :: u32) AND 0x80000000 = 0" by (simp add: top_clear_bit)
qed

text \<open>The increment that refills a window \<open>w\<close>.\<close>

definition refill :: "int \<Rightarrow> u32" where
  "refill w = word_of_int (65535 - w)"

lemma refill:
  assumes "0 \<le> w" "w \<le> 32767"
  shows "i32 (65535 - w) = Some (65535 - w)" "i32 65535 = Some 65535" "word_of_int (65535 - w) = refill w"
    "uint (refill w) = 65535 - w" "cast_i32 (65535 - w) = 65535 - w" "refill w \<noteq> 0" "refill w AND 0x80000000 = 0"
proof -
  have "uint (word_of_int (65535 - w) :: u32) = 65535 - w" "(word_of_int (65535 - w) :: u32) \<noteq> 0"
    "(word_of_int (65535 - w) :: u32) AND 0x80000000 = 0"
    using assms by (intro increment_bits; simp)+
  then show "uint (refill w) = 65535 - w" "refill w \<noteq> 0" "refill w AND 0x80000000 = 0"
    by (simp_all only: refill_def not_False_eq_True)
qed (use assms in \<open>auto simp: i32_def refill_def c_limits intro!: cast_i32_nonneg\<close>)

lemma refresh_conn_window_eq:
  assumes "conn_ok c"
  shows "h2_connection_refresh_conn_window c =
    Some (if c_conn_recv_window c \<le> 32767
          then push (c\<lparr>c_conn_recv_window := 65535\<rparr>) (window_update_frame 0 (refill (c_conn_recv_window c)))
          else (H2_OK, c))"
proof (cases "c_conn_recv_window c \<le> 32767")
  case True
  let ?c = "c\<lparr>c_conn_recv_window := 65535\<rparr>"
  note r = refill [OF conn_okD(7) [OF assms] True]
  have "queue_ok ?c" using conn_okD(1) [OF assms] by (simp add: queue_ok_def)
  then show ?thesis
    using True r(6,7) push_cases [of ?c "window_update_frame 0 (refill (c_conn_recv_window c))"]
    by (auto simp: h2_connection_refresh_conn_window_def H2_DEFAULT_WINDOW_SIZE_def queue_window_update_eq r(1-5) Let_def
        simp del: of_int_diff)
next
  case False
  then show ?thesis by (simp add: h2_connection_refresh_conn_window_def H2_DEFAULT_WINDOW_SIZE_def)
qed

lemma refresh_stream_window_eq:
  assumes "conn_ok c" "i < 128" "s = c_streams c ! i"
  shows "h2_connection_refresh_stream_window c i =
    Some (if s_recv_window s \<le> 32767
          then push (set_stream c i (s\<lparr>s_recv_window := 65535\<rparr>)) (window_update_frame (s_id s) (refill (s_recv_window s)))
          else (H2_OK, c))"
proof -
  have s: "rd (c_streams c) i = Some s" "0 \<le> s_recv_window s"
    using conn_okD(2,3) [OF assms(1)] assms(2,3) by (auto simp: rd_in slot_ok_def stream_ok_def)
  show ?thesis
  proof (cases "s_recv_window s \<le> 32767")
    case True
    let ?c = "set_stream c i (s\<lparr>s_recv_window := 65535\<rparr>)"
    note r = refill [OF s(2) True]
    have "queue_ok ?c" using conn_okD(1) [OF assms(1)] by (simp add: queue_ok_def)
    then show ?thesis
      using True r(6,7) push_cases [of ?c "window_update_frame (s_id s) (refill (s_recv_window s))"]
      by (auto simp: h2_connection_refresh_stream_window_def H2_DEFAULT_WINDOW_SIZE_def queue_window_update_eq s(1) r(1-5)
          Let_def simp del: of_int_diff)
  next
    case False
    then show ?thesis by (simp add: h2_connection_refresh_stream_window_def H2_DEFAULT_WINDOW_SIZE_def s)
  qed
qed

lemma slot_ok_recv_window: "slot_ok s \<Longrightarrow> 0 \<le> w \<Longrightarrow> w \<le> 65535 \<Longrightarrow> slot_ok (s\<lparr>s_recv_window := w\<rparr>)"
  by (simp add: slot_ok_def stream_ok_def deferred_ok_def H2_DEFAULT_WINDOW_SIZE_def)

lemma refresh_conn_keeps: "conn_ok c \<Longrightarrow> keeps c (h2_connection_refresh_conn_window c)"
  using keeps_push [OF conn_ok_recv_window, of c 65535 "window_update_frame 0 (refill (c_conn_recv_window c))"]
  by (auto simp: refresh_conn_window_eq keeps_def)

lemma refresh_stream_keeps: "conn_ok c \<Longrightarrow> i < 128 \<Longrightarrow> keeps c (h2_connection_refresh_stream_window c i)"
  using keeps_push [OF conn_ok_set_stream [of c i "(c_streams c ! i)\<lparr>s_recv_window := 65535\<rparr>"],
      of "window_update_frame (s_id (c_streams c ! i)) (refill (s_recv_window (c_streams c ! i)))"]
    conn_okD(3) [of c i]
  by (auto simp: refresh_stream_window_eq keeps_def slot_ok_recv_window)

lemma refresh_recv_keeps:
  assumes "conn_ok c" "\<And>i. p = Ptr i \<Longrightarrow> i < 128"
  shows "keeps c (h2_connection_refresh_recv_windows c p)"
  unfolding h2_connection_refresh_recv_windows_def
  by (rule keeps_bind [OF refresh_conn_keeps [OF assms(1)]])
     (auto split: ptr.splits intro: refresh_stream_keeps assms(2))

subsection \<open>Settings\<close>

lemma shift_send_windows_ok:
  "h2_connection_shift_send_windows d ss = (ret, ss') \<Longrightarrow> \<forall>s \<in> set ss. slot_ok s \<Longrightarrow>
     length ss' = length ss \<and> map s_id ss' = map s_id ss \<and> (\<forall>s \<in> set ss'. slot_ok s)"
  by (induction ss arbitrary: ret ss')
     (auto simp: Let_def slot_ok_def stream_ok_def deferred_ok_def not_less split: if_splits prod.splits)

lemma apply_setting_keeps:
  assumes "conn_ok c" "h2_connection_apply_setting c st = (ret, c')"
  shows "conn_ok c' \<and> c_input c' = c_input c"
proof -
  have slots: "\<forall>s \<in> set (c_streams c). slot_ok s"
    using assms(1) by (auto simp: conn_ok_def all_set_conv_all_nth)
  { fix d ss e
    assume "h2_connection_shift_send_windows d (c_streams c) = (e, ss)"
    from shift_send_windows_ok [OF this slots] assms(1) have "conn_ok (c\<lparr>c_streams := ss\<rparr>)"
      by (auto simp: conn_ok_def queue_ok_def) }
  note shifted = this
  have "conn_ok (c\<lparr>c_streams := ss, c_initial_stream_window := uint (st_value st)\<rparr>)"
    if "conn_ok (c\<lparr>c_streams := ss\<rparr>)" "\<not> uint (st_value st) > INT32_MAX" for ss
    using that by (simp add: conn_ok_def queue_ok_def)
  with assms shifted show ?thesis
    by (auto simp: h2_connection_apply_setting_def Let_def conn_ok_def queue_ok_def split: if_splits prod.splits)
qed

lemma apply_settings_loop_keeps:
  "conn_ok c \<Longrightarrow> h2_connection_apply_settings_loop c ss = (ret, c') \<Longrightarrow> conn_ok c' \<and> c_input c' = c_input c"
proof (induction ss arbitrary: c)
  case (Cons s ss)
  obtain e c1 where e: "h2_connection_apply_setting c s = (e, c1)" by fastforce
  from apply_setting_keeps [OF Cons.prems(1) this] Cons.IH [of c1] Cons.prems(2) e show ?case
    by (auto split: if_splits)
qed simp

lemma queue_settings_ack_keeps: "conn_ok c \<Longrightarrow> keeps c (h2_connection_queue_settings_ack c)"
  using keeps_push [of c settings_ack_frame] conn_okD(1) [of c] by (simp add: queue_settings_ack_eq)

lemma apply_settings_keeps:
  assumes "conn_ok c" "unat (fh_length h) \<le> length p"
  shows "keeps c (h2_connection_apply_settings c h p)"
proof -
  obtain ret ss' n' where r: "h2_frame_parse_settings (Ptr h) (Ptr p) (Ptr (replicate 32 local_setting)) 32 (Ptr 0) = Some (ret, Ptr ss', Ptr n')"
    "length ss' = 32" "ret = H2_OK \<longrightarrow> n' \<le> 32"
    using parse_settings_run [OF assms(2), of 32 "replicate 32 local_setting" 0] by auto
  obtain e c' where l: "h2_connection_apply_settings_loop c (take n' ss') = (e, c')" by fastforce
  from apply_settings_loop_keeps [OF assms(1) l] have "conn_ok c'" "c_input c' = c_input c" by auto
  with r l assms(1) queue_settings_ack_keeps [of c'] show ?thesis
    by (auto simp: h2_connection_apply_settings_def rd_block_in intro: keeps_trans)
qed

end
