(* ===== verification/Connection_Response.thy ===== *)
theory Connection_Response
  imports Connection_Invariant
begin

unbundle bit_operations_syntax

section \<open>The responses of a connection\<close>

text \<open>
  Closed forms of what the connection queues for a request: the header block of the response
  (\<open>response_block_eq\<close>), its HEADERS frame, its DATA frame or the deferral when a window is too small,
  and that each keeps the invariant.
\<close>

subsection \<open>The response header block\<close>

definition response_bytes :: "byte list \<Rightarrow> byte list" where
  "response_bytes cl =
     indexed_bytes 8 @ literal_bytes (lit ''content-type'') (lit ''text/plain'') @
     literal_bytes (lit ''content-length'') cl @ literal_bytes (lit ''server'') (lit ''c11-h2'')"

lemma at_offset_patch:
  assumes "f (Ptr (drop pos w)) = Some (length bs, Ptr (patch (drop pos w) 0 bs))" "pos + length bs \<le> length w"
  shows "at_offset w pos f = Some (length bs, patch w pos bs)"
  using assms by (simp add: at_offset_def patch_def add.commute)

lemma cstr_lit: "0 \<notin> set (lit s) \<Longrightarrow> cstr (lit s) = lit s"
  by (rule cstr_id)

lemma length_literal_bytes:
  "length nm < 127 \<Longrightarrow> length vl < 127 \<Longrightarrow> length (literal_bytes nm vl) = 3 + length nm + length vl"
  by (simp add: literal_bytes_def string_bytes_def integer_bytes_def prefix_max_def)

lemma indexed_bytes_8: "indexed_bytes 8 = [0x88]"
  by (simp add: indexed_bytes_def integer_bytes_def prefix_max_def)

lemma length_response_bytes: "length cl < 127 \<Longrightarrow> length (response_bytes cl) = 58 + length cl"
  by (simp add: response_bytes_def indexed_bytes_8 length_literal_bytes)

lemma encode_status: "512 \<le> length w \<Longrightarrow> h2_hpack_encode_indexed (Ptr w) 512 8 = Some (1, Ptr (patch w 0 [0x88]))"
  using encode_integer_eq [of 7 512 w "0x80" 8] static_get_cases [of 8]
  by (auto simp: h2_hpack_encode_indexed_def integer_bytes_def prefix_max_def h2_hpack_static_get_def
      H2_HPACK_STATIC_TABLE_LEN_def)

lemma literal_at:
  assumes "pos + length (literal_bytes nm vl) \<le> 512" "length w = 512" "cstr nm = nm" "cstr vl = vl"
    "length nm < 127" "length vl < 127"
  shows "at_offset w pos (\<lambda>q. h2_hpack_encode_literal_new_name q (512 - pos) (Ptr nm) (Ptr vl)) =
     Some (length (literal_bytes nm vl), patch w pos (literal_bytes nm vl))"
proof (rule at_offset_patch)
  show "h2_hpack_encode_literal_new_name (Ptr (drop pos w)) (512 - pos) (Ptr nm) (Ptr vl) =
      Some (length (literal_bytes nm vl), Ptr (patch (drop pos w) 0 (literal_bytes nm vl)))"
    using encode_literal_eq [of nm vl "512 - pos" "drop pos w"] assms
    by (simp add: UINT32_MAX_def less_imp_diff_less)
qed (use assms in simp)

lemma literal_nonempty [simp]: "literal_bytes nm vl \<noteq> []"
  by (simp add: literal_bytes_def)

lemma response_block_eq:
  assumes "0 \<notin> set cl" "length cl < 32"
  shows "h2_connection_response_block cl =
    Some (length (response_bytes cl), patch (local_array 512) 0 (response_bytes cl))"
proof -
  let ?a = "literal_bytes (lit ''content-type'') (lit ''text/plain'')"
  let ?b = "literal_bytes (lit ''content-length'') cl"
  let ?c = "literal_bytes (lit ''server'') (lit ''c11-h2'')"
  have z: "cstr (lit ''content-type'') = lit ''content-type''" "cstr (lit ''text/plain'') = lit ''text/plain''"
    "cstr (lit ''content-length'') = lit ''content-length''" "cstr (lit ''server'') = lit ''server''"
    "cstr (lit ''c11-h2'') = lit ''c11-h2''" "cstr cl = cl"
    using assms(1) by (simp_all add: cstr_id lit_def)
  have l: "length ?a = 25" "length ?b = 17 + length cl" "length ?c = 15"
    using assms(2) by (simp_all add: length_literal_bytes)
  define w1 where "w1 = patch (local_array 512) 0 [0x88 :: byte]"
  define w2 where "w2 = patch w1 1 ?a"
  define w3 where "w3 = patch w2 26 ?b"
  have w: "length w1 = 512" "length w2 = 512" "length w3 = 512"
    using l assms(2) by (simp_all add: w1_def w2_def w3_def)
  have s1: "at_offset (local_array 512) 0 (\<lambda>q. h2_hpack_encode_indexed q 512 8) = Some (1, w1)"
    using encode_status [of "local_array 512"] by (simp add: at_offset_def w1_def)
  have s2: "at_offset w1 1 (\<lambda>q. h2_hpack_encode_literal_new_name q (512 - 1) (Ptr (lit ''content-type'')) (Ptr (lit ''text/plain''))) = Some (25, w2)"
    using literal_at [of 1 "lit ''content-type''" "lit ''text/plain''" w1] z l w by (simp add: w2_def)
  have s3: "at_offset w2 26 (\<lambda>q. h2_hpack_encode_literal_new_name q (512 - 26) (Ptr (lit ''content-length'')) (Ptr cl)) = Some (17 + length cl, w3)"
    using literal_at [of 26 "lit ''content-length''" cl w2] z l w assms(2) by (simp add: w3_def)
  have s4: "at_offset w3 (43 + length cl) (\<lambda>q. h2_hpack_encode_literal_new_name q (512 - (43 + length cl)) (Ptr (lit ''server'')) (Ptr (lit ''c11-h2''))) =
      Some (15, patch w3 (43 + length cl) ?c)"
    using literal_at [of "43 + length cl" "lit ''server''" "lit ''c11-h2''" w3] z l w assms(2) by simp
  have "patch w3 (43 + length cl) ?c = patch (local_array 512) 0 (response_bytes cl)"
    using l assms(2) by (simp add: w3_def w2_def w1_def patch_patch response_bytes_def indexed_bytes_8)
  then show ?thesis
    using s1 s2 s3 s4 assms(2)
    by (simp add: h2_connection_response_block_def Let_def length_response_bytes)
qed

subsection \<open>The two frames of a response\<close>

definition response_headers_frame :: "u32 \<Rightarrow> byte list \<Rightarrow> byte list" where
  "response_headers_frame sid cl = frame_bytes H2_FRAME_HEADERS H2_FLAG_END_HEADERS sid (response_bytes cl)"

definition response_data_frame :: "u32 \<Rightarrow> byte list \<Rightarrow> byte list" where
  "response_data_frame sid body = frame_bytes H2_FRAME_DATA H2_FLAG_END_STREAM sid body"

lemma queue_response_headers_eq:
  assumes "conn_ok c" "i < 128" "s = c_streams c ! i" "s_id s \<noteq> 0" "0 \<notin> set cl" "length cl < 32"
  shows "h2_connection_queue_response_headers c i cl =
    Some (if s_response_headers_sent s then (H2_OK, c)
          else case push c (response_headers_frame (s_id s) cl) of
            (ret, c') \<Rightarrow> (ret, if ret = H2_OK then set_stream c' i (s\<lparr>s_response_headers_sent := True\<rparr>) else c'))"
proof -
  have rdi: "rd (c_streams c) i = Some s"
    using conn_okD(2) [OF assms(1)] assms(2,3) by (simp add: rd_in)
  let ?n = "length (response_bytes cl)" and ?f = "response_headers_frame (s_id s) cl"
  have n: "?n = 58 + length cl" using assms(6) by (simp add: length_response_bytes)
  have t: "take ?n (patch (local_array 512) 0 (response_bytes cl)) = response_bytes cl"
    using n assms(6) by (simp add: take_patch)
  have "h2_frame_encode_headers (Ptr (local_array 1033)) 1033 (s_id s) H2_FLAG_END_HEADERS
      (Ptr (patch (local_array 512) 0 (response_bytes cl))) ?n = Some (9 + ?n, Ptr (patch (local_array 1033) 0 ?f))"
    using assms(4,6) n t
    by (simp add: h2_frame_encode_headers_def encode_raw_eq H2_MAX_FRAME_SIZE_def response_headers_frame_def)
  moreover have "h2_connection_queue_bytes c (Ptr (patch (local_array 1033) 0 ?f)) (9 + ?n) = Some (push c ?f)"
    using conn_okD(1) [OF assms(1)] assms(6) n
    by (simp add: queue_bytes_eq take_patch response_headers_frame_def)
  ultimately show ?thesis
    using rdi n push_cases [of c ?f] response_block_eq [OF assms(5,6)]
    by (auto simp: h2_connection_queue_response_headers_def H2_FRAME_HEADER_LEN_def)
qed

lemma send_end_stream_total: "\<exists>e t. h2_stream_send_end_stream (Ptr s) = (e, Ptr t)"
  by (simp add: h2_stream_send_end_stream_def)

lemma queue_deferred_data_eq:
  assumes "conn_ok c" "i < 128" "s = c_streams c ! i" "s_id s \<noteq> 0" "0 < length body" "length body \<le> 1024"
  shows "h2_connection_queue_deferred_data c i body (length body) =
    Some (if c_conn_send_window c < int (length body) \<or> s_send_window s < int (length body)
          then (H2_OK, set_stream c i (s\<lparr>s_response_body_deferred := True\<rparr>))
          else case push c (response_data_frame (s_id s) body) of
            (ret, c') \<Rightarrow>
              if ret \<noteq> H2_OK then (ret, c')
              else case h2_stream_send_end_stream (Ptr (s\<lparr>s_send_window := s_send_window s - int (length body),
                      s_response_body_deferred := False, s_response_sent := True\<rparr>)) of
                (ret, p) \<Rightarrow> (ret, set_stream (c'\<lparr>c_conn_send_window := c_conn_send_window c - int (length body),
                                               c_responses_sent := c_responses_sent c + 1\<rparr>) i
                                 (case p of Ptr t \<Rightarrow> t | NULL \<Rightarrow> s)))"
proof -
  have s: "rd (c_streams c) i = Some s" "stream_ok s"
    using conn_okD(2,3) [OF assms(1)] assms(2,3) by (auto simp: rd_in slot_ok_def)
  let ?f = "response_data_frame (s_id s) body" and ?n = "int (length body)"
  have "h2_frame_encode_data (Ptr (local_array 1033)) 1033 (s_id s) H2_FLAG_END_STREAM (Ptr body) (length body) =
      Some (9 + length body, Ptr (patch (local_array 1033) 0 ?f))"
    using enc_data.encodes [of "(s_id s, H2_FLAG_END_STREAM, body)" 1033 "local_array 1033"] assms(4,6)
    by (simp add: H2_MAX_FRAME_SIZE_def response_data_frame_def)
  moreover have "h2_connection_queue_bytes c (Ptr (patch (local_array 1033) 0 ?f)) (9 + length body) = Some (push c ?f)"
    using conn_okD(1) [OF assms(1)] assms(6) by (simp add: queue_bytes_eq take_patch response_data_frame_def)
  moreover have "cast_i32 ?n = ?n"
    using assms(6) by (intro cast_i32_nonneg) (simp_all add: INT32_MAX_def)
  moreover have "\<not> s_send_window s < ?n \<Longrightarrow> i32 (s_send_window s - ?n) = Some (s_send_window s - ?n)"
    using s(2) by (intro i32_in_range) (auto simp: stream_ok_def INT32_MIN_def)
  moreover have "\<not> c_conn_send_window c < ?n \<Longrightarrow> i32 (c_conn_send_window c - ?n) = Some (c_conn_send_window c - ?n)"
    using conn_okD(9,10) [OF assms(1)] by (intro i32_in_range) (auto simp: INT32_MIN_def)
  moreover obtain e t where "h2_stream_send_end_stream (Ptr (s\<lparr>s_send_window := s_send_window s - ?n,
       s_response_body_deferred := False, s_response_sent := True\<rparr>)) = (e, Ptr t)"
    using send_end_stream_total by blast
  ultimately show ?thesis
    using s(1) push_cases [of c ?f]
    by (auto simp: h2_connection_queue_deferred_data_def H2_FRAME_HEADER_LEN_def Let_def)
qed

lemma send_end_stream_slot:
  assumes "slot_ok s" "h2_stream_send_end_stream (Ptr s) = (ret, Ptr t)" "\<not> s_response_body_deferred s"
  shows "slot_ok t \<and> s_id t = s_id s"
  using assms by (auto simp: h2_stream_send_end_stream_def slot_ok_def deferred_ok_def split: if_splits)

lemma queue_response_headers_keeps:
  assumes "conn_ok c" "i < 128" "s_id (c_streams c ! i) \<noteq> 0" "0 \<notin> set cl" "length cl < 32"
  shows "keeps c (h2_connection_queue_response_headers c i cl)"
proof -
  let ?s = "c_streams c ! i"
  have "slot_ok (?s\<lparr>s_response_headers_sent := True\<rparr>)"
    using conn_okD(3) [OF assms(1,2)] by (simp add: slot_ok_def deferred_ok_def)
  moreover obtain e c' where p: "push c (response_headers_frame (s_id ?s) cl) = (e, c')" by fastforce
  ultimately show ?thesis
    using conn_ok_push [OF assms(1), of "response_headers_frame (s_id ?s) cl"] assms(1,2)
      push_streams [of c "response_headers_frame (s_id ?s) cl"]
      conn_ok_set_stream [of c' i "?s\<lparr>s_response_headers_sent := True\<rparr>"]
    by (simp add: queue_response_headers_eq [OF assms(1,2) refl assms(3-5)] p)
qed

lemma queue_deferred_data_keeps:
  assumes "conn_ok c" "i < 128" "s_id (c_streams c ! i) \<noteq> 0" "0 < length body" "length body \<le> 1024"
    and "s_state (c_streams c ! i) = H2_STREAM_STATE_OPEN \<or> s_state (c_streams c ! i) = H2_STREAM_STATE_HALF_CLOSED_REMOTE"
  shows "keeps c (h2_connection_queue_deferred_data c i body (length body))"
proof -
  let ?s = "c_streams c ! i" and ?f = "response_data_frame (s_id (c_streams c ! i)) body" and ?n = "int (length body)"
  note s = conn_okD(3) [OF assms(1,2)]
  have "slot_ok (?s\<lparr>s_response_body_deferred := True\<rparr>)"
    using s assms(6) by (simp add: slot_ok_def deferred_ok_def)
  then have "conn_ok (set_stream c i (?s\<lparr>s_response_body_deferred := True\<rparr>))"
    using assms(1,2) by (intro conn_ok_set_stream) simp_all
  moreover have "keeps c (Some (case h2_stream_send_end_stream (Ptr (?s\<lparr>s_send_window := s_send_window ?s - ?n,
                      s_response_body_deferred := False, s_response_sent := True\<rparr>)) of
                (ret, p) \<Rightarrow> (ret, set_stream (c'\<lparr>c_conn_send_window := c_conn_send_window c - ?n,
                                               c_responses_sent := c_responses_sent c + 1\<rparr>) i
                                 (case p of Ptr t \<Rightarrow> t | NULL \<Rightarrow> ?s))))"
    if c': "push c ?f = (H2_OK, c')" and room: "?n \<le> c_conn_send_window c" "?n \<le> s_send_window ?s" for c'
  proof -
    let ?t = "?s\<lparr>s_send_window := s_send_window ?s - ?n, s_response_body_deferred := False, s_response_sent := True\<rparr>"
    have "slot_ok ?t" using s room(2) by (auto simp: slot_ok_def deferred_ok_def stream_ok_def INT32_MIN_def)
    moreover obtain e t where t: "h2_stream_send_end_stream (Ptr ?t) = (e, Ptr t)"
      using send_end_stream_total by blast
    ultimately have "slot_ok t" "s_id t = s_id ?s" using send_end_stream_slot [of ?t e t] by simp_all
    moreover have "conn_ok (c'\<lparr>c_conn_send_window := c_conn_send_window c - ?n\<rparr>)" "c_input c' = c_input c" "c_streams c' = c_streams c"
      using conn_ok_push [OF assms(1), of ?f] c' room(1) conn_okD(10) [OF assms(1)] push_streams [of c ?f]
      by (simp_all add: conn_ok_send_window)
    ultimately show ?thesis
      using conn_ok_set_stream [of "c'\<lparr>c_conn_send_window := c_conn_send_window c - ?n, c_responses_sent := c_responses_sent c + 1\<rparr>" i t] assms(2) t
      by simp
  qed
  ultimately show ?thesis
    using conn_ok_push [OF assms(1), of ?f]
    by (cases "push c ?f") (auto simp: queue_deferred_data_eq [OF assms(1,2) refl assms(3-5)] not_less)
qed

lemma decimal_digits: "0 \<notin> set (decimal n)"
proof (induction n rule: decimal.induct)
  case (1 n)
  have digit: "(of_nat (48 + d) :: byte) \<noteq> 0" if "d < 10" for d
  proof -
    have "unat (of_nat (48 + d) :: byte) = 48 + d"
      using that by (intro unat_of_nat_u8) simp
    then show ?thesis by (metis add_is_0 unat_0 zero_neq_numeral)
  qed
  from 1 digit [of n] digit [of "n mod 10"] show ?case
    by (cases "n < 10") (simp_all add: decimal.simps [of n])
qed

lemma length_decimal: "n < 10 ^ k \<Longrightarrow> 1 \<le> k \<Longrightarrow> length (decimal n) \<le> k"
proof (induction k arbitrary: n)
  case (Suc k)
  show ?case
  proof (cases "n < 10")
    case False
    with Suc.prems have "k \<noteq> 0" by (cases k) auto
    moreover have "n div 10 < 10 ^ k" using Suc.prems by (simp add: less_mult_imp_div_less mult.commute)
    ultimately show ?thesis using Suc.IH [of "n div 10"] False by (simp add: decimal.simps [of n])
  qed (simp add: decimal.simps)
qed simp

subsection \<open>A response\<close>

definition awaiting :: "h2_stream \<Rightarrow> bool" where
  "awaiting s \<longleftrightarrow> s_id s \<noteq> 0 \<and>
     (s_state s = H2_STREAM_STATE_OPEN \<or> s_state s = H2_STREAM_STATE_HALF_CLOSED_REMOTE)"

lemma queue_response_headers_stream:
  assumes "conn_ok c" "i < 128" "s_id (c_streams c ! i) \<noteq> 0" "0 \<notin> set cl" "length cl < 32"
    and "h2_connection_queue_response_headers c i cl = Some (ret, c')"
  shows "c_streams c' = c_streams c \<or>
    c_streams c' = (c_streams c)[i := (c_streams c ! i)\<lparr>s_response_headers_sent := True\<rparr>]"
proof -
  let ?f = "response_headers_frame (s_id (c_streams c ! i)) cl"
  obtain e c1 where p: "push c ?f = (e, c1)" by fastforce
  then have "c_streams c1 = c_streams c" using push_streams [of c ?f] by simp
  with assms(6) p show ?thesis
    by (auto simp: queue_response_headers_eq [OF assms(1,2) refl assms(3-5)] split: if_splits)
qed

text \<open>The body of the response to a path.\<close>

definition response_body :: "byte list \<Rightarrow> byte list" where
  "response_body path = (if cstr path = [] then lit ''/'' else cstr path) @ [10]"

lemma response_body:
  assumes "length path < 256"
  shows "0 < length (response_body path)" "length (response_body path) < 320" "length (decimal (length (response_body path))) < 32"
proof -
  show l: "0 < length (response_body path)" "length (response_body path) < 320"
    using length_cstr [of path] assms by (simp_all add: response_body_def)
  then show "length (decimal (length (response_body path))) < 32"
    using length_decimal [of "length (response_body path)" 3] by simp
qed

lemma queue_response_eq:
  assumes "conn_ok c" "i < 128" "s = c_streams c ! i"
  shows "h2_connection_queue_response c i =
    (if s_response_sent s then Some (H2_OK, c)
     else do {
       (ret, c) \<leftarrow> h2_connection_queue_response_headers
          (set_stream c i (if cstr (s_path s) = [] then s\<lparr>s_path := lit ''/''\<rparr> else s)) i
          (decimal (length (response_body (s_path s))));
       if ret \<noteq> H2_OK then Some (ret, c)
       else h2_connection_queue_deferred_data c i (response_body (s_path s)) (length (response_body (s_path s)))
     })"
proof -
  have s: "rd (c_streams c) i = Some s" "length (s_path s) < 256"
    using conn_okD(2,3) [OF assms(1)] assms(2,3)
    by (auto simp: rd_in slot_ok_def stream_ok_def H2_STREAM_PATH_CAP_def)
  define t where "t = (if cstr (s_path s) = [] then s\<lparr>s_path := lit ''/''\<rparr> else s)"
  have b: "cstr (s_path t) @ [10] = response_body (s_path s)"
    by (simp add: t_def response_body_def cstr_id lit_def)
  show ?thesis
    using response_body [OF s(2)]
    unfolding h2_connection_queue_response_def s(1) Option.bind.bind_lunit Let_def t_def [symmetric] b by simp
qed

lemma queue_response_keeps:
  assumes "conn_ok c" "i < 128" "awaiting (c_streams c ! i)"
  shows "keeps c (h2_connection_queue_response c i)"
proof (cases "s_response_sent (c_streams c ! i)")
  case True
  then show ?thesis using assms by (simp add: queue_response_eq)
next
  case False
  let ?s = "c_streams c ! i" and ?body = "response_body (s_path (c_streams c ! i))"
  let ?cl = "decimal (length ?body)"
  define t where "t = (if cstr (s_path ?s) = [] then ?s\<lparr>s_path := lit ''/''\<rparr> else ?s)"
  note s = conn_okD(3) [OF assms(1,2)]
  then have path: "length (s_path ?s) < 256" by (simp add: slot_ok_def stream_ok_def H2_STREAM_PATH_CAP_def)
  have t: "slot_ok t" "s_id t = s_id ?s" "s_state t = s_state ?s"
    using s by (auto simp: t_def slot_ok_def stream_ok_def deferred_ok_def H2_STREAM_PATH_CAP_def lit_def)
  let ?c = "set_stream c i t"
  have c: "conn_ok ?c" using t assms(1,2) by (intro conn_ok_set_stream) simp_all
  have i: "c_streams ?c ! i = t" using assms(2) conn_okD(2) [OF assms(1)] by simp
  have id: "s_id (c_streams ?c ! i) \<noteq> 0" "awaiting (c_streams ?c ! i)"
    using assms(3) t(2,3) unfolding i by (simp_all add: awaiting_def)
  have "keeps ?c (h2_connection_queue_response_headers ?c i ?cl)"
    using c assms(2) id(1) decimal_digits response_body(3) [OF path] by (rule queue_response_headers_keeps)
  then have "keeps ?c (do {
       (ret, c) \<leftarrow> h2_connection_queue_response_headers ?c i ?cl;
       if ret \<noteq> H2_OK then Some (ret, c)
       else h2_connection_queue_deferred_data c i ?body (length ?body)
     })"
  proof (rule keeps_bind)
    fix ret c'
    assume r: "h2_connection_queue_response_headers ?c i ?cl = Some (ret, c')" and c': "conn_ok c'"
    have "awaiting (c_streams c' ! i)"
      using queue_response_headers_stream [OF c assms(2) id(1) decimal_digits response_body(3) [OF path] r]
        id(2) assms(2) conn_okD(2) [OF c] by (elim disjE) (simp_all add: awaiting_def)
    then have "keeps c' (h2_connection_queue_deferred_data c' i ?body (length ?body))"
      using response_body(1,2) [OF path] c' assms(2)
      by (intro queue_deferred_data_keeps) (auto simp: awaiting_def)
    then show "keeps c' (case (ret, c') of (ret, c) \<Rightarrow> if ret \<noteq> H2_OK then Some (ret, c)
       else h2_connection_queue_deferred_data c i ?body (length ?body))"
      using c' by simp
  qed
  then have "keeps c (do {
       (ret, c) \<leftarrow> h2_connection_queue_response_headers ?c i ?cl;
       if ret \<noteq> H2_OK then Some (ret, c)
       else h2_connection_queue_deferred_data c i ?body (length ?body)
     })"
    by (rule keeps_trans) simp
  then show ?thesis using False by (simp add: queue_response_eq [OF assms(1,2) refl] t_def)
qed

lemma flush_deferred_loop_keeps:
  "conn_ok c \<Longrightarrow> pos + n \<le> 128 \<Longrightarrow> keeps c (h2_connection_flush_deferred_responses_loop c pos n)"
proof (induction n arbitrary: pos c)
  case (Suc n)
  let ?s = "c_streams c ! pos"
  have s: "rd (c_streams c) pos = Some ?s" "deferred_ok ?s"
    using conn_okD(2) [OF Suc.prems(1)] conn_okD(3) [OF Suc.prems(1), of pos] Suc.prems(2) by (auto simp: rd_in slot_ok_def)
  show ?case
  proof (cases "s_id ?s \<noteq> 0 \<and> s_state ?s \<noteq> H2_STREAM_STATE_CLOSED \<and> s_response_body_deferred ?s")
    case True
    then have "awaiting ?s" using s(2) by (auto simp: awaiting_def deferred_ok_def)
    then have "keeps c (h2_connection_queue_response c pos)"
      using Suc.prems by (intro queue_response_keeps) simp_all
    then have "keeps c (do {
       (ret, c) \<leftarrow> h2_connection_queue_response c pos;
       if ret \<noteq> H2_OK then Some (ret, c)
       else h2_connection_flush_deferred_responses_loop c (Suc pos) n })"
      by (rule keeps_bind) (use Suc in simp)
    with True s(1) show ?thesis by simp
  next
    case False
    then show ?thesis using Suc s(1) by auto
  qed
qed simp

lemma flush_deferred_keeps: "conn_ok c \<Longrightarrow> keeps c (h2_connection_flush_deferred_responses c)"
  by (simp add: h2_connection_flush_deferred_responses_def flush_deferred_loop_keeps h2_consts)

end
