(* ===== verification/Connection_Safety.thy ===== *)
theory Connection_Safety
  imports Connection_Response
begin

unbundle bit_operations_syntax

section \<open>Memory safety of a connection\<close>

text \<open>
  Every handler, the dispatcher, the feed loop and the draining functions are defined and keep
  \<open>conn_ok\<close>, for arbitrary received bytes. The loop ends because every iteration takes at least one
  frame header off the input.
\<close>

subsection \<open>Header blocks\<close>

lemma slot_ok_path: "slot_ok s \<Longrightarrow> length p < 256 \<Longrightarrow> slot_ok (s\<lparr>s_path := p\<rparr>)"
  by (simp add: slot_ok_def stream_ok_def deferred_ok_def H2_STREAM_PATH_CAP_def)

lemma receive_headers_fresh:
  assumes "s_state s = H2_STREAM_STATE_IDLE" "\<not> s_response_body_deferred s"
  shows "\<exists>t. h2_stream_receive_headers (Ptr s) fin = (H2_OK, Ptr t) \<and> s_id t = s_id s \<and> s_path t = s_path s \<and>
     (s_id s \<noteq> 0 \<longrightarrow> awaiting t) \<and> (slot_ok s \<longrightarrow> slot_ok t)"
  using assms by (simp add: h2_stream_receive_headers_def awaiting_def slot_ok_def deferred_ok_def)

lemma path_run: "len \<le> length b \<Longrightarrow> len < 2 ^ 63 \<Longrightarrow>
  \<exists>ret path. h2_hpack_extract_path (Ptr b) len (Ptr p0) H2_STREAM_PATH_CAP = Some (ret, Ptr path) \<and> length path < 256"
  using path_run.total [of "(b, len, 256)" "[]" 0] by (auto simp: h2_hpack_extract_path_def H2_STREAM_PATH_CAP_def)

lemma finish_headers_keeps:
  assumes "conn_ok c" "len \<le> length b" "len < 2 ^ 63"
  shows "keeps c (h2_connection_finish_headers c sid fl b len)"
proof (cases "sid AND 1 = 0 \<or> sid \<le> c_last_stream_id c")
  case True
  then show ?thesis using assms(1) by (auto simp: h2_connection_finish_headers_def)
next
  case False
  then have sid: "c_last_stream_id c < sid" "sid AND 1 \<noteq> 0" by auto
  then have nz: "sid \<noteq> 0" by auto
  obtain p c1 where g: "h2_connection_get_stream c sid = (p, c1)" by fastforce
  show ?thesis
  proof (cases p)
    case NULL
    then have "c1 = c" using g by (auto simp: h2_connection_get_stream_def split: ptr.splits)
    then show ?thesis using False NULL g assms(1) by (simp add: h2_connection_finish_headers_def)
  next
    case (Ptr i)
    let ?c = "c1\<lparr>c_last_stream_id := sid\<rparr>" and ?s = "c_streams c1 ! i"
    note g' = get_stream_keeps [OF assms(1) sid g [unfolded Ptr]]
    have len: "length (c_streams c1) = 128" using conn_okD(2) [OF g'(2)] by simp
    have s: "s_id ?s = sid" "s_state ?s = H2_STREAM_STATE_IDLE" "\<not> s_response_body_deferred ?s"
      by (simp_all add: g'(4) h2_stream_init_def zero_stream_def)
    have slot: "slot_ok ?s" using conn_okD(3) [OF g'(2) g'(1)] by simp
    obtain ret path where x: "h2_hpack_extract_path (Ptr b) len (Ptr (s_path ?s)) H2_STREAM_PATH_CAP = Some (ret, Ptr path)"
      "length path < 256" using path_run [OF assms(2,3)] by blast
    let ?t = "?s\<lparr>s_path := path\<rparr>"
    obtain u where u: "h2_stream_receive_headers (Ptr ?t) (fl AND H2_FLAG_END_STREAM \<noteq> 0) = (H2_OK, Ptr u)"
      "s_id u = sid" "awaiting u" "slot_ok u"
      using receive_headers_fresh [of ?t "fl AND H2_FLAG_END_STREAM \<noteq> 0"] s slot nz slot_ok_path [OF slot x(2)] by auto
    have t: "conn_ok (set_stream ?c i ?t)" "conn_ok (set_stream ?c i u)"
      using conn_ok_set_stream [OF g'(2,1) slot_ok_path [OF slot x(2)]] conn_ok_set_stream [OF g'(2,1) u(4)] s(1) u(2) by simp_all
    have r: "keeps c (h2_connection_queue_response (set_stream ?c i u) i)"
      using queue_response_keeps [OF t(2) g'(1)] u(3) len g'(1,3) by (auto intro: keeps_trans)
    have "keeps c (Some (ret, set_stream ?c i ?t))" using t(1) g'(3) by simp
    then show ?thesis
      using False g Ptr len g'(1) x(1) u(1) r by (simp add: h2_connection_finish_headers_def rd_in Let_def)
  qed
qed

lemma append_header_block_keeps:
  assumes "conn_ok c" "n \<le> length b"
  shows "keeps c (h2_connection_append_header_block c b n)"
  using assms conn_okD(6) [OF assms(1)]
  by (auto simp: h2_connection_append_header_block_def rd_block_in append_within_in H2_CONN_HEADER_BLOCK_CAP_def
      intro!: conn_ok_header_block)

lemma parsed_block:
  assumes "unat (fh_length h) \<le> length p"
  shows "\<exists>ret hp. h2_frame_parse_headers (Ptr h) (Ptr p) (Ptr local_headers_payload) = Some (ret, Ptr hp) \<and>
     (ret = H2_OK \<longrightarrow> hp_header_block_len hp \<le> length (hp_header_block hp) \<and> hp_header_block_len hp < 2 ^ 63)"
proof -
  obtain ret hp where r: "h2_frame_parse_headers (Ptr h) (Ptr p) (Ptr local_headers_payload) = Some (ret, Ptr hp)"
     "ret = H2_OK \<longrightarrow> hp_header_block hp = drop (pad_field (fh_flags h) + priority_field hp) p \<and>
        pad_field (fh_flags h) + priority_field hp + hp_header_block_len hp + unat (hp_pad_len hp) = unat (fh_length h)"
    using parse_headers_run [OF assms, of local_headers_payload] by blast
  have "hp_header_block_len hp \<le> length (hp_header_block hp) \<and> hp_header_block_len hp < 2 ^ 63" if "ret = H2_OK"
    using r(2) that assms unat_u32_less [of "fh_length h"] by auto
  with r(1) show ?thesis by blast
qed

lemma process_headers_keeps:
  assumes "conn_ok c" "unat (fh_length h) \<le> length p"
  shows "keeps c (h2_connection_process_headers c h p)"
proof -
  obtain ret hp where r: "h2_frame_parse_headers (Ptr h) (Ptr p) (Ptr local_headers_payload) = Some (ret, Ptr hp)"
     "ret = H2_OK \<Longrightarrow> hp_header_block_len hp \<le> length (hp_header_block hp)"
     "ret = H2_OK \<Longrightarrow> hp_header_block_len hp < 2 ^ 63"
    using parsed_block [OF assms(2)] by blast
  let ?c = "c\<lparr>c_header_block_open := True, c_header_block_stream_id := fh_stream_id h,
                   c_header_block_flags := fh_flags h, c_header_block := []\<rparr>"
  have "conn_ok ?c" using assms(1) by (simp add: conn_ok_header_block)
  then have "ret = H2_OK \<Longrightarrow> keeps c (h2_connection_append_header_block ?c (hp_header_block hp) (hp_header_block_len hp))"
    using r(2) by (intro keeps_trans [OF append_header_block_keeps]) simp_all
  with r assms(1) finish_headers_keeps show ?thesis
    by (simp add: h2_connection_process_headers_def)
qed

lemma append_header_block_block:
  "h2_connection_append_header_block c b n = Some (ret, c') \<Longrightarrow>
     c_header_block_open c' = c_header_block_open c \<and> c_header_block_stream_id c' = c_header_block_stream_id c \<and>
     c_header_block_flags c' = c_header_block_flags c"
  by (auto simp: h2_connection_append_header_block_def run_iff split: if_splits)

lemma process_continuation_keeps:
  assumes "conn_ok c" "unat (fh_length h) \<le> length p"
  shows "keeps c (h2_connection_process_continuation c h p)"
proof (cases "\<not> c_header_block_open c \<or> fh_stream_id h \<noteq> c_header_block_stream_id c")
  case True
  then show ?thesis using assms(1) by (auto simp: h2_connection_process_continuation_def)
next
  case open_block: False
  show ?thesis
  proof (cases "fh_type h \<noteq> H2_FRAME_CONTINUATION \<or> h2_frame_validate_payload (Ptr h) \<noteq> H2_OK")
    case True
    then show ?thesis
      using open_block assms(1) by (auto simp: h2_connection_process_continuation_def h2_frame_parse_continuation_def)
  next
    case False
    have "keeps c (h2_connection_append_header_block c p (unat (fh_length h)))"
      using assms by (rule append_header_block_keeps)
    then have "keeps c (do {
        (ret, conn) \<leftarrow> h2_connection_append_header_block c p (unat (fh_length h));
        if ret \<noteq> H2_OK then Some (ret, conn)
        else if fh_flags h AND H2_FLAG_END_HEADERS = 0 then Some (H2_OK, conn)
        else
          h2_connection_finish_headers (conn\<lparr>c_header_block_open := False\<rparr>)
            (c_header_block_stream_id conn) (c_header_block_flags conn)
            (c_header_block conn) (length (c_header_block conn))
      })"
    proof (rule keeps_bind)
      fix ret c'
      assume c': "conn_ok c'"
      have "keeps c' (h2_connection_finish_headers (c'\<lparr>c_header_block_open := False\<rparr>)
            (c_header_block_stream_id c') (c_header_block_flags c') (c_header_block c') (length (c_header_block c')))"
        using c' conn_okD(6) [OF c'] by (intro keeps_trans [OF finish_headers_keeps]) simp_all
      with c' show "keeps c' (case (ret, c') of (ret, conn) \<Rightarrow> if ret \<noteq> H2_OK then Some (ret, conn)
        else if fh_flags h AND H2_FLAG_END_HEADERS = 0 then Some (H2_OK, conn)
        else h2_connection_finish_headers (conn\<lparr>c_header_block_open := False\<rparr>)
            (c_header_block_stream_id conn) (c_header_block_flags conn)
            (c_header_block conn) (length (c_header_block conn)))" by simp
    qed
    then show ?thesis
      using open_block False by (simp add: h2_connection_process_continuation_def h2_frame_parse_continuation_def)
  qed
qed

subsection \<open>Data and flow control\<close>

lemma recv_window_size: "conn_ok c \<Longrightarrow> cast_size (c_conn_recv_window c) = nat (c_conn_recv_window c)"
  using conn_okD(7,8) [of c] by (intro cast_size_id) simp_all

text \<open>The subtraction from the connection's window, when the frame fits it.\<close>

lemma recv_window_charge:
  assumes "conn_ok c" "\<not> cast_size (c_conn_recv_window c) < unat (n :: u32)"
  shows "i32 (c_conn_recv_window c - cast_i32 (uint n)) = Some (c_conn_recv_window c - int (unat n))"
    "conn_ok (c\<lparr>c_conn_recv_window := c_conn_recv_window c - int (unat n)\<rparr>)" "unat n \<le> 65535"
proof -
  have w: "0 \<le> c_conn_recv_window c" "c_conn_recv_window c \<le> 65535" using conn_okD(7,8) [OF assms(1)] by simp_all
  have n: "int (unat n) \<le> c_conn_recv_window c"
    using assms(2) w by (simp add: recv_window_size [OF assms(1)] not_less le_nat_iff del: int_nat_eq)
  then show "unat n \<le> 65535" using w by linarith
  have z: "0 \<le> int (unat n)" by simp
  have u: "0 \<le> c_conn_recv_window c - int (unat n)" "c_conn_recv_window c - int (unat n) \<le> 65535"
    using n w z by linarith+
  moreover have "cast_i32 (int (unat n)) = int (unat n)"
    using n w by (intro cast_i32_nonneg) (simp_all add: INT32_MAX_def)
  ultimately show "i32 (c_conn_recv_window c - cast_i32 (uint n)) = Some (c_conn_recv_window c - int (unat n))"
    "conn_ok (c\<lparr>c_conn_recv_window := c_conn_recv_window c - int (unat n)\<rparr>)"
    using assms(1) by (auto simp: i32_def c_limits intro!: conn_ok_recv_window)
qed

lemma receive_data_slot:
  assumes "slot_ok s" "n \<le> 65535"
  shows "\<exists>ret t. h2_stream_receive_data (Ptr s) n fin = Some (ret, Ptr t) \<and> slot_ok t \<and> s_id t = s_id s"
proof -
  have "\<exists>ret t. stream_apply (Receive_data n fin) (Ptr s) = Some (ret, Ptr t) \<and> stream_ok t \<and> s_id t = s_id s"
    using stream_apply_ok [of s "Receive_data n fin"] assms(1) by (auto simp: slot_ok_def)
  then obtain ret t where r: "h2_stream_receive_data (Ptr s) n fin = Some (ret, Ptr t)" "stream_ok t" "s_id t = s_id s"
    by auto
  moreover have "deferred_ok t"
    using r(1) assms by (cases "s_state s") (auto simp: receive_data_cases slot_ok_def deferred_ok_def INT32_MAX_def split: if_splits)
  ultimately show ?thesis by (auto simp: slot_ok_def)
qed

lemma process_data_keeps:
  assumes "conn_ok c" "unat (fh_length h) \<le> length p"
  shows "keeps c (h2_connection_process_data c h p)"
proof -
  obtain ret dp where r: "h2_frame_parse_data (Ptr h) (Ptr p) (Ptr local_data_payload) = Some (ret, Ptr dp)"
    using parse_data_run [OF assms(2), of local_data_payload] by blast
  show ?thesis
  proof (cases "ret \<noteq> H2_OK \<or> h2_connection_find_stream c (fh_stream_id h) = NULL \<or>
      cast_size (c_conn_recv_window c) < unat (fh_length h)")
    case True
    then show ?thesis
      using r assms(1) find_stream_Ptr(4) [OF assms(1)]
      by (cases "h2_connection_find_stream c (fh_stream_id h)") (auto simp: h2_connection_process_data_def)
  next
    case False
    then obtain i where i: "h2_connection_find_stream c (fh_stream_id h) = Ptr i"
      by (cases "h2_connection_find_stream c (fh_stream_id h)") auto
    note s = find_stream_Ptr [OF assms(1) i]
    from False have fits: "\<not> cast_size (c_conn_recv_window c) < unat (fh_length h)" and ok: "ret = H2_OK" by auto
    note charge = recv_window_charge [OF assms(1) fits]
    let ?c = "c\<lparr>c_conn_recv_window := c_conn_recv_window c - int (unat (fh_length h))\<rparr>" and ?s = "c_streams c ! i"
    obtain e t where t: "h2_stream_receive_data (Ptr ?s) (unat (fh_length h)) (fh_flags h AND H2_FLAG_END_STREAM \<noteq> 0) = Some (e, Ptr t)"
      "slot_ok t" "s_id t = s_id ?s" using receive_data_slot [OF s(3) charge(3)] by blast
    have ct: "conn_ok (set_stream ?c i t)" using charge(2) s(1) t by (intro conn_ok_set_stream) simp_all
    have k1: "keeps c (h2_connection_refresh_recv_windows (set_stream ?c i t) p)" if "\<And>k. p = Ptr k \<Longrightarrow> k < 128" for p
      using that by (intro keeps_trans [OF refresh_recv_keeps [OF ct]]) simp_all
    have k2: "keeps c (h2_connection_refresh_recv_windows ?c NULL)"
      by (intro keeps_trans [OF refresh_recv_keeps [OF charge(2)]]) simp_all
    then obtain e2 c2 where c2: "h2_connection_refresh_recv_windows ?c NULL = Some (e2, c2)" "conn_ok c2" "c_input c2 = c_input c"
      by (auto simp: keeps_def)
    show ?thesis
      using r ok i s fits charge(1) t(1) ct c2 k1 [of NULL] k1 [of "Ptr i"]
      by (simp add: h2_connection_process_data_def Let_def)
  qed
qed

lemma parsed_increment:
  assumes "unat (fh_length h) \<le> length p"
  shows "\<exists>ret inc. h2_frame_parse_window_update (Ptr h) (Ptr p) (Ptr 0) = Some (ret, Ptr inc) \<and>
     (ret = H2_OK \<longrightarrow> inc \<noteq> 0 \<and> uint inc \<le> INT32_MAX)"
proof -
  obtain ret inc where r: "h2_frame_parse_window_update (Ptr h) (Ptr p) (Ptr 0) = Some (ret, Ptr inc)"
    using parse_fixed_defined(1) [OF assms, of 0] by blast
  have "inc \<noteq> 0 \<and> uint inc \<le> INT32_MAX" if "ret = H2_OK"
  proof -
    from r that have u: "h2_read_u31 p = Some inc" "inc \<noteq> 0"
      by (auto simp: h2_frame_parse_window_update_def run_iff split: if_splits)
    then have "unat inc < 2147483648" using read_u31_bound [OF u(1)] by (simp add: word_less_nat_alt)
    then have "int (unat inc) \<le> INT32_MAX" unfolding INT32_MAX_def by linarith
    then show ?thesis using u(2) by simp
  qed
  with r show ?thesis by blast
qed

lemma process_window_update_keeps:
  assumes "conn_ok c" "unat (fh_length h) \<le> length p"
  shows "keeps c (h2_connection_process_window_update c h p)"
proof -
  obtain ret inc where r: "h2_frame_parse_window_update (Ptr h) (Ptr p) (Ptr 0) = Some (ret, Ptr inc)"
     "ret = H2_OK \<longrightarrow> inc \<noteq> 0 \<and> uint inc \<le> INT32_MAX"
    using parsed_increment [OF assms(2)] by blast
  consider "ret \<noteq> H2_OK" | "ret = H2_OK" "fh_stream_id h = 0" | "ret = H2_OK" "fh_stream_id h \<noteq> 0" by blast
  then show ?thesis
  proof cases
    case 1
    then show ?thesis using r assms(1) by (simp add: h2_connection_process_window_update_def)
  next
    case 2
    with r have inc: "cast_i32 (uint inc) = uint inc" by (intro cast_i32_nonneg) simp_all
    show ?thesis
    proof (cases "c_conn_send_window c + uint inc > INT32_MAX")
      case True
      then show ?thesis using 2 r assms(1) by (simp add: h2_connection_process_window_update_def)
    next
      case False
      let ?c = "c\<lparr>c_conn_send_window := c_conn_send_window c + uint inc\<rparr>"
      have "0 \<le> c_conn_send_window c + uint inc" using conn_okD(9) [OF assms(1)] by simp
      then have "conn_ok ?c" "i32 (c_conn_send_window c + uint inc) = Some (c_conn_send_window c + uint inc)"
        using False assms(1) by (auto simp: i32_def INT32_MIN_def intro!: conn_ok_send_window)
      then show ?thesis
        using 2 r False inc keeps_trans [OF flush_deferred_keeps [of ?c]]
        by (simp add: h2_connection_process_window_update_def)
    qed
  next
    case 3
    show ?thesis
    proof (cases "h2_connection_find_stream c (fh_stream_id h)")
      case NULL
      then show ?thesis using 3 r assms(1) by (simp add: h2_connection_process_window_update_def)
    next
      case (Ptr i)
      note s = find_stream_Ptr [OF assms(1) Ptr]
      obtain e t where t: "h2_stream_add_send_window (Ptr (c_streams c ! i)) inc = Some (e, Ptr t)" "slot_ok t"
        "s_id t = s_id (c_streams c ! i)"
      proof -
        have "op_in_range (Add_send_window inc)" using r 3 by simp
        then obtain e t where t: "h2_stream_add_send_window (Ptr (c_streams c ! i)) inc = Some (e, Ptr t)" "stream_ok t"
          "s_id t = s_id (c_streams c ! i)"
          using stream_apply_ok [of "c_streams c ! i" "Add_send_window inc"] s(3) by (auto simp: slot_ok_def)
        moreover have "deferred_ok t"
          using t(1) s(3) by (auto simp: h2_stream_add_send_window_def slot_ok_def deferred_ok_def run_iff split: if_splits)
        ultimately show ?thesis using that by (simp add: slot_ok_def)
      qed
      have "conn_ok (set_stream c i t)" using assms(1) s(1) t by (intro conn_ok_set_stream) simp_all
      then show ?thesis
        using 3 r Ptr s(4) t(1) keeps_trans [OF flush_deferred_keeps [of "set_stream c i t"], of c]
        by (simp add: h2_connection_process_window_update_def Let_def)
    qed
  qed
qed

subsection \<open>The other frames\<close>

lemma close_stream_keeps:
  assumes "conn_ok c" "i < 128"
  shows "keeps c (do { s \<leftarrow> rd (c_streams c) i; s \<leftarrow> deref (h2_stream_close (Ptr s)); Some (e, set_stream c i s) })"
proof -
  obtain t where t: "h2_stream_close (Ptr (c_streams c ! i)) = Ptr t" by simp
  have "conn_ok (set_stream c i t)"
    using slot_ok_close [OF t] assms by (intro conn_ok_set_stream) simp_all
  then show ?thesis using t assms conn_okD(2) [OF assms(1)] by (simp add: rd_in del: h2_stream_close.simps)
qed

lemma reset_stream_error_keeps:
  assumes "conn_ok c" "sid \<noteq> 0"
  shows "keeps c (h2_connection_reset_stream_error c sid e)"
proof -
  let ?f = "rst_stream_frame sid e"
  have q: "h2_connection_queue_rst_stream c sid e = Some (push c ?f)"
    using conn_okD(1) [OF assms(1)] assms(2) by (rule queue_rst_stream_eq)
  obtain ret c' where p: "push c ?f = (ret, c')" by fastforce
  with conn_ok_push [OF assms(1), of ?f] have c': "conn_ok c'" "c_input c' = c_input c" by simp_all
  have "keeps c (case h2_connection_find_stream c sid of NULL \<Rightarrow> Some (H2_OK, c')
     | Ptr i \<Rightarrow> do { s \<leftarrow> rd (c_streams c') i; s \<leftarrow> deref (h2_stream_close (Ptr s)); Some (H2_OK, set_stream c' i s) })"
  proof (cases "h2_connection_find_stream c sid")
    case (Ptr i)
    then show ?thesis
      using keeps_trans [OF close_stream_keeps [OF c'(1) find_stream_Ptr(1) [OF assms(1) Ptr]] c'(2)] by simp
  qed (use c' in simp)
  with c' show ?thesis by (simp add: h2_connection_reset_stream_error_def q p Let_def)
qed

lemma process_rst_stream_keeps:
  assumes "conn_ok c" "unat (fh_length h) \<le> length p"
  shows "keeps c (h2_connection_process_rst_stream c h p)"
proof -
  obtain ret e where r: "h2_frame_parse_rst_stream (Ptr h) (Ptr p) (Ptr 0) = Some (ret, Ptr e)"
    using parse_fixed_defined(2) [OF assms(2), of 0] by blast
  show ?thesis
  proof (cases "h2_connection_find_stream c (fh_stream_id h)")
    case (Ptr i)
    then show ?thesis
      using r assms(1) close_stream_keeps [OF assms(1) find_stream_Ptr(1) [OF assms(1) Ptr]]
      by (simp add: h2_connection_process_rst_stream_def)
  qed (use r assms(1) in \<open>simp add: h2_connection_process_rst_stream_def\<close>)
qed

lemma process_ping_keeps:
  assumes "conn_ok c" "unat (fh_length h) \<le> length p"
  shows "keeps c (h2_connection_process_ping c h p)"
proof -
  obtain ret q where r: "h2_frame_parse_ping (Ptr h) (Ptr p) (Ptr (local_array 8)) = Some (ret, Ptr q)" "length q = 8"
    using parse_fixed_defined(4) [OF assms(2), of "local_array 8"] by auto
  have "h2_frame_encode_ping (Ptr (local_array 17)) 17 H2_FLAG_ACK (Ptr q)
     = Some (17, Ptr (frame_bytes H2_FRAME_PING H2_FLAG_ACK 0 q))"
    using r(2) by (simp add: h2_frame_encode_ping_def encode_raw_eq H2_MAX_FRAME_SIZE_def patch_all)
  then show ?thesis
    using r assms(1) keeps_push [OF assms(1), of "frame_bytes H2_FRAME_PING H2_FLAG_ACK 0 q"] conn_okD(1) [OF assms(1)]
    by (simp add: h2_connection_process_ping_def H2_FRAME_HEADER_LEN_def queue_bytes_all)
qed

lemma process_frame_keeps:
  assumes "conn_ok c" "unat (fh_length h) \<le> length p"
  shows "keeps c (h2_connection_process_frame c h p)"
proof -
  have "keeps c (h2_connection_process_priority c h p)"
    using parse_priority_frame_defined [OF assms(2), of local_priority_payload] assms(1)
    by (auto simp: h2_connection_process_priority_def)
  then show ?thesis
    using assms process_data_keeps [OF assms] process_headers_keeps [OF assms] process_rst_stream_keeps [OF assms]
      apply_settings_keeps [OF assms] process_ping_keeps [OF assms] process_window_update_keeps [OF assms]
      process_continuation_keeps [OF assms]
    by (simp add: h2_connection_process_frame_def)
qed

subsection \<open>The feed loop\<close>

lemma parse_header_run:
  assumes "9 \<le> len" "len \<le> length w"
  shows "\<exists>h. h2_frame_parse_header (Ptr w) len (Ptr out) = Some (H2_OK, Ptr h)"
proof -
  have "4 \<le> length (drop 5 w)" using assms by simp
  then obtain v where "h2_read_u31 (drop 5 w) = Some v" using read_u31_defined by blast
  with assms show ?thesis by (auto simp: h2_frame_parse_header_def H2_FRAME_HEADER_LEN_def rd_def)
qed

lemma queue_goaway_keeps:
  assumes "conn_ok c"
  shows "keeps c (h2_connection_queue_goaway c e)"
  using assms conn_okD(1) [OF assms] conn_ok_push [of "c\<lparr>c_goaway_sent := True, c_goaway_error := e\<rparr>" "goaway_frame (c_last_stream_id c) e"]
  by (cases "push (c\<lparr>c_goaway_sent := True, c_goaway_error := e\<rparr>) (goaway_frame (c_last_stream_id c) e)")
     (simp add: queue_goaway_eq)

lemma feed_step_run:
  assumes "conn_ok c" "9 \<le> length (c_input c)"
  shows "(\<exists>ret c'. h2_connection_feed_step c = Some (Inl (ret, c')) \<and> conn_ok c') \<or>
         (\<exists>c'. h2_connection_feed_step c = Some (Inr c') \<and> conn_ok c' \<and> length (c_input c') < length (c_input c))"
proof -
  obtain h where h: "h2_frame_parse_header (Ptr (c_input c)) (length (c_input c)) (Ptr local_frame_header) = Some (H2_OK, Ptr h)"
    using parse_header_run [OF assms(2) order_refl] by blast
  let ?n = "unat (fh_length h)" and ?p = "drop 9 (c_input c)"
  have n: "size_add 9 ?n = 9 + ?n" using unat_u32_less [of "fh_length h"] by simp
  show ?thesis
  proof (cases "9 + ?n > length (c_input c)")
    case True
    then show ?thesis using h n assms(1) by (simp add: h2_connection_feed_step_def H2_FRAME_HEADER_LEN_def)
  next
    case False
    then have "?n \<le> length ?p" by simp
    from process_frame_keeps [OF assms(1) this] obtain ret c1 where
      c1: "h2_connection_process_frame c h ?p = Some (ret, c1)" "conn_ok c1" "c_input c1 = c_input c"
      by (auto simp: keeps_def)
    have drop_ok: "conn_ok (c'\<lparr>c_input := drop (9 + ?n) (c_input c')\<rparr>)" if "conn_ok c'" for c'
      using that conn_okD(5) [OF that] by (intro conn_ok_input) auto
    obtain e2 c2 where c2: "h2_connection_queue_goaway c1 (h2_error_value ret) = Some (e2, c2)" "conn_ok c2"
      using queue_goaway_keeps [OF c1(2), of "h2_error_value ret"] by (auto simp: keeps_def)
    have rst: "\<exists>e3 c3. h2_connection_reset_stream_error c1 (fh_stream_id h) (h2_error_value ret) = Some (e3, c3) \<and>
        conn_ok c3 \<and> c_input c3 = c_input c1" if "fh_stream_id h \<noteq> 0"
      using reset_stream_error_keeps [OF c1(2) that, of "h2_error_value ret"] by (auto simp: keeps_def)
    note run = h2_connection_feed_step_def H2_FRAME_HEADER_LEN_def
    consider "ret = H2_OK" | "ret \<noteq> H2_OK" "h2_connection_is_stream_error ret \<and> fh_stream_id h \<noteq> 0"
      | "ret \<noteq> H2_OK" "\<not> (h2_connection_is_stream_error ret \<and> fh_stream_id h \<noteq> 0)" by blast
    then show ?thesis
    proof cases
      case 1
      then show ?thesis using h n False c1 drop_ok [OF c1(2)] assms(2) by (simp add: run)
    next
      case 2
      with rst obtain e3 c3 where c3: "h2_connection_reset_stream_error c1 (fh_stream_id h) (h2_error_value ret) = Some (e3, c3)"
        "conn_ok c3" "c_input c3 = c_input c1" by blast
      then show ?thesis using 2 h n False c1 drop_ok [OF c3(2)] assms(2) by (cases "e3 = H2_OK") (simp_all add: run)
    next
      case 3
      then show ?thesis using h n False c1 c2 by (auto simp add: run)
    qed
  qed
qed

lemma feed_loop_run: "conn_ok c \<Longrightarrow> \<exists>ret c'. h2_connection_feed_loop c = Some (ret, c') \<and> conn_ok c'"
proof (induction "length (c_input c)" arbitrary: c rule: less_induct)
  case less
  show ?case
  proof (cases "9 \<le> length (c_input c)")
    case True
    from feed_step_run [OF less.prems True] show ?thesis
    proof (elim disjE exE conjE)
      fix ret c'
      assume "h2_connection_feed_step c = Some (Inl (ret, c'))" "conn_ok c'"
      then show ?thesis using True by (simp add: h2_connection_feed_loop.simps [of c] H2_FRAME_HEADER_LEN_def)
    next
      fix c'
      assume "h2_connection_feed_step c = Some (Inr c')" "conn_ok c'" "length (c_input c') < length (c_input c)"
      then show ?thesis
        using True less.hyps [of c'] by (simp add: h2_connection_feed_loop.simps [of c] H2_FRAME_HEADER_LEN_def)
    qed
  next
    case False
    then show ?thesis
      using less.prems by (simp add: h2_connection_feed_loop.simps [of c] H2_FRAME_HEADER_LEN_def)
  qed
qed

lemma feed_preface_run:
  assumes "conn_ok c"
  shows "(\<exists>ret c'. h2_connection_feed_preface c = Some (Inl (ret, c')) \<and> conn_ok c') \<or>
         (\<exists>c'. h2_connection_feed_preface c = Some (Inr c') \<and> conn_ok c')"
proof (cases "c_preface_seen c \<or> length (c_input c) < 24")
  case True
  then show ?thesis using assms by (auto simp: h2_connection_feed_preface_def H2_CLIENT_PREFACE_LEN_def)
next
  case False
  let ?c = "c\<lparr>c_input := drop 24 (c_input c), c_preface_seen := True\<rparr>"
  have c: "conn_ok ?c" using assms conn_okD(5) [OF assms] by (simp add: conn_ok_input)
  obtain e2 c2 where c2: "h2_connection_queue_goaway c (h2_error_value H2_PROTOCOL_ERROR) = Some (e2, c2)" "conn_ok c2"
    using queue_goaway_keeps [OF assms, of "h2_error_value H2_PROTOCOL_ERROR"] by (auto simp: keeps_def)
  obtain e3 c3 where c3: "h2_connection_queue_settings ?c = Some (e3, c3)" "conn_ok c3"
    using conn_ok_push [OF c, of settings_frame] queue_settings_eq [OF conn_okD(1) [OF c]]
    by (cases "push ?c settings_frame") simp
  show ?thesis
    using False c c2 c3
    by (cases "e3 = H2_OK") (auto simp: h2_connection_feed_preface_def H2_CLIENT_PREFACE_LEN_def rd_block_in not_less Let_def)
qed

lemma feed_run:
  assumes "conn_ok c" "n \<le> length d"
  shows "\<exists>ret c'. h2_connection_feed (Ptr c) (Ptr d) n = Some (ret, Ptr c') \<and> conn_ok c'"
proof (cases "n > H2_CONN_INPUT_CAP - length (c_input c)")
  case True
  then show ?thesis
    using assms conn_okD(5) [OF assms(1)] by (simp add: h2_connection_feed_def H2_CONN_INPUT_CAP_def)
next
  case False
  let ?c = "c\<lparr>c_input := c_input c @ take n d\<rparr>"
  have len: "length (c_input c) + n \<le> 131072"
    using False conn_okD(5) [OF assms(1)] by (simp add: H2_CONN_INPUT_CAP_def)
  then have c: "conn_ok ?c" using assms by (intro conn_ok_input) simp_all
  have "\<exists>ret c'. Option.bind (h2_connection_feed_preface ?c)
      (\<lambda>r. case r of Inl result \<Rightarrow> Some result | Inr c \<Rightarrow> h2_connection_feed_loop c) = Some (ret, c') \<and> conn_ok c'"
    using feed_preface_run [OF c] feed_loop_run by fastforce
  then obtain r ret c' where r: "h2_connection_feed_preface ?c = Some r"
    "(case r of Inl result \<Rightarrow> Some result | Inr c \<Rightarrow> h2_connection_feed_loop c) = Some (ret, c')" "conn_ok c'"
    by (auto simp: bind_run_iff)
  show ?thesis
  proof (cases "n = 0")
    case True
    then have "?c = c" by simp
    with r True show ?thesis by (simp add: h2_connection_feed_def)
  next
    case pos: False
    have "append_within H2_CONN_INPUT_CAP (c_input c) (take n d) = Some (c_input c @ take n d)"
      using len assms(2) by (intro append_within_in) (simp add: H2_CONN_INPUT_CAP_def)
    with r pos False len assms(2) show ?thesis
      by (simp add: h2_connection_feed_def rd_block_in H2_CONN_INPUT_CAP_def)
  qed
qed

lemma init_conn_ok: "conn_ok (h2_connection_init z)"
proof -
  have "stream_ok zero_stream" by (simp add: stream_ok_def zero_stream_def h2_consts c_limits)
  then have "slot_ok zero_stream" by (simp add: slot_ok_def deferred_ok_def zero_stream_def)
  then show ?thesis
    by (simp add: conn_ok_def queue_ok_def h2_connection_init_def zero_connection_def ids_ok_def h2_consts c_limits
        zero_stream_def)
qed

lemma consume_keeps:
  assumes "conn_ok c"
  shows "\<exists>c'. h2_connection_consume_output (Ptr c) n = Ptr c' \<and> conn_ok c' \<and> c_input c' = c_input c"
proof -
  have "length (drop n (pending c)) \<le> H2_CONN_OUTPUT_CAP"
    using length_pending [OF conn_okD(1) [OF assms]] by simp
  with assms show ?thesis by (auto simp: consume_eq conn_okD(1) conn_ok_def queue_ok_def)
qed

text \<open>What the server does with a connection: it feeds what it reads and consumes what it has sent.\<close>

datatype conn_event = Feed "byte list" | Sent nat

fun conn_run :: "conn_event list \<Rightarrow> h2_connection ptr \<Rightarrow> h2_connection ptr option" where
  "conn_run [] conn = Some conn"
| "conn_run (Feed bs # es) conn = do {
     (ret, conn) \<leftarrow> h2_connection_feed conn (Ptr bs) (length bs);
     conn_run es conn
   }"
| "conn_run (Sent n # es) conn = conn_run es (h2_connection_consume_output conn n)"

lemma conn_run_ok: "conn_ok c \<Longrightarrow> \<exists>c'. conn_run es (Ptr c) = Some (Ptr c') \<and> conn_ok c'"
proof (induction es arbitrary: c)
  case (Cons e es)
  show ?case
  proof (cases e)
    case (Feed bs)
    then show ?thesis using feed_run [OF Cons.prems, of "length bs" bs] Cons.IH by fastforce
  next
    case (Sent n)
    then show ?thesis using consume_keeps [OF Cons.prems, of n] Cons.IH by fastforce
  qed
qed simp

text \<open>C2: the connection is memory safe and free of signed overflow against every peer. From
  \<open>h2_connection_init\<close>, every sequence of \<open>h2_connection_feed\<close> calls with arbitrary bytes, in any
  segmentation and whatever the earlier calls returned, mixed with \<open>h2_connection_consume_output\<close>
  calls, is defined and terminates; the used parts of all buffers stay within their arrays, the
  table keeps its 128 slots and the connection's windows stay in range.\<close>

theorem connection_always_defined:
  "\<exists>c. conn_run events (Ptr (h2_connection_init z)) = Some (Ptr c) \<and>
     length (c_input c) \<le> H2_CONN_INPUT_CAP \<and> length (c_output c) \<le> H2_CONN_OUTPUT_CAP \<and>
     c_output_sent c \<le> length (c_output c) \<and> length (c_header_block c) \<le> H2_CONN_HEADER_BLOCK_CAP \<and>
     length (c_streams c) = H2_CONN_MAX_STREAMS \<and>
     0 \<le> c_conn_recv_window c \<and> c_conn_recv_window c \<le> H2_DEFAULT_WINDOW_SIZE \<and>
     0 \<le> c_conn_send_window c \<and> c_conn_send_window c \<le> INT32_MAX"
  using conn_run_ok [OF init_conn_ok, of events z] by (auto simp: conn_ok_def queue_ok_def)

text \<open>C14: in every reachable connection the used slots of the table hold odd stream ids, no two the same,
  and none above the last stream id that a GOAWAY would report; so \<open>h2_connection_find_stream\<close> is a
  function of the id.\<close>

theorem stream_ids_unique:
  "\<exists>c. conn_run events (Ptr (h2_connection_init z)) = Some (Ptr c) \<and> ids_ok (c_last_stream_id c) (map s_id (c_streams c))"
  using conn_run_ok [OF init_conn_ok, of events z] by (auto simp: conn_ok_def)

end
