(* ===== verification/Server_Safety.thy ===== *)
theory Server_Safety
  imports Server Connection_Safety
begin

section \<open>Every iteration of the server is defined\<close>

text \<open>
  What the server assumes of the system calls it makes itself is \<open>kernel_ok\<close>: \<open>opened\<close> is the set of
  descriptors the process has open, which \<open>accept\<close> extends by a new one and \<open>close\<close> shrinks, and
  \<open>budget\<close> bounds what is waiting to be read or accepted, so that a non-blocking loop comes to
  \<open>EAGAIN\<close>. \<open>server_ok\<close> is the invariant: 128 slots, a well-formed connection in every used one,
  no descriptor in two of them, and the open descriptors are exactly those of the used slots and
  the ones the server was started with. The lemmas on the operations that call the event backend
  are proved once, in the locale \<open>event_server\<close>, which extends its contract \<open>io_backend\<close>.
\<close>

subsection \<open>Assumptions\<close>

definition same_resources :: "('w \<Rightarrow> int set) \<Rightarrow> ('w \<Rightarrow> nat) \<Rightarrow> 'w \<Rightarrow> 'w \<Rightarrow> bool" where
  "same_resources opened budget w w' \<longleftrightarrow> opened w' = opened w \<and> budget w' \<le> budget w"

fun reads_ok :: "('w \<Rightarrow> int set) \<Rightarrow> ('w \<Rightarrow> nat) \<Rightarrow> nat \<Rightarrow> 'w \<Rightarrow> byte list sys \<times> 'w \<Rightarrow> bool" where
  "reads_ok opened budget n w (Failed e, w') \<longleftrightarrow>
     same_resources opened budget w w' \<and> (e = EINTR \<longrightarrow> budget w' < budget w)"
| "reads_ok opened budget n w (Done bs, w') \<longleftrightarrow>
     same_resources opened budget w w' \<and> length bs \<le> n \<and> (bs \<noteq> [] \<longrightarrow> budget w' < budget w)"

fun accepts_ok :: "('w \<Rightarrow> int set) \<Rightarrow> ('w \<Rightarrow> nat) \<Rightarrow> 'w \<Rightarrow> int sys \<times> 'w \<Rightarrow> bool" where
  "accepts_ok opened budget w (Failed e, w') \<longleftrightarrow>
     same_resources opened budget w w' \<and> (e = EINTR \<longrightarrow> budget w' < budget w)"
| "accepts_ok opened budget w (Done fd, w') \<longleftrightarrow>
     fd \<notin> opened w \<and> opened w' = insert fd (opened w) \<and> budget w' < budget w"

definition kernel_ok :: "'w h2_os \<Rightarrow> ('w \<Rightarrow> int set) \<Rightarrow> ('w \<Rightarrow> nat) \<Rightarrow> bool" where
  "kernel_ok os opened budget \<longleftrightarrow>
     (\<forall>fd n w. reads_ok opened budget n w (os_read os fd n w)) \<and>
     (\<forall>fd bs w. same_resources opened budget w (snd (os_write os fd bs w))) \<and>
     (\<forall>fd w. accepts_ok opened budget w (os_accept os fd w)) \<and>
     (\<forall>fd w. same_resources opened budget w (snd (os_getfl os fd w))) \<and>
     (\<forall>fd flags w. same_resources opened budget w (snd (os_setfl os fd flags w))) \<and>
     (\<forall>fd w. opened (os_close os fd w) = opened w - {fd} \<and> budget (os_close os fd w) \<le> budget w)"

lemma kernel_okD:
  assumes "kernel_ok os opened budget"
  shows "reads_ok opened budget n w (os_read os fd n w)"
    "same_resources opened budget w (snd (os_write os fd bs w))"
    "accepts_ok opened budget w (os_accept os fd w)"
    "same_resources opened budget w (snd (os_getfl os fd w))"
    "same_resources opened budget w (snd (os_setfl os fd flags w))"
    "opened (os_close os fd w) = opened w - {fd}" "budget (os_close os fd w) \<le> budget w"
  using assms by (auto simp: kernel_ok_def)

lemma same_refl [simp]: "same_resources opened budget w w"
  by (simp add: same_resources_def)

lemma same_trans: "same_resources opened budget u v \<Longrightarrow> same_resources opened budget v w \<Longrightarrow>
    same_resources opened budget u w"
  by (simp add: same_resources_def)

lemma same_frame: "frame_relation (same_resources opened budget)"
  by (auto simp: frame_relation_def reflp_def transp_def intro: same_trans)

lemma set_nonblock_same:
  assumes "kernel_ok os opened budget"
  shows "same_resources opened budget w (snd (h2_set_nonblock os fd w))"
proof -
  obtain r w1 where 1: "os_getfl os fd w = (r, w1)" by fastforce
  have s1: "same_resources opened budget w w1" using kernel_okD(4) [OF assms, of w fd] 1 by simp
  show ?thesis
  proof (cases r)
    case (Done flags)
    have "same_resources opened budget w1 (snd (os_setfl os fd (or flags (os_nonblock os)) w1))"
      by (rule kernel_okD(5) [OF assms])
    with s1 1 Done show ?thesis
      by (auto simp: h2_set_nonblock_def split: prod.split intro: same_trans)
  qed (use s1 1 in \<open>simp add: h2_set_nonblock_def\<close>)
qed

subsection \<open>Reading and flushing\<close>

lemma read_step_ok:
  assumes os: "kernel_ok os opened budget" and c: "conn_ok (cl_conn c)"
  shows "(\<exists>r c' w'. h2_read_client_step os c w = Some (Inl (r, c', w')) \<and> conn_ok (cl_conn c') \<and>
            cl_fd c' = cl_fd c \<and> cl_used c' = cl_used c \<and> same_resources opened budget w w') \<or>
         (\<exists>c' w'. h2_read_client_step os c w = Some (Inr (c', w')) \<and> conn_ok (cl_conn c') \<and>
            cl_fd c' = cl_fd c \<and> cl_used c' = cl_used c \<and> same_resources opened budget w w' \<and> budget w' < budget w)"
proof -
  obtain r w1 where 1: "os_read os (cl_fd c) 8192 w = (r, w1)" by fastforce
  have ok: "reads_ok opened budget 8192 w (r, w1)" using kernel_okD(1) [OF os, of 8192 w "cl_fd c"] 1 by simp
  show ?thesis
  proof (cases r)
    case (Failed e)
    with ok 1 c show ?thesis by (auto simp: h2_read_client_step_def)
  next
    case (Done bs)
    obtain ret c' where f: "h2_connection_feed (Ptr (cl_conn c)) (Ptr bs) (length bs) = Some (ret, Ptr c')" "conn_ok c'"
      using feed_run [OF c, of "length bs" bs] by auto
    have "append_within 8192 [] bs = Some bs" using ok Done by (simp add: append_within_in)
    with ok 1 c f Done show ?thesis
      by (cases "bs = []"; cases "ret \<noteq> H2_OK \<and> \<not> h2_connection_wants_write (Ptr c')")
         (auto simp: h2_read_client_step_def Let_def)
  qed
qed

definition client_runs :: "('w \<Rightarrow> int set) \<Rightarrow> ('w \<Rightarrow> nat) \<Rightarrow> h2_client \<Rightarrow> 'w \<Rightarrow> (int \<times> h2_client \<times> 'w) option \<Rightarrow> bool" where
  "client_runs opened budget c w r \<longleftrightarrow>
     (\<exists>ret c' w'. r = Some (ret, c', w') \<and> conn_ok (cl_conn c') \<and> cl_fd c' = cl_fd c \<and> cl_used c' = cl_used c \<and>
        same_resources opened budget w w')"

lemma read_client_runs:
  assumes os: "kernel_ok os opened budget"
  shows "conn_ok (cl_conn c) \<Longrightarrow> client_runs opened budget c w (h2_read_client os c w)"
proof (induction "budget w" arbitrary: c w rule: less_induct)
  case less
  from read_step_ok [OF os less.prems, of w] show ?case
  proof (elim disjE exE conjE)
    fix c' w' assume a: "h2_read_client_step os c w = Some (Inr (c', w'))" "conn_ok (cl_conn c')"
      "cl_fd c' = cl_fd c" "cl_used c' = cl_used c" "same_resources opened budget w w'" "budget w' < budget w"
    have "client_runs opened budget c' w' (h2_read_client os c' w')" using less.hyps a by blast
    then show ?thesis using a
      by (subst h2_read_client.simps) (auto simp: client_runs_def intro: same_trans)
  qed (subst h2_read_client.simps, simp add: client_runs_def)+
qed

lemma wants_write_pending: "queue_ok c \<Longrightarrow> h2_connection_wants_write (Ptr c) \<longleftrightarrow> pending c \<noteq> []"
  by (auto simp: h2_connection_wants_write_def pending_def)

lemma output_pending:
  assumes "queue_ok c" "pending c \<noteq> []"
  shows "h2_connection_output (Ptr c) = Ptr (pending c)" "h2_connection_output_len (Ptr c) = length (pending c)"
  using assms by (auto simp: output_len_eq h2_connection_output_def pending_def)

lemma flush_client_runs:
  assumes os: "kernel_ok os opened budget"
  shows "conn_ok (cl_conn c) \<Longrightarrow> client_runs opened budget c w (h2_flush_client os c w)"
proof (induction "length (pending (cl_conn c))" arbitrary: c w rule: less_induct)
  case less
  note c = less.prems
  have q: "queue_ok (cl_conn c)" using conn_okD(1) [OF c] .
  show ?case
  proof (cases "pending (cl_conn c) = []")
    case True
    then show ?thesis using c q
      by (subst h2_flush_client.simps) (simp add: wants_write_pending client_runs_def)
  next
    case False
    obtain r w1 where 1: "os_write os (cl_fd c) (pending (cl_conn c)) w = (r, w1)" by fastforce
    have s: "same_resources opened budget w w1"
      using kernel_okD(2) [OF os, of w "cl_fd c" "pending (cl_conn c)"] 1 by simp
    note out = output_pending [OF q False]
    show ?thesis
    proof (cases "\<exists>n. r = Done n \<and> n > 0")
      case True
      then obtain n where n: "r = Done n" "n > 0" by blast
      let ?c = "(cl_conn c)\<lparr>c_output := drop n (pending (cl_conn c)), c_output_sent := 0\<rparr>"
      obtain c' where c': "h2_connection_consume_output (Ptr (cl_conn c)) n = Ptr c'" "conn_ok c'"
        using consume_keeps [OF c, of n] by auto
      then have p: "pending c' = drop n (pending (cl_conn c))"
        using consume_eq [OF q, of n] by (auto simp: pending_def)
      then have "length (pending c') < length (pending (cl_conn c))" using n False by simp
      then have "client_runs opened budget (c\<lparr>cl_conn := c'\<rparr>) w1 (h2_flush_client os (c\<lparr>cl_conn := c'\<rparr>) w1)"
        using less.hyps c' by simp
      with False q n c' 1 out s show ?thesis
        by (subst h2_flush_client.simps)
           (auto simp: wants_write_pending rd_block_in client_runs_def intro: same_trans)
    next
      case nd: False
      with False q c 1 out s show ?thesis
        by (cases r; subst h2_flush_client.simps) (auto simp: wants_write_pending rd_block_in client_runs_def)
    qed
  qed
qed

subsection \<open>The client table\<close>

definition owner :: "h2_client list \<Rightarrow> nat \<Rightarrow> int option" where
  "owner cs i = (if i < length cs \<and> cl_used (cs ! i) then Some (cl_fd (cs ! i)) else None)"

definition table_ok :: "h2_client list \<Rightarrow> bool" where
  "table_ok cs \<longleftrightarrow> length cs = H2_SERVER_MAX_CLIENTS \<and> (\<forall>i < length cs. cl_used (cs ! i) \<longrightarrow> conn_ok (cl_conn (cs ! i))) \<and>
     inj_on (owner cs) (dom (owner cs))"

lemma owner_update:
  "i < length cs \<Longrightarrow> owner (cs[i := c]) = (owner cs)(i := if cl_used c then Some (cl_fd c) else None)"
  by (auto simp: owner_def fun_eq_iff nth_list_update)

lemma owner_eq: "owner cs i = Some fd \<longleftrightarrow> i < length cs \<and> cl_used (cs ! i) \<and> cl_fd (cs ! i) = fd"
  by (auto simp: owner_def)

lemma ran_drop: "inj_on m (dom m) \<Longrightarrow> m i = Some fd \<Longrightarrow> ran (m(i := None)) = ran m - {fd}"
  by (auto simp: ran_def inj_on_def dom_def) (metis option.inject)

lemma table_ok_update:
  assumes "table_ok cs" "i < length cs" "owner cs i = Some (cl_fd c)" "cl_used c" "conn_ok (cl_conn c)"
  shows "table_ok (cs[i := c])" "owner (cs[i := c]) = owner cs"
proof -
  show *: "owner (cs[i := c]) = owner cs" using assms by (auto simp: owner_update)
  show "table_ok (cs[i := c])" using assms * by (auto simp: table_ok_def nth_list_update)
qed

lemma table_ok_free:
  assumes "table_ok cs" "i < length cs" "\<not> cl_used c"
  shows "table_ok (cs[i := c])"
proof -
  have "inj_on ((owner cs)(i := None)) (dom ((owner cs)(i := None)))"
    using assms by (auto simp: table_ok_def inj_on_def)
  with assms show ?thesis by (auto simp: table_ok_def owner_update nth_list_update)
qed

lemma table_ok_insert:
  assumes "table_ok cs" "i < length cs" "\<not> cl_used (cs ! i)" "fd \<notin> ran (owner cs)" "conn_ok (cl_conn c)"
    "cl_used c" "cl_fd c = fd"
  shows "table_ok (cs[i := c])" "ran (owner (cs[i := c])) = insert fd (ran (owner cs))"
proof -
  have "owner cs i = None" using assms by (simp add: owner_def)
  then show "ran (owner (cs[i := c])) = insert fd (ran (owner cs))"
    using assms by (simp add: owner_update)
  have "inj_on ((owner cs)(i \<mapsto> fd)) (dom ((owner cs)(i \<mapsto> fd)))"
    using assms by (fastforce simp: table_ok_def inj_on_def ran_def)
  with assms show "table_ok (cs[i := c])" by (auto simp: table_ok_def owner_update nth_list_update)
qed

lemma find_client_Ptr: "h2_find_client cs fd = Ptr i \<Longrightarrow> owner cs i = Some fd"
  by (auto simp: h2_find_client_def owner_eq dest: scan_Ptr)

definition server_ok :: "('w \<Rightarrow> int set) \<Rightarrow> ('i \<Rightarrow> bool) \<Rightarrow> int set \<Rightarrow> ('i, 'w) h2_server \<Rightarrow> bool" where
  "server_ok opened ok base sv \<longleftrightarrow> table_ok (sv_clients sv) \<and> ok (sv_io sv) \<and>
     opened (sv_world sv) = base \<union> ran (owner (sv_clients sv)) \<and> base \<inter> ran (owner (sv_clients sv)) = {}"

text \<open>The state in which \<open>h2_server_run\<close> enters its loop, and the states at the head of the loop.\<close>

definition server_start :: "'i \<Rightarrow> 'w \<Rightarrow> ('i, 'w) h2_server" where
  "server_start i w = \<lparr>sv_clients = replicate H2_SERVER_MAX_CLIENTS zero_client, sv_io = i, sv_accepted = 0,
     sv_exit = 0, sv_world = w\<rparr>"

inductive server_reaches ::
  "'w h2_os \<Rightarrow> ('i, 'w) h2_io_ops \<Rightarrow> h2_server_config \<Rightarrow> int \<Rightarrow> ('i, 'w) h2_server \<Rightarrow> ('i, 'w) h2_server \<Rightarrow> bool"
  for os io config l where
  start: "server_reaches os io config l sv sv"
| iterate: "server_reaches os io config l sv sv' \<Longrightarrow> h2_server_step os io config l sv' = Some (Inr sv'') \<Longrightarrow>
     server_reaches os io config l sv sv''"

subsection \<open>The operations of the server, over any backend\<close>

text \<open>The client of the contract: the server, with any backend that keeps it.\<close>

locale event_server = io_backend
begin

lemma close_client_keeps:
  assumes os: "kernel_ok os opened budget" and k: "ready k (same_resources opened budget)"
    and sv: "table_ok (sv_clients sv)" "ok (sv_io sv)" "owner (sv_clients sv) i = Some fd"
    "opened (sv_world sv) = base \<union> ran (owner (sv_clients sv))" "base \<inter> ran (owner (sv_clients sv)) = {}"
  shows "\<exists>sv'. h2_close_client os (ops k) (Ptr i) sv = Some sv' \<and> server_ok opened ok base sv' \<and>
    budget (sv_world sv') \<le> budget (sv_world sv)"
proof -
  let ?cs = "sv_clients sv" and ?z = "zero_client\<lparr>cl_fd := - 1\<rparr>"
  obtain r j w1 where 1: "io_remove (ops k) (sv_io sv) fd (sv_world sv) = Some (r, j, w1)" "ok j"
    "same_resources opened budget (sv_world sv) w1"
    by (rule runsE [OF remove [OF k sv(2), where fd = fd and w = "sv_world sv"]])
  have i: "i < length ?cs" "cl_used (?cs ! i)" "cl_fd (?cs ! i) = fd" using sv(3) by (auto simp: owner_eq)
  have z: "\<not> cl_used ?z" by (simp add: zero_client_def)
  have own: "ran (owner (?cs[i := ?z])) = ran (owner ?cs) - {fd}"
    using ran_drop [of "owner ?cs" i fd] sv(1,3) i z by (simp add: owner_update table_ok_def)
  have "fd \<in> ran (owner ?cs)" using sv(3) by (rule ranI)
  with sv own have "opened (os_close os fd w1) = base \<union> ran (owner (?cs[i := ?z]))"
    "base \<inter> ran (owner (?cs[i := ?z])) = {}"
    using 1(3) kernel_okD(6) [OF os, of fd w1] by (auto simp: same_resources_def)
  then show ?thesis
    using 1 i table_ok_free [OF sv(1) i(1) z] kernel_okD(7) [OF os, of fd w1]
    by (auto simp: h2_close_client_def rd_in server_ok_def same_resources_def)
qed

lemma accept_step_keeps:
  assumes os: "kernel_ok os opened budget" and k: "ready k (same_resources opened budget)"
    and sv: "server_ok opened ok base sv"
  shows "(\<exists>r sv'. h2_accept_clients_step os (ops k) l sv = Some (Inl (r, sv')) \<and> server_ok opened ok base sv') \<or>
    (\<exists>sv'. h2_accept_clients_step os (ops k) l sv = Some (Inr sv') \<and> server_ok opened ok base sv' \<and>
       budget (sv_world sv') < budget (sv_world sv))"
proof -
  let ?cs = "sv_clients sv" and ?w = "sv_world sv"
  note svD = sv [unfolded server_ok_def]
  obtain r w1 where 1: "os_accept os l ?w = (r, w1)" by fastforce
  have acc: "accepts_ok opened budget ?w (r, w1)" using kernel_okD(3) [OF os, of ?w l] 1 by simp
  show ?thesis
  proof (cases r)
    case (Failed e)
    with 1 acc sv show ?thesis
      by (cases "e = EAGAIN \<or> e = EWOULDBLOCK"; cases "e = EINTR")
         (auto simp: h2_accept_clients_step_def server_ok_def same_resources_def Let_def)
  next
    case (Done fd)
    obtain ret w2 where 2: "h2_set_nonblock os fd w1 = (ret, w2)" by fastforce
    have s: "opened w2 = opened w1" "budget w2 \<le> budget w1"
      using set_nonblock_same [OF os, of w1 fd] 2 by (auto simp: same_resources_def)
    have o: "fd \<notin> opened ?w" "opened w2 = insert fd (opened ?w)" "budget w2 < budget ?w"
      using acc Done s by auto
    have closed: "server_ok opened ok base (sv\<lparr>sv_world := os_close os fd w2\<rparr>)"
      "budget (os_close os fd w2) < budget ?w"
      using o svD kernel_okD(6,7) [OF os, of fd w2] by (auto simp: server_ok_def)
    show ?thesis
    proof (cases "ret = 0 \<and> (\<exists>i cs. h2_alloc_client ?cs fd = (Ptr i, cs))")
      case False
      with 1 2 Done closed show ?thesis
        by (cases "h2_alloc_client ?cs fd"; cases "fst (h2_alloc_client ?cs fd)")
           (auto simp: h2_accept_clients_step_def)
    next
      case True
      then obtain i cs where al: "h2_alloc_client ?cs fd = (Ptr i, cs)" and [simp]: "ret = 0" by blast
      let ?c = "\<lparr>cl_fd = fd, cl_used = True, cl_conn = h2_connection_init (cl_conn (?cs ! i))\<rparr>"
      have i: "i < length ?cs" "\<not> cl_used (?cs ! i)" "cs = ?cs[i := ?c]"
        using al by (auto simp: h2_alloc_client_def split: ptr.splits dest: scan_Ptr)
      have fd: "fd \<notin> ran (owner ?cs)" using o(1) svD by auto
      have t: "table_ok cs" "ran (owner cs) = insert fd (ran (owner ?cs))"
        using table_ok_insert [of ?cs i fd ?c] svD i fd init_conn_ok by auto
      obtain rt j w3 where 3: "io_add_connection (ops k) (sv_io sv) fd w2 = Some (rt, j, w3)" "ok j"
        "same_resources opened budget w2 w3"
        using add_connection [OF k, of "sv_io sv" w2 fd] svD by (auto elim: runsE)
      let ?sv = "sv\<lparr>sv_clients := cs, sv_io := j, sv_world := w3\<rparr>"
      have rel: "opened w3 = base \<union> ran (owner cs)" "base \<inter> ran (owner cs) = {}" "budget w3 < budget ?w"
        using 3(3) o t svD by (auto simp: same_resources_def)
      show ?thesis
      proof (cases "rt = 0")
        case True
        with 1 2 3 al Done rel t show ?thesis
          by (auto simp: h2_accept_clients_step_def server_ok_def Let_def)
      next
        case False
        have ow: "owner cs i = Some fd" using i by (auto simp: owner_eq)
        obtain sv' where "h2_close_client os (ops k) (Ptr i) ?sv = Some sv'" "server_ok opened ok base sv'"
          "budget (sv_world sv') \<le> budget w3"
          using close_client_keeps [OF os k, of ?sv i fd base] t rel 3(2) ow by auto
        with False 1 2 3 al Done rel show ?thesis
          by (auto simp: h2_accept_clients_step_def Let_def)
      qed
    qed
  qed
qed

lemma accept_clients_keeps:
  assumes os: "kernel_ok os opened budget" and k: "ready k (same_resources opened budget)"
  shows "server_ok opened ok base sv \<Longrightarrow> \<exists>r sv'. h2_accept_clients os (ops k) l sv = Some (r, sv') \<and> server_ok opened ok base sv'"
proof (induction "budget (sv_world sv)" arbitrary: sv rule: less_induct)
  case less
  from accept_step_keeps [OF os k less.prems, of l] show ?case
  proof (elim disjE exE conjE)
    fix sv' assume a: "h2_accept_clients_step os (ops k) l sv = Some (Inr sv')" "server_ok opened ok base sv'"
      "budget (sv_world sv') < budget (sv_world sv)"
    with less.hyps [OF a(3) a(2)] show ?thesis by (subst h2_accept_clients.simps) simp
  qed (subst h2_accept_clients.simps, simp)
qed

lemma client_event_keeps:
  assumes os: "kernel_ok os opened budget" and k: "ready k (same_resources opened budget)"
    and sv: "server_ok opened ok base sv" and i: "owner (sv_clients sv) i = Some fd"
  shows "\<exists>sv'. h2_server_client_event os (ops k) ev i sv = Some sv' \<and> server_ok opened ok base sv'"
proof -
  let ?cs = "sv_clients sv" and ?w = "sv_world sv" and ?c = "sv_clients sv ! i"
  note svD = sv [unfolded server_ok_def]
  have iD: "i < length ?cs" "cl_used ?c" "cl_fd ?c = fd" using i by (auto simp: owner_eq)
  have c: "conn_ok (cl_conn ?c)" using svD iD by (auto simp: table_ok_def)
  let ?read = "if ev_readable ev then do {
          (read_result, client, w) \<leftarrow> h2_read_client os ?c ?w;
          Some (read_result < 0 \<or> read_result > 0, client, w) }
        else Some (False, ?c, ?w)"
  have "\<exists>b c1 w1. ?read = Some (b, c1, w1) \<and> conn_ok (cl_conn c1) \<and> cl_fd c1 = fd \<and> cl_used c1 \<and>
      same_resources opened budget ?w w1"
    using read_client_runs [OF os c, of ?w] c iD by (auto simp: client_runs_def)
  then obtain b c1 w1 where 1: "?read = Some (b, c1, w1)" "conn_ok (cl_conn c1)" "cl_fd c1 = fd" "cl_used c1"
    "same_resources opened budget ?w w1" by blast
  let ?flush = "\<lambda>close_after. if h2_connection_wants_write (Ptr (cl_conn c1)) then do {
          (ret, client, w) \<leftarrow> h2_flush_client os c1 w1;
          Some (close_after \<or> ret \<noteq> 0, client, w) }
        else Some (close_after, c1, w1)"
  let ?b = "b \<or> ev_closed ev"
  have "\<exists>b' c2 w2. ?flush ?b = Some (b', c2, w2) \<and> conn_ok (cl_conn c2) \<and> cl_fd c2 = fd \<and> cl_used c2 \<and>
      same_resources opened budget ?w w2"
    using flush_client_runs [OF os 1(2), of w1] 1 by (auto simp: client_runs_def intro: same_trans)
  then obtain b' c2 w2 where 2: "?flush ?b = Some (b', c2, w2)" "conn_ok (cl_conn c2)" "cl_fd c2 = fd" "cl_used c2"
    "same_resources opened budget ?w w2" by blast
  let ?sv = "sv\<lparr>sv_clients := ?cs[i := c2], sv_world := w2\<rparr>"
  have t: "table_ok (?cs[i := c2])" "owner (?cs[i := c2]) = owner ?cs"
    using table_ok_update [of ?cs i c2] svD iD 2 i by auto
  have ok2: "server_ok opened ok base ?sv" using svD t 2(5) by (auto simp: server_ok_def same_resources_def)
  have run: "h2_server_client_event os (ops k) ev i sv =
     (if b' \<and> \<not> h2_connection_wants_write (Ptr (cl_conn c2)) then h2_close_client os (ops k) (Ptr i) ?sv
      else if \<not> b' then do {
        (_, j, w) \<leftarrow> io_mod_connection (ops k) (sv_io sv) fd (h2_connection_wants_write (Ptr (cl_conn c2))) w2;
        Some (?sv\<lparr>sv_io := j, sv_world := w\<rparr>) }
      else Some ?sv)"
    using 1(1) 2(1,3) iD(1) by (simp add: h2_server_client_event_def rd_in Let_def)
  show ?thesis
  proof (cases "b'")
    case True
    obtain sv' where "h2_close_client os (ops k) (Ptr i) ?sv = Some sv'" "server_ok opened ok base sv'"
      using close_client_keeps [OF os k, of ?sv i fd base] ok2 t(2) i by (auto simp: server_ok_def)
    with True ok2 show ?thesis unfolding run by auto
  next
    case False
    obtain r j w3 where "io_mod_connection (ops k) (sv_io sv) fd (h2_connection_wants_write (Ptr (cl_conn c2))) w2 =
      Some (r, j, w3)" "ok j" "same_resources opened budget w2 w3"
      using mod_connection [OF k, of "sv_io sv" w2 fd "h2_connection_wants_write (Ptr (cl_conn c2))"] svD
      by (auto simp: runs_def server_ok_def)
    with False ok2 show ?thesis unfolding run by (auto simp: server_ok_def same_resources_def)
  qed
qed

lemma event_keeps:
  assumes os: "kernel_ok os opened budget" and k: "ready k (same_resources opened budget)"
    and sv: "server_ok opened ok base sv"
  shows "\<exists>sv'. h2_server_event os (ops k) l ev sv = Some sv' \<and> server_ok opened ok base sv'"
proof (cases "ev_fd ev = l")
  case True
  obtain r sv' where "h2_accept_clients os (ops k) l sv = Some (r, sv')" "server_ok opened ok base sv'"
    using accept_clients_keeps [OF os k sv] by blast
  with True sv show ?thesis by (auto simp: h2_server_event_def server_ok_def)
next
  case False
  then show ?thesis
    using client_event_keeps [OF os k sv] sv
    by (cases "h2_find_client (sv_clients sv) (ev_fd ev)") (auto simp: h2_server_event_def dest: find_client_Ptr)
qed

lemma events_keep:
  assumes os: "kernel_ok os opened budget" and k: "ready k (same_resources opened budget)"
  shows "server_ok opened ok base sv \<Longrightarrow> \<exists>sv'. h2_server_events os (ops k) l evs sv = Some sv' \<and> server_ok opened ok base sv'"
proof (induction evs arbitrary: sv)
  case (Cons ev evs)
  then show ?case using event_keeps [OF os k Cons.prems, of l ev] by fastforce
qed simp

lemma step_keeps:
  assumes os: "kernel_ok os opened budget" and k: "ready k (same_resources opened budget)"
    and sv: "server_ok opened ok base sv"
  shows "\<exists>sv'. (h2_server_step os (ops k) config l sv = Some (Inl sv') \<or>
      h2_server_step os (ops k) config l sv = Some (Inr sv')) \<and> server_ok opened ok base sv'"
proof (cases "cfg_max_connections config > 0 \<and> sv_accepted sv \<ge> cfg_max_connections config \<and>
    h2_active_client_count (sv_clients sv) = 0")
  case False
  obtain n evs j w' where 1: "io_wait (ops k) (sv_io sv) 64 (- 1) (sv_world sv) = Some (n, evs, j, w')" "ok j"
    "same_resources opened budget (sv_world sv) w'" "n < 0 \<or> n = int (length evs)"
    using wait [OF k, of "sv_io sv" 64 "- 1" "sv_world sv"] sv by (auto simp: server_ok_def)
  let ?sv = "sv\<lparr>sv_io := j, sv_world := w'\<rparr>"
  have ok1: "server_ok opened ok base ?sv" using sv 1 by (simp add: server_ok_def same_resources_def)
  show ?thesis
  proof (cases "n < 0")
    case True
    with False 1 ok1 show ?thesis
      by (intro exI [of _ "?sv\<lparr>sv_exit := - 1\<rparr>"]) (auto simp: h2_server_step_def server_ok_def Let_def)
  next
    case nonneg: False
    then have n: "nat n = length evs" using 1(4) by auto
    obtain sv' where 2: "h2_server_events os (ops k) l evs ?sv = Some sv'" "server_ok opened ok base sv'"
      using events_keep [OF os k ok1] by blast
    with False nonneg 1 n show ?thesis
      by (intro exI [of _ sv']) (auto simp: h2_server_step_def rd_block_in Let_def)
  qed
qed (use sv in \<open>auto simp: h2_server_step_def\<close>)

lemma start_ok: "ok i \<Longrightarrow> server_ok opened ok (opened w) (server_start i w)"
proof -
  have "owner (replicate H2_SERVER_MAX_CLIENTS zero_client) = Map.empty"
    by (auto simp: owner_def fun_eq_iff zero_client_def)
  then show "ok i \<Longrightarrow> ?thesis" by (simp add: server_ok_def table_ok_def server_start_def zero_client_def)
qed

lemma reach_keeps:
  assumes "server_reaches os (ops k) config l sv sv'"
    and "kernel_ok os opened budget" "ready k (same_resources opened budget)" "server_ok opened ok base sv"
  shows "server_ok opened ok base sv'"
  using assms
proof (induction rule: server_reaches.induct)
  case (iterate sv sv' sv'')
  then show ?case using step_keeps [OF iterate.prems(1,2), of base sv' config l] by force
qed simp

lemma reachable_progress:
  assumes "kernel_ok os opened budget" "ready k (same_resources opened budget)" "ok i"
    and "server_reaches os (ops k) config l (server_start i w) sv"
  shows "\<exists>sv'. (h2_server_step os (ops k) config l sv = Some (Inl sv') \<or>
      h2_server_step os (ops k) config l sv = Some (Inr sv')) \<and> server_ok opened ok (opened w) sv'"
  using step_keeps [OF assms(1,2) reach_keeps [OF assms(4,1,2) start_ok [OF assms(3)]]] .

end

end
