(* ===== verification/Connection_Protocol.thy ===== *)
theory Connection_Protocol
  imports Connection_Safety
begin

unbundle bit_operations_syntax

section \<open>What a connection does for its peer\<close>

text \<open>
  Functional properties of the connection on top of the closed forms of \<open>Connection_Response\<close>: the
  answer to a request, the PING echo, the integrity of header blocks, the advertised receive credit,
  and what happens to a frame that is larger than the input array.
\<close>

subsection \<open>A complete response\<close>

text \<open>The response of a server to a request on a fresh stream.\<close>

definition response_frames :: "u32 \<Rightarrow> byte list \<Rightarrow> byte list" where
  "response_frames sid path =
     response_headers_frame sid (decimal (length (response_body path))) @ response_data_frame sid (response_body path)"

lemma length_response_frames:
  "length path < 256 \<Longrightarrow>
     length (response_frames sid path) = 76 + length (decimal (length (response_body path))) + length (response_body path)"
  using response_body(3) [of path]
  by (simp add: response_frames_def response_headers_frame_def response_data_frame_def length_response_bytes)

lemma push_fits: "length (pending c) + length bs \<le> H2_CONN_OUTPUT_CAP \<Longrightarrow> push c bs = (H2_OK, queued c bs)"
  by (simp add: push_def)

lemma pending_fields [simp]:
  "pending (c\<lparr>c_streams := ss\<rparr>) = pending c" "pending (c\<lparr>c_conn_send_window := w\<rparr>) = pending c"
  "pending (c\<lparr>c_responses_sent := n\<rparr>) = pending c" "pending (c\<lparr>c_last_stream_id := l\<rparr>) = pending c"
  "pending (c\<lparr>c_input := b\<rparr>) = pending c" "pending (c\<lparr>c_conn_recv_window := w\<rparr>) = pending c"
  "pending (c\<lparr>c_goaway_sent := g\<rparr>) = pending c" "pending (c\<lparr>c_goaway_error := e\<rparr>) = pending c"
  by (simp_all add: pending_def)

text \<open>The stream with the path its response names, after the whole response, and after a response whose
  body has to wait for a window.\<close>

definition named_path :: "h2_stream \<Rightarrow> h2_stream" where
  "named_path s = (if cstr (s_path s) = [] then s\<lparr>s_path := lit ''/''\<rparr> else s)"

definition responded :: "h2_stream \<Rightarrow> h2_stream" where
  "responded s =
     (if s_state s = H2_STREAM_STATE_OPEN
      then (named_path s)\<lparr>s_response_headers_sent := True,
             s_send_window := s_send_window s - int (length (response_body (s_path s))), s_response_body_deferred := False, s_response_sent := True,
             s_state := H2_STREAM_STATE_HALF_CLOSED_LOCAL\<rparr>
      else zero_stream\<lparr>s_id := s_id s, s_state := H2_STREAM_STATE_CLOSED\<rparr>)"

definition postponed :: "h2_stream \<Rightarrow> h2_stream" where
  "postponed s = (named_path s)\<lparr>s_response_headers_sent := True, s_response_body_deferred := True\<rparr>"

text \<open>Whether the windows admit the body, and the frames a stream still gets.\<close>

definition body_fits :: "int \<Rightarrow> h2_stream \<Rightarrow> bool" where
  "body_fits window s \<longleftrightarrow> int (length (response_body (s_path s))) \<le> window \<and>
     int (length (response_body (s_path s))) \<le> s_send_window s"

definition remaining_frames :: "h2_stream \<Rightarrow> bool \<Rightarrow> byte list" where
  "remaining_frames s fits =
     (if s_response_headers_sent s then []
      else response_headers_frame (s_id s) (decimal (length (response_body (s_path s))))) @
     (if fits then response_data_frame (s_id s) (response_body (s_path s)) else [])"

lemma named_path_simps [simp]:
  "s_id (named_path s) = s_id s" "s_state (named_path s) = s_state s" "s_send_window (named_path s) = s_send_window s"
  "s_recv_window (named_path s) = s_recv_window s" "s_response_headers_sent (named_path s) = s_response_headers_sent s"
  "s_response_body_deferred (named_path s) = s_response_body_deferred s" "s_response_sent (named_path s) = s_response_sent s"
  by (simp_all add: named_path_def)

lemma named_path_slot: "slot_ok s \<Longrightarrow> slot_ok (named_path s)"
  by (auto simp: named_path_def slot_ok_def stream_ok_def deferred_ok_def H2_STREAM_PATH_CAP_def lit_def)

lemma headers_sent_slot: "slot_ok s \<Longrightarrow> slot_ok (s\<lparr>s_response_headers_sent := True\<rparr>)"
  by (simp add: slot_ok_def deferred_ok_def)

lemma closed_zero:
  "s\<lparr>s_send_window := 0, s_recv_window := 0, s_response_headers_sent := False, s_response_body_deferred := False,
     s_response_sent := False, s_path := [], s_state := H2_STREAM_STATE_CLOSED\<rparr> =
   zero_stream\<lparr>s_id := s_id s, s_state := H2_STREAM_STATE_CLOSED\<rparr>"
  by (cases s) (simp add: zero_stream_def)

lemma queue_response_outcome:
  assumes "conn_ok c" "i < 128" "s = c_streams c ! i" "awaiting s" "\<not> s_response_sent s"
    and fits: "fits \<longleftrightarrow> body_fits (c_conn_send_window c) s"
    and room: "length (pending c) + length (remaining_frames s fits) \<le> H2_CONN_OUTPUT_CAP"
  shows "\<exists>c'. h2_connection_queue_response c i = Some (H2_OK, c') \<and> pending c' = pending c @ remaining_frames s fits \<and>
     c_streams c' = (c_streams c)[i := if fits then responded s else postponed s] \<and>
     c_conn_send_window c' = c_conn_send_window c - (if fits then int (length (response_body (s_path s))) else 0) \<and>
     c_responses_sent c' = c_responses_sent c + (if fits then 1 else 0) \<and> c_last_stream_id c' = c_last_stream_id c"
proof -
  let ?b = "response_body (s_path s)" and ?cl = "decimal (length (response_body (s_path s)))"
  let ?u = "(named_path s)\<lparr>s_response_headers_sent := True\<rparr>" and ?H = "response_headers_frame (s_id s) (decimal (length (response_body (s_path s))))"
  note slot = conn_okD(3) [OF assms(1,2), folded assms(3)]
  then have path: "length (s_path s) < 256" by (simp add: slot_ok_def stream_ok_def H2_STREAM_PATH_CAP_def)
  note body = response_body [OF path]
  let ?c = "set_stream c i (named_path s)"
  have len: "length (c_streams c) = 128" using conn_okD(2) [OF assms(1)] .
  have c: "conn_ok ?c" "c_streams ?c ! i = named_path s"
    using named_path_slot [OF slot] assms(1-3) len by (auto intro: conn_ok_set_stream)
  have id: "s_id s \<noteq> 0" "s_id (named_path s) \<noteq> 0" using assms(4) by (simp_all add: awaiting_def)
  obtain c1 where c1: "h2_connection_queue_response_headers ?c i ?cl = Some (H2_OK, c1)" "conn_ok c1"
      "c_streams c1 = (c_streams c)[i := ?u]" "c_conn_send_window c1 = c_conn_send_window c"
      "c_responses_sent c1 = c_responses_sent c" "c_last_stream_id c1 = c_last_stream_id c"
      "pending c1 = pending c @ remaining_frames s False"
  proof (cases "s_response_headers_sent s")
    case True
    then have same: "named_path s = ?u" by (cases s) (auto simp: named_path_def)
    have "(c_streams c)[i := named_path s] = (c_streams c)[i := ?u]" by (rule arg_cong [OF same])
    then show ?thesis
      using queue_response_headers_eq [OF c(1) assms(2) c(2) [symmetric] id(2) decimal_digits body(3)] True that [of ?c] c(1) len assms(2)
      by (simp add: remaining_frames_def)
  next
    case False
    let ?c1 = "set_stream (queued ?c ?H) i ?u"
    have fit: "length (pending c) + length ?H \<le> H2_CONN_OUTPUT_CAP" using room False by (simp add: remaining_frames_def)
    have "conn_ok (queued ?c ?H)" using c(1) fit by (intro conn_ok_queued) simp_all
    then have "conn_ok ?c1"
      using headers_sent_slot [OF named_path_slot [OF slot]] assms(2) c(2) by (intro conn_ok_set_stream) simp_all
    then show ?thesis
      using queue_response_headers_eq [OF c(1) assms(2) c(2) [symmetric] id(2) decimal_digits body(3)] fit False that [of ?c1] len assms(2)
      by (simp add: push_fits remaining_frames_def)
  qed
  have u: "c_streams c1 ! i = ?u" using assms(2) len c1(3) by simp
  have st: "s_state s = H2_STREAM_STATE_OPEN \<or> s_state s = H2_STREAM_STATE_HALF_CLOSED_REMOTE"
    using assms(4) by (simp add: awaiting_def)
  have q: "h2_connection_queue_response c i = h2_connection_queue_deferred_data c1 i ?b (length ?b)"
    using queue_response_eq [OF assms(1-3)] assms(5) c1(1) by (simp add: named_path_def)
  note d = queue_deferred_data_eq [OF c1(2) assms(2) u [symmetric] _ body(1), unfolded c1]
  show ?thesis
  proof (cases fits)
    case False
    then show ?thesis
      using q d id body(2) c1 fits by (auto simp: body_fits_def postponed_def not_le)
  next
    case True
    have "length (pending c1) + length (response_data_frame (s_id s) ?b) \<le> H2_CONN_OUTPUT_CAP"
      using room True c1(7) by (simp add: remaining_frames_def)
    then show ?thesis
      using q d id body(2) c1 fits True st
      by (auto simp: body_fits_def push_fits h2_stream_send_end_stream_def closed_zero responded_def remaining_frames_def)
  qed
qed


subsection \<open>Concrete connections for the witnesses\<close>

definition fresh_connection :: h2_connection where
  "fresh_connection = (h2_connection_init zero_connection)\<lparr>c_preface_seen := True\<rparr>"

lemma fresh_ok: "conn_ok fresh_connection"
  by (simp add: fresh_connection_def init_conn_ok)

lemmas fresh_simps = fresh_connection_def h2_connection_init_def zero_connection_def pending_def h2_consts

lemma extract_root_path:
  "h2_hpack_extract_path (Ptr [0x84]) 1 (Ptr []) H2_STREAM_PATH_CAP = Some (H2_OK, Ptr (lit ''/''))"
  by (simp add: h2_hpack_extract_path_def h2_hpack_extract_path_loop.simps h2_hpack_extract_path_step_def
     h2_hpack_decode_integer_def prefix_max_def h2_hpack_static_get_def H2_HPACK_STATIC_TABLE_LEN_def
     h2_static_table_def static_entry_def copy_text_eq h2_maybe_copy_path_def H2_STREAM_PATH_CAP_def lit_def cstr_def rd_def Let_def)

lemma root_body: "response_body (lit ''/'') = lit ''/'' @ [10]"
  by (simp add: response_body_def cstr_def lit_def)

definition open_block_connection :: h2_connection where
  "open_block_connection = fresh_connection\<lparr>c_header_block_open := True, c_header_block_stream_id := 1,
     c_input := frame_bytes H2_FRAME_DATA 0 1 [5]\<rparr>"

subsection \<open>Properties\<close>

lemma get_stream_free:
  assumes "conn_ok c" "c_last_stream_id c < sid"
    and "k < 128" "s_id (c_streams c ! k) = 0 \<or> s_state (c_streams c ! k) = H2_STREAM_STATE_CLOSED"
  shows "\<exists>i c1. h2_connection_get_stream c sid = (Ptr i, c1)"
proof -
  have "c_streams c ! k \<in> set (c_streams c)" using assms(3) conn_okD(2) [OF assms(1)] by simp
  with assms(4) have "scan (\<lambda>s. s_id s = 0 \<or> s_state s = H2_STREAM_STATE_CLOSED) (c_streams c) 0 \<noteq> NULL"
    unfolding scan_NULL_iff by blast
  then show ?thesis by (auto simp: h2_connection_get_stream_def split: ptr.splits)
qed

lemma extract_path_any: "h2_hpack_extract_path (Ptr b) len (Ptr p0) cap = h2_hpack_extract_path (Ptr b) len (Ptr p1) cap"
  if "0 < cap"
  using that by (simp add: h2_hpack_extract_path_def)

text \<open>The slot of a request on a new stream, after its answer.\<close>

definition answered_stream :: "u32 \<Rightarrow> byte list \<Rightarrow> int \<Rightarrow> bool \<Rightarrow> h2_stream" where
  "answered_stream sid path window ended =
     (if ended then zero_stream\<lparr>s_id := sid, s_state := H2_STREAM_STATE_CLOSED\<rparr>
      else \<lparr>s_id = sid, s_state = H2_STREAM_STATE_HALF_CLOSED_LOCAL,
             s_send_window = window - int (length (response_body path)), s_recv_window = H2_DEFAULT_WINDOW_SIZE,
             s_response_headers_sent = True, s_response_body_deferred = False, s_response_sent = True,
             s_path = (if cstr path = [] then lit ''/'' else path)\<rparr>)"

lemma answered_stream_id [simp]: "s_id (answered_stream sid path window ended) = sid"
  by (simp add: answered_stream_def)

lemma find_stream_new:
  assumes "conn_ok c" "c_last_stream_id c < sid" "i < 128" "s_id s = sid"
    and "c_streams c' = (c_streams c)[i := s]"
  shows "h2_connection_find_stream c' sid = Ptr i"
proof -
  have len: "length (c_streams c) = 128" and ids: "ids_ok (c_last_stream_id c) (map s_id (c_streams c))"
    using conn_okD [OF assms(1)] by simp_all
  have nz: "sid \<noteq> 0" using assms(2) by auto
  have "s_id (c_streams c ! j) \<noteq> sid" if "j < 128" for j
    using ids len nz that assms(2) by (auto simp: ids_ok_def)
  then show ?thesis
    using scan_first [of i "(c_streams c)[i := s]" "\<lambda>s. s_id s = sid" 0] assms(3-5) len
    by (simp add: h2_connection_find_stream_def nth_list_update)
qed

lemma finish_headers_answers:
  assumes "conn_ok c" "c_last_stream_id c < sid" "sid AND 1 \<noteq> 0"
    and free: "\<exists>k < 128. s_id (c_streams c ! k) = 0 \<or> s_state (c_streams c ! k) = H2_STREAM_STATE_CLOSED"
    and path: "h2_hpack_extract_path (Ptr b) len (Ptr []) H2_STREAM_PATH_CAP = Some (H2_OK, Ptr path)" "length path < 256"
    and windows: "int (length (response_body path)) \<le> c_conn_send_window c"
      "int (length (response_body path)) \<le> c_initial_stream_window c"
    and room: "length (pending c) + length (response_frames sid path) \<le> H2_CONN_OUTPUT_CAP"
  shows "\<exists>c' i. h2_connection_finish_headers c sid fl b len = Some (H2_OK, c') \<and>
     pending c' = pending c @ response_frames sid path \<and>
     c_conn_send_window c' = c_conn_send_window c - int (length (response_body path)) \<and>
     c_responses_sent c' = c_responses_sent c + 1 \<and> c_last_stream_id c' = sid \<and>
     i < 128 \<and> (s_id (c_streams c ! i) = 0 \<or> s_state (c_streams c ! i) = H2_STREAM_STATE_CLOSED) \<and>
     h2_connection_find_stream c' sid = Ptr i \<and>
     c_streams c' = (c_streams c)[i := answered_stream sid path (c_initial_stream_window c) (fl AND H2_FLAG_END_STREAM \<noteq> 0)]"
proof -
  obtain i c1 where g: "h2_connection_get_stream c sid = (Ptr i, c1)"
    using free get_stream_free [OF assms(1,2)] by blast
  note g' = get_stream_keeps [OF assms(1-3) g]
  let ?s = "c_streams c1 ! i" and ?c = "c1\<lparr>c_last_stream_id := sid\<rparr>" and ?ended = "fl AND H2_FLAG_END_STREAM \<noteq> 0"
  have nz: "sid \<noteq> 0" using assms(2) by auto
  have s: "s_id ?s = sid" "s_state ?s = H2_STREAM_STATE_IDLE" "s_send_window ?s = c_initial_stream_window c"
    "\<not> s_response_sent ?s" "\<not> s_response_headers_sent ?s" "\<not> s_response_body_deferred ?s"
    by (simp_all add: g'(4) h2_stream_init_def zero_stream_def)
  define t where "t = ?s\<lparr>s_path := path, s_state := (if fl AND H2_FLAG_END_STREAM \<noteq> 0
      then H2_STREAM_STATE_HALF_CLOSED_REMOTE else H2_STREAM_STATE_OPEN)\<rparr>"
  have len: "length (c_streams c1) = 128" using conn_okD(2) [OF g'(2)] by simp
  have "slot_ok ?s" using conn_okD(3) [OF g'(2) g'(1)] by simp
  then have t: "slot_ok t" "s_id t = sid" "awaiting t" "\<not> s_response_sent t" "\<not> s_response_headers_sent t" "s_path t = path"
    "s_send_window t = c_initial_stream_window c"
    using s path(2) nz by (auto simp: t_def slot_ok_def stream_ok_def deferred_ok_def awaiting_def H2_STREAM_PATH_CAP_def)
  let ?ct = "set_stream ?c i t"
  have ct: "conn_ok ?ct" using conn_ok_set_stream [OF g'(2,1) t(1)] t(2) s(1) by simp
  have same: "pending ?ct = pending c" "c_conn_send_window ?ct = c_conn_send_window c" "c_responses_sent ?ct = c_responses_sent c"
    "(c_streams ?ct)[i := x] = (c_streams c)[i := x]" for x
    by (simp_all add: g'(5))
  have x: "h2_hpack_extract_path (Ptr b) len (Ptr (s_path ?s)) H2_STREAM_PATH_CAP = Some (H2_OK, Ptr path)"
    using path(1) extract_path_any [of H2_STREAM_PATH_CAP b len "s_path ?s" "[]"] by (simp add: H2_STREAM_PATH_CAP_def)
  have fits: "body_fits (c_conn_send_window ?ct) t" using windows same(2) t(6,7) by (simp add: body_fits_def)
  have frames: "remaining_frames t True = response_frames sid path"
    using t(2,5,6) by (simp add: remaining_frames_def response_frames_def)
  have after: "responded t = answered_stream sid path (c_initial_stream_window c) ?ended"
    using t(6,7) by (simp add: responded_def answered_stream_def named_path_def t_def g'(4) h2_stream_init_def zero_stream_def)
  obtain c' where c': "h2_connection_queue_response ?ct i = Some (H2_OK, c')"
     "pending c' = pending c @ response_frames sid path"
     "c_streams c' = (c_streams c)[i := answered_stream sid path (c_initial_stream_window c) ?ended]"
     "c_conn_send_window c' = c_conn_send_window c - int (length (response_body path))"
     "c_responses_sent c' = c_responses_sent c + 1" "c_last_stream_id c' = sid"
    using queue_response_outcome [OF ct g'(1) _ t(3,4), of True] fits frames after room same len g'(1) t(6) by auto
  have "h2_connection_finish_headers c sid fl b len = Some (H2_OK, c')"
    using assms(2,3) g g'(1) len x c'(1) s(2)
    by (simp add: h2_connection_finish_headers_def rd_in h2_stream_receive_headers_def t_def not_le)
  moreover have "h2_connection_find_stream c' sid = Ptr i"
    using find_stream_new [OF assms(1,2) g'(1) _ c'(3)] by simp
  ultimately show ?thesis using c' g'(1,6) by blast
qed

text \<open>C4: a request is answered completely and in order. When the header block of a fresh odd stream decodes
  to a path, a slot is free, the windows admit the body and the output has room, then
  \<open>h2_connection_finish_headers\<close> succeeds and appends to the output exactly one HEADERS frame with
  the response header block and one DATA frame with END_STREAM that holds the path and a newline. It
  charges the connection's send window with the body, counts the response and records the stream
  id. Of the table it changes one slot, which was free and is the one the connection finds under the id
  from then on: closed if the client had ended the stream, otherwise half closed, with the body taken
  from the initial send window, the headers and the response marked as sent, and the path kept.\<close>

theorem request_is_answered:
  assumes "conn_ok c" "c_last_stream_id c < sid" "sid AND 1 \<noteq> 0"
    and free: "\<exists>k < 128. s_id (c_streams c ! k) = 0 \<or> s_state (c_streams c ! k) = H2_STREAM_STATE_CLOSED"
    and path: "h2_hpack_extract_path (Ptr b) len (Ptr []) H2_STREAM_PATH_CAP = Some (H2_OK, Ptr path)" "length path < 256"
    and windows: "int (length (response_body path)) \<le> c_conn_send_window c"
      "int (length (response_body path)) \<le> c_initial_stream_window c"
    and room: "length (pending c) + length (response_frames sid path) \<le> H2_CONN_OUTPUT_CAP"
  shows "\<exists>c' i. h2_connection_finish_headers c sid fl b len = Some (H2_OK, c') \<and>
     pending c' = pending c @ response_frames sid path \<and>
     c_conn_send_window c' = c_conn_send_window c - int (length (response_body path)) \<and>
     c_responses_sent c' = c_responses_sent c + 1 \<and> c_last_stream_id c' = sid \<and>
     i < 128 \<and> (s_id (c_streams c ! i) = 0 \<or> s_state (c_streams c ! i) = H2_STREAM_STATE_CLOSED) \<and>
     h2_connection_find_stream c' sid = Ptr i \<and>
     c_streams c' = (c_streams c)[i :=
       (if fl AND H2_FLAG_END_STREAM \<noteq> 0 then zero_stream\<lparr>s_id := sid, s_state := H2_STREAM_STATE_CLOSED\<rparr>
        else \<lparr>s_id = sid, s_state = H2_STREAM_STATE_HALF_CLOSED_LOCAL,
               s_send_window = c_initial_stream_window c - int (length (response_body path)),
               s_recv_window = H2_DEFAULT_WINDOW_SIZE, s_response_headers_sent = True,
               s_response_body_deferred = False, s_response_sent = True,
               s_path = (if cstr path = [] then lit ''/'' else path)\<rparr>)]"
  using finish_headers_answers [OF assms, of fl] unfolding answered_stream_def .

lemma request_is_answered_witness:
  "\<exists>c' i. h2_connection_finish_headers fresh_connection 1 0 [0x84] 1 = Some (H2_OK, c') \<and>
     pending c' = pending fresh_connection @ response_frames 1 (lit ''/'') \<and>
     c_conn_send_window c' = 65533 \<and> c_responses_sent c' = 1 \<and> c_last_stream_id c' = 1 \<and> i < 128 \<and>
     h2_connection_find_stream c' 1 = Ptr i \<and>
     c_streams c' = (c_streams fresh_connection)[i := \<lparr>s_id = 1, s_state = H2_STREAM_STATE_HALF_CLOSED_LOCAL,
               s_send_window = 65533, s_recv_window = 65535, s_response_headers_sent = True,
               s_response_body_deferred = False, s_response_sent = True, s_path = lit ''/''\<rparr>]"
proof -
  have free: "\<exists>k < 128. s_id (c_streams fresh_connection ! k) = 0 \<or> s_state (c_streams fresh_connection ! k) = H2_STREAM_STATE_CLOSED"
    by (intro exI [of _ 0]) (simp add: fresh_simps zero_stream_def)
  have room: "length (pending fresh_connection) + length (response_frames 1 (lit ''/'')) \<le> H2_CONN_OUTPUT_CAP"
    by (simp add: length_response_frames root_body decimal.simps fresh_simps)
  have fields: "c_last_stream_id fresh_connection < 1" "c_conn_send_window fresh_connection = 65535"
    "c_initial_stream_window fresh_connection = 65535" "c_responses_sent fresh_connection = 0"
    by (simp_all add: fresh_simps)
  have odd: "(1 :: u32) AND 1 \<noteq> 0" by simp
  have path: "length (lit ''/'') < 256" "cstr (lit ''/'') \<noteq> []" by (simp_all add: lit_def cstr_def)
  have body: "length (response_body (lit ''/'')) = 2" unfolding root_body by (simp add: lit_def)
  show ?thesis
    using request_is_answered [OF fresh_ok fields(1) odd free extract_root_path path(1) _ _ room, of 0] fields path body
    by (auto simp: H2_DEFAULT_WINDOW_SIZE_def)
qed

text \<open>C15: the header block the code builds for a response, four calls of the HPACK encoder into its local
  array, is never empty and fits, and it is a valid HPACK block: \<open>h2_hpack_decode_headers\<close> reads those
  bytes back as the four fields \<open>:status: 200\<close>, \<open>content-type: text/plain\<close>, \<open>content-length\<close> with the
  given text and \<open>server: c11-h2\<close>.\<close>

theorem response_block_decodes:
  assumes "0 \<notin> set cl" "length cl < 32" "4 \<le> cap" "cap \<le> length flds"
  shows "\<exists>n block flds'. h2_connection_response_block cl = Some (n, block) \<and> 0 < n \<and> n \<le> length block \<and> length block = 512 \<and>
    h2_hpack_decode_headers (Ptr block) n (Ptr flds) cap (Ptr n0) = Some (H2_OK, Ptr flds', Ptr 4) \<and>
    take 4 flds' = [\<lparr>hf_name = lit '':status'', hf_value = lit ''200''\<rparr>,
                    \<lparr>hf_name = lit ''content-type'', hf_value = lit ''text/plain''\<rparr>,
                    \<lparr>hf_name = lit ''content-length'', hf_value = cl\<rparr>,
                    \<lparr>hf_name = lit ''server'', hf_value = lit ''c11-h2''\<rparr>]"
proof -
  let ?i1 = "Header (lit '':status'') (lit ''200'')" and ?i2 = "Header (lit ''content-type'') (lit ''text/plain'')"
  let ?i3 = "Header (lit ''content-length'') cl" and ?i4 = "Header (lit ''server'') (lit ''c11-h2'')"
  let ?block = "patch (local_array 512) 0 (response_bytes cl)" and ?n = "length (response_bytes cl)"
  have n: "?n = 58 + length cl" using assms(2) by (simp add: length_response_bytes)
  have "static_pair 8 = Some (lit '':status'', lit ''200'')"
    by (simp add: static_pair_def h2_hpack_static_get_def H2_HPACK_STATIC_TABLE_LEN_def h2_static_table_def static_entry_def lit_def)
  note items = wire_item_indexed_bytes [OF this] wire_item_literal_bytes [of "lit ''content-type''" "lit ''text/plain''"]
    wire_item_literal_bytes [of "lit ''content-length''" cl] wire_item_literal_bytes [of "lit ''server''" "lit ''c11-h2''"]
  have "parse_block (literal_bytes (lit ''server'') (lit ''c11-h2'') @ []) = Inr [?i4]"
    by (subst parse_block_item [OF items(4)]) (simp_all add: parse_block.simps [of "[]"])
  then have "parse_block (response_bytes cl) = Inr [?i1, ?i2, ?i3, ?i4]"
    using parse_block_item [OF items(1)] parse_block_item [OF items(2)] parse_block_item [OF items(3)] assms(2)
    by (simp add: response_bytes_def indexed_bytes_8)
  moreover have "take ?n ?block = response_bytes cl" using n assms(2) by (simp add: take_patch)
  ultimately have "parse_block (take ?n ?block) = Inr [?i1, ?i2, ?i3, ?i4]" by simp
  moreover have four: "(4 :: nat) = Suc (Suc (Suc (Suc 0)))" by simp
  moreover have "0 < ?n" "?n \<le> length ?block" "length ?block = 512" using n assms(2) by simp_all
  ultimately show ?thesis
    unfolding four using decode_headers_parsed [of ?block ?n cap flds "[?i1, ?i2, ?i3, ?i4]" n0] assms
      response_block_eq [OF assms(1,2)] by simp
qed

lemma response_block_decodes_witness:
  "\<exists>n block flds'. h2_connection_response_block (lit ''2'') = Some (n, block) \<and> 0 < n \<and> n \<le> length block \<and> length block = 512 \<and>
    h2_hpack_decode_headers (Ptr block) n (Ptr (replicate 4 \<lparr>hf_name = [], hf_value = []\<rparr>)) 4 (Ptr 0) =
      Some (H2_OK, Ptr flds', Ptr 4) \<and>
    take 4 flds' = [\<lparr>hf_name = lit '':status'', hf_value = lit ''200''\<rparr>,
                    \<lparr>hf_name = lit ''content-type'', hf_value = lit ''text/plain''\<rparr>,
                    \<lparr>hf_name = lit ''content-length'', hf_value = lit ''2''\<rparr>,
                    \<lparr>hf_name = lit ''server'', hf_value = lit ''c11-h2''\<rparr>]"
  by (rule response_block_decodes) (simp_all add: lit_def)

text \<open>C21: a PING without ACK is answered by one PING with ACK and the same eight opaque bytes, whatever
  follows it in the input, and nothing else of the connection changes.\<close>

theorem ping_is_echoed:
  assumes "conn_ok c" "\<not> c_header_block_open c" "length opaque = 8" "fl AND H2_FLAG_ACK = 0"
    and "length (pending c) + 17 \<le> H2_CONN_OUTPUT_CAP"
  shows "h2_connection_process_frame c \<lparr>fh_length = 8, fh_type = H2_FRAME_PING, fh_flags = fl, fh_stream_id = 0\<rparr> (opaque @ rest) =
    Some (H2_OK, queued c (frame_bytes H2_FRAME_PING H2_FLAG_ACK 0 opaque))"
proof -
  have m: "\<not> 8 > c_max_frame_size c"
    using assms(1) by (simp add: conn_ok_def h2_consts word_less_nat_alt)
  have "h2_frame_encode_ping (Ptr (local_array 17)) 17 H2_FLAG_ACK (Ptr opaque)
     = Some (17, Ptr (frame_bytes H2_FRAME_PING H2_FLAG_ACK 0 opaque))"
    using assms(3) by (simp add: h2_frame_encode_ping_def encode_raw_eq H2_MAX_FRAME_SIZE_def patch_all)
  then show ?thesis
    using assms m conn_okD(1) [OF assms(1)]
    by (simp add: h2_connection_process_frame_def h2_connection_process_ping_def h2_frame_parse_ping_def
        h2_frame_validate_payload_def H2_MAX_FRAME_SIZE_def rd_block_in wr_block_patch patch_all
        H2_FRAME_HEADER_LEN_def queue_bytes_all push_fits)
qed

lemma ping_is_echoed_witness:
  "h2_connection_process_frame fresh_connection \<lparr>fh_length = 8, fh_type = H2_FRAME_PING, fh_flags = 0, fh_stream_id = 0\<rparr> [1, 2, 3, 4, 5, 6, 7, 8] =
    Some (H2_OK, queued fresh_connection (frame_bytes H2_FRAME_PING H2_FLAG_ACK 0 [1, 2, 3, 4, 5, 6, 7, 8]))"
  using ping_is_echoed [of fresh_connection "[1, 2, 3, 4, 5, 6, 7, 8]" 0 "[]"] fresh_ok by (simp add: fresh_simps)

text \<open>The header is read from the first nine bytes only.\<close>

lemma parse_header_append:
  assumes "9 \<le> length w" "9 \<le> n" "9 \<le> m"
  shows "h2_frame_parse_header (Ptr (w @ x)) n (Ptr out) = h2_frame_parse_header (Ptr w) m (Ptr out)"
proof -
  have "rd (w @ x) k = rd w k" if "k < 9" for k using assms(1) that by (simp add: rd_def nth_append)
  moreover from this have "h2_read_u31 (drop 5 (w @ x)) = h2_read_u31 (drop 5 w)"
    unfolding h2_read_u31_def rd_drop by simp
  ultimately show ?thesis
    using assms by (simp add: h2_frame_parse_header_def H2_FRAME_HEADER_LEN_def del: drop_append)
qed

text \<open>C27: the check against \<open>max_frame_size\<close> comes after the whole frame is buffered. A frame that
  announces more bytes than the input array holds is therefore never rejected with a
  FRAME_SIZE_ERROR and a GOAWAY: every further \<open>h2_connection_feed\<close> only buffers bytes behind it or
  reports an internal error, and queues nothing.\<close>

theorem oversized_frame_not_rejected:
  assumes "conn_ok c" "c_preface_seen c" "9 \<le> length (c_input c)"
    and header: "h2_frame_parse_header (Ptr (c_input c)) 9 (Ptr local_frame_header) = Some (H2_OK, Ptr h)"
    and long: "9 + unat (fh_length h) > H2_CONN_INPUT_CAP" and n: "n \<le> length d"
  shows "\<exists>ret c'. h2_connection_feed (Ptr c) (Ptr d) n = Some (ret, Ptr c') \<and> (ret = H2_OK \<or> ret = H2_INTERNAL_ERROR) \<and>
     pending c' = pending c \<and> c_goaway_sent c' = c_goaway_sent c \<and>
     (\<exists>more. c_input c' = c_input c @ more)"
proof (cases "n > H2_CONN_INPUT_CAP - length (c_input c)")
  case True
  then show ?thesis
    using conn_okD(5) [OF assms(1)] by (simp add: h2_connection_feed_def H2_CONN_INPUT_CAP_def)
next
  case False
  let ?in = "c_input c @ take n d" and ?c = "c\<lparr>c_input := c_input c @ take n d\<rparr>"
  have len: "length (c_input c) + n \<le> 131072"
    using False conn_okD(5) [OF assms(1)] by (simp add: H2_CONN_INPUT_CAP_def)
  have "h2_frame_parse_header (Ptr ?in) (length ?in) (Ptr local_frame_header) = Some (H2_OK, Ptr h)"
    using parse_header_append [of "c_input c" "length ?in" 9 "take n d"] header assms(3) by simp
  moreover have "size_add 9 (unat (fh_length h)) = 9 + unat (fh_length h)" using unat_u32_less [of "fh_length h"] by simp
  ultimately have "h2_connection_feed_step ?c = Some (Inl (H2_OK, ?c))"
    using long len n by (simp add: h2_connection_feed_step_def H2_FRAME_HEADER_LEN_def H2_CONN_INPUT_CAP_def)
  then have loop: "h2_connection_feed_loop ?c = Some (H2_OK, ?c)"
    using assms(3) by (simp add: h2_connection_feed_loop.simps [of ?c] H2_FRAME_HEADER_LEN_def)
  have pre: "h2_connection_feed_preface ?c = Some (Inr ?c)" using assms(2) by (simp add: h2_connection_feed_preface_def)
  have app: "append_within H2_CONN_INPUT_CAP (c_input c) (take n d) = Some ?in"
    using len n by (intro append_within_in) (simp add: H2_CONN_INPUT_CAP_def)
  have "n = 0 \<Longrightarrow> ?c = c" by simp
  then have "h2_connection_feed (Ptr c) (Ptr d) n = Some (H2_OK, Ptr ?c)"
    using loop pre app False n len
    by (cases "n = 0") (simp_all add: h2_connection_feed_def rd_block_in H2_CONN_INPUT_CAP_def)
  then show ?thesis by auto
qed

lemma oversized_frame_not_rejected_witness:
  "\<exists>ret c'. h2_connection_feed (Ptr (fresh_connection\<lparr>c_input := [0x10, 0, 0, 0, 0, 0, 0, 0, 1]\<rparr>)) (Ptr [7, 7]) 2 = Some (ret, Ptr c') \<and>
     (ret = H2_OK \<or> ret = H2_INTERNAL_ERROR) \<and> pending c' = [] \<and> \<not> c_goaway_sent c' \<and>
     (\<exists>more. c_input c' = [0x10, 0, 0, 0, 0, 0, 0, 0, 1] @ more)"
proof -
  let ?c = "fresh_connection\<lparr>c_input := [0x10, 0, 0, 0, 0, 0, 0, 0, 1]\<rparr>"
  have "h2_frame_parse_header (Ptr (c_input ?c)) 9 (Ptr local_frame_header) =
      Some (H2_OK, Ptr \<lparr>fh_length = 0x100000, fh_type = H2_FRAME_DATA, fh_flags = 0, fh_stream_id = 1\<rparr>)"
    by (simp add: h2_frame_parse_header_def H2_FRAME_HEADER_LEN_def rd_def h2_read_u31_def)
  moreover have "conn_ok ?c" using fresh_ok by (intro conn_ok_input) simp_all
  ultimately show ?thesis
    using oversized_frame_not_rejected [of ?c "\<lparr>fh_length = 0x100000, fh_type = H2_FRAME_DATA, fh_flags = 0, fh_stream_id = 1\<rparr>" 2 "[7, 7]"]
    by (simp add: fresh_simps)
qed

text \<open>C12: a header block is contiguous. While one is open, the next frame of the input, unless it is a
  CONTINUATION of the same stream, ends the feed loop with a protocol error and one GOAWAY that
  names it and the last stream id; no stream and no window changes.\<close>

theorem header_block_not_interrupted:
  assumes "conn_ok c" "c_header_block_open c" "\<not> c_goaway_sent c"
    and input: "c_input c = frame_bytes t f sid p @ rest" "unat (c_max_frame_size c) \<ge> length p"
    and other: "t \<noteq> H2_FRAME_CONTINUATION \<or> sid AND 0x7fffffff \<noteq> c_header_block_stream_id c"
    and room: "length (pending c) + 17 \<le> H2_CONN_OUTPUT_CAP"
  shows "h2_connection_feed_loop c =
    Some (H2_PROTOCOL_ERROR, queued (c\<lparr>c_goaway_sent := True, c_goaway_error := 1\<rparr>) (goaway_frame (c_last_stream_id c) 1))"
proof -
  have p: "length p \<le> H2_MAX_FRAME_SIZE" using assms(1) input(2) by (simp add: conn_ok_def)
  then have u: "unat (of_nat (length p) :: u32) = length p" by (rule unat_payload_len)
  let ?h = "\<lparr>fh_length = of_nat (length p), fh_type = t, fh_flags = f, fh_stream_id = sid AND 0x7fffffff\<rparr>"
  have h: "h2_frame_parse_header (Ptr (c_input c)) (length (c_input c)) (Ptr local_frame_header) = Some (H2_OK, Ptr ?h)"
    using p by (simp add: input frame_bytes_def parse_header_bytes u)
  have "\<not> of_nat (length p) > c_max_frame_size c" using input(2) u by (simp add: word_less_nat_alt)
  then have "h2_connection_process_frame c ?h (drop 9 (c_input c)) = Some (H2_PROTOCOL_ERROR, c)"
    using assms(2) other by (simp add: h2_connection_process_frame_def)
  moreover have "size_add 9 (length p) = 9 + length p" using p by (simp add: H2_MAX_FRAME_SIZE_def)
  moreover have "h2_connection_queue_goaway c 1 =
      Some (H2_OK, queued (c\<lparr>c_goaway_sent := True, c_goaway_error := 1\<rparr>) (goaway_frame (c_last_stream_id c) 1))"
    using queue_goaway_eq [OF conn_okD(1) [OF assms(1)], of 1] assms(3) room
    by (simp add: push_fits goaway_frame_def)
  ultimately have "h2_connection_feed_step c =
    Some (Inl (H2_PROTOCOL_ERROR, queued (c\<lparr>c_goaway_sent := True, c_goaway_error := 1\<rparr>) (goaway_frame (c_last_stream_id c) 1)))"
    using h u input(1) by (simp add: h2_connection_feed_step_def H2_FRAME_HEADER_LEN_def h2_connection_is_stream_error_def)
  then show ?thesis
    by (simp add: h2_connection_feed_loop.simps [of c] H2_FRAME_HEADER_LEN_def input(1))
qed

lemma header_block_not_interrupted_witness:
  "h2_connection_feed_loop open_block_connection =
    Some (H2_PROTOCOL_ERROR, queued (open_block_connection\<lparr>c_goaway_sent := True, c_goaway_error := 1\<rparr>) (goaway_frame 0 1))"
proof -
  have "conn_ok open_block_connection"
    using conn_ok_input [OF fresh_ok, of "frame_bytes H2_FRAME_DATA 0 1 [5]"]
    by (simp add: open_block_connection_def conn_ok_def queue_ok_def)
  then show ?thesis
    using header_block_not_interrupted [of open_block_connection H2_FRAME_DATA 0 1 "[5]" "[]"]
    by (simp add: open_block_connection_def fresh_simps)
qed

text \<open>C13: receive credit is given exactly as it is advertised. Refreshing the receive windows moves the
  connection's and the stream's window by the increments of the WINDOW_UPDATE frames it queues for
  them, in this order, and leaves both above half of the default size.\<close>

theorem credit_is_advertised:
  assumes "conn_ok c" "i < 128" "length (pending c) + 26 \<le> H2_CONN_OUTPUT_CAP"
  shows "\<exists>c' inc0 inc1. h2_connection_refresh_recv_windows c (Ptr i) = Some (H2_OK, c') \<and>
     pending c' = pending c @ (if inc0 = 0 then [] else window_update_frame 0 inc0) @
       (if inc1 = 0 then [] else window_update_frame (s_id (c_streams c ! i)) inc1) \<and>
     c_conn_recv_window c' = c_conn_recv_window c + uint inc0 \<and>
     s_recv_window (c_streams c' ! i) = s_recv_window (c_streams c ! i) + uint inc1 \<and>
     c_conn_recv_window c' > H2_DEFAULT_WINDOW_SIZE div 2 \<and> s_recv_window (c_streams c' ! i) > H2_DEFAULT_WINDOW_SIZE div 2"
proof -
  define inc0 where "inc0 = (if c_conn_recv_window c \<le> 32767 then refill (c_conn_recv_window c) else 0)"
  let ?f0 = "if inc0 = 0 then [] else window_update_frame 0 inc0"
  let ?s = "c_streams c ! i"
  have wu: "length (window_update_frame s v) = 13" for s v by (simp add: window_update_frame_def)
  note w = conn_okD(7,8) [OF assms(1)]
  have len: "length (c_streams c) = 128" using conn_okD(2) [OF assms(1)] .
  obtain c1 where c1: "h2_connection_refresh_conn_window c = Some (H2_OK, c1)" "conn_ok c1"
    "pending c1 = pending c @ ?f0" "c_conn_recv_window c1 = c_conn_recv_window c + uint inc0"
    "c_conn_recv_window c1 > 32767" "c_streams c1 = c_streams c"
  proof (cases "c_conn_recv_window c \<le> 32767")
    case True
    let ?c1 = "queued (c\<lparr>c_conn_recv_window := 65535\<rparr>) (window_update_frame 0 (refill (c_conn_recv_window c)))"
    have "conn_ok ?c1" using assms by (intro conn_ok_queued conn_ok_recv_window) (simp_all add: wu)
    then show ?thesis
      using that [of ?c1] True refill(4,6) [OF w(1) True] refresh_conn_window_eq [OF assms(1)] assms(3)
      by (simp add: push_fits wu inc0_def)
  next
    case False
    then show ?thesis using that [of c] refresh_conn_window_eq [OF assms(1)] assms(1) by (simp add: inc0_def)
  qed
  have s: "0 \<le> s_recv_window ?s"
    using conn_okD(3) [OF assms(1,2)] by (simp add: slot_ok_def stream_ok_def)
  have room: "length (pending c1) + 13 \<le> H2_CONN_OUTPUT_CAP" using c1(3) assms(3) wu [of 0 inc0] by (auto split: if_splits)
  show ?thesis
  proof (cases "s_recv_window ?s \<le> 32767")
    case True
    then show ?thesis
      using c1 room refresh_stream_window_eq [OF c1(2) assms(2) refl] refill(4,6) [OF s True] len assms(2)
      by (intro exI [of _ "queued (set_stream c1 i (?s\<lparr>s_recv_window := 65535\<rparr>)) (window_update_frame (s_id ?s) (refill (s_recv_window ?s)))"]
            exI [of _ inc0] exI [of _ "refill (s_recv_window ?s)"])
         (simp add: h2_connection_refresh_recv_windows_def push_fits wu H2_DEFAULT_WINDOW_SIZE_def)
  next
    case False
    then show ?thesis
      using c1 refresh_stream_window_eq [OF c1(2) assms(2) refl]
      by (intro exI [of _ c1] exI [of _ inc0] exI [of _ 0])
         (simp add: h2_connection_refresh_recv_windows_def H2_DEFAULT_WINDOW_SIZE_def)
  qed
qed

lemma credit_is_advertised_witness:
  "\<exists>c' inc0 inc1. h2_connection_refresh_recv_windows (fresh_connection\<lparr>c_conn_recv_window := 20000\<rparr>) (Ptr 0) = Some (H2_OK, c') \<and>
     pending c' = (if inc0 = 0 then [] else window_update_frame 0 inc0) @ (if inc1 = 0 then [] else window_update_frame 0 inc1) \<and>
     c_conn_recv_window c' = 20000 + uint inc0 \<and>
     s_recv_window (c_streams c' ! 0) = uint inc1 \<and>
     c_conn_recv_window c' > H2_DEFAULT_WINDOW_SIZE div 2 \<and> s_recv_window (c_streams c' ! 0) > H2_DEFAULT_WINDOW_SIZE div 2"
proof -
  let ?c = "fresh_connection\<lparr>c_conn_recv_window := 20000\<rparr>"
  have f: "pending ?c = []" "c_conn_recv_window ?c = 20000" "s_id (c_streams ?c ! 0) = 0" "s_recv_window (c_streams ?c ! 0) = 0"
    by (simp_all add: fresh_simps zero_stream_def)
  have "conn_ok ?c" using conn_ok_recv_window [OF fresh_ok, of 20000] by simp
  moreover have "length (pending ?c) + 26 \<le> H2_CONN_OUTPUT_CAP" unfolding f by (simp add: h2_consts)
  ultimately show ?thesis
    using credit_is_advertised [of ?c 0, OF _ zero_less_numeral] unfolding f add_0 append_Nil by blast
qed

end
