(* ===== verification/Io_Epoll.thy ===== *)
theory Io_Epoll
  imports Io
begin

unbundle bit_operations_syntax

section \<open>The epoll backend\<close>

text \<open>
  \<open>src/io_epoll.c\<close>. The descriptor of the epoll instance is the whole \<open>h2_io\<close> object (\<open>io->state\<close> is
  \<open>NULL\<close> and not used). A \<open>struct epoll_event\<close> is the pair of its event mask and \<open>data.fd\<close>. The system
  calls are the fields of \<open>epoll_os\<close>; the constants are those of the Linux ABI. The second half
  interprets the contract \<open>io_backend\<close>.
\<close>

subsection \<open>System calls and constants\<close>

record 'w epoll_os =
  ep_create :: "'w \<Rightarrow> int sys \<times> 'w"
  ep_ctl :: "int \<Rightarrow> int \<Rightarrow> int \<Rightarrow> (u32 \<times> int) ptr \<Rightarrow> 'w \<Rightarrow> unit sys \<times> 'w"
  ep_wait :: "int \<Rightarrow> nat \<Rightarrow> int \<Rightarrow> 'w \<Rightarrow> (u32 \<times> int) list sys \<times> 'w"
  ep_close :: "int \<Rightarrow> 'w \<Rightarrow> 'w"

definition EPOLLIN :: u32 where "EPOLLIN = 0x1"
definition EPOLLOUT :: u32 where "EPOLLOUT = 0x4"
definition EPOLLERR :: u32 where "EPOLLERR = 0x8"
definition EPOLLHUP :: u32 where "EPOLLHUP = 0x10"
definition EPOLLRDHUP :: u32 where "EPOLLRDHUP = 0x2000"
definition EPOLL_CTL_ADD :: int where "EPOLL_CTL_ADD = 1"
definition EPOLL_CTL_DEL :: int where "EPOLL_CTL_DEL = 2"
definition EPOLL_CTL_MOD :: int where "EPOLL_CTL_MOD = 3"

lemmas epoll_consts = EPOLLIN_def EPOLLOUT_def EPOLLERR_def EPOLLHUP_def EPOLLRDHUP_def
  EPOLL_CTL_ADD_def EPOLL_CTL_DEL_def EPOLL_CTL_MOD_def

record h2_epoll_io =
  epio_fd :: int

subsection \<open>Operations\<close>

definition epoll_io_init :: "'w epoll_os \<Rightarrow> h2_epoll_io ptr \<Rightarrow> 'w \<Rightarrow> int \<times> h2_epoll_io ptr \<times> 'w" where
  "epoll_io_init k io w =
     (case io of
        NULL \<Rightarrow> (- 1, NULL, w)
      | Ptr io \<Rightarrow>
          (case ep_create k w of
             (Failed e, w) \<Rightarrow> (- 1, Ptr (io\<lparr>epio_fd := - 1\<rparr>), w)
           | (Done fd, w) \<Rightarrow> (if fd \<ge> 0 then 0 else - 1, Ptr (io\<lparr>epio_fd := fd\<rparr>), w)))"

definition epoll_io_ctl :: "'w epoll_os \<Rightarrow> h2_epoll_io \<Rightarrow> int \<Rightarrow> int \<Rightarrow> u32 \<Rightarrow> 'w \<Rightarrow> int \<times> 'w" where
  "epoll_io_ctl k io op fd events w =
     (case ep_ctl k (epio_fd io) op fd (Ptr (events, fd)) w of (r, w) \<Rightarrow> (status r, w))"

definition epoll_io_add_listener :: "'w epoll_os \<Rightarrow> h2_epoll_io \<Rightarrow> int \<Rightarrow> 'w \<Rightarrow> int \<times> 'w" where
  "epoll_io_add_listener k io fd w = epoll_io_ctl k io EPOLL_CTL_ADD fd (EPOLLIN OR EPOLLRDHUP) w"

definition epoll_io_add_connection :: "'w epoll_os \<Rightarrow> h2_epoll_io \<Rightarrow> int \<Rightarrow> 'w \<Rightarrow> int \<times> 'w" where
  "epoll_io_add_connection k io fd w = epoll_io_ctl k io EPOLL_CTL_ADD fd (EPOLLIN OR EPOLLRDHUP) w"

definition epoll_io_mod_connection :: "'w epoll_os \<Rightarrow> h2_epoll_io \<Rightarrow> int \<Rightarrow> bool \<Rightarrow> 'w \<Rightarrow> int \<times> 'w" where
  "epoll_io_mod_connection k io fd want_write w =
     (let events = EPOLLIN OR EPOLLRDHUP;
          events = (if want_write then events OR EPOLLOUT else events)
      in epoll_io_ctl k io EPOLL_CTL_MOD fd events w)"

definition epoll_io_remove :: "'w epoll_os \<Rightarrow> h2_epoll_io \<Rightarrow> int \<Rightarrow> 'w \<Rightarrow> int \<times> 'w" where
  "epoll_io_remove k io fd w =
     (case ep_ctl k (epio_fd io) EPOLL_CTL_DEL fd NULL w of (_, w) \<Rightarrow> (0, w))"

definition epoll_event_of :: "u32 \<times> int \<Rightarrow> h2_event" where
  "epoll_event_of e =
     \<lparr>ev_fd = snd e,
      ev_readable = (fst e AND EPOLLIN \<noteq> 0),
      ev_writable = (fst e AND EPOLLOUT \<noteq> 0),
      ev_closed = (fst e AND (EPOLLERR OR EPOLLHUP OR EPOLLRDHUP) \<noteq> 0)\<rparr>"

text \<open>The kernel stores into an array of 64 events, the loop into the caller's array of \<open>event_cap\<close>.\<close>

definition epoll_io_wait ::
  "'w epoll_os \<Rightarrow> h2_epoll_io \<Rightarrow> nat \<Rightarrow> int \<Rightarrow> 'w \<Rightarrow> (int \<times> h2_event list \<times> 'w) option" where
  "epoll_io_wait k io event_cap timeout_ms w =
     (let cap = (if event_cap > 64 then 64 else event_cap) in
      case ep_wait k (epio_fd io) cap timeout_ms w of
        (Failed e, w) \<Rightarrow> Some (if e = EINTR then 0 else - 1, [], w)
      | (Done es, w) \<Rightarrow> do {
          kernel_events \<leftarrow> append_within 64 [] es;
          events \<leftarrow> append_within event_cap [] (map epoll_event_of kernel_events);
          Some (int (length kernel_events), events, w)
        })"

definition epoll_io_close :: "'w epoll_os \<Rightarrow> h2_epoll_io ptr \<Rightarrow> 'w \<Rightarrow> h2_epoll_io ptr \<times> 'w" where
  "epoll_io_close k io w =
     (case io of
        NULL \<Rightarrow> (NULL, w)
      | Ptr i \<Rightarrow> if epio_fd i \<ge> 0 then (Ptr (i\<lparr>epio_fd := - 1\<rparr>), ep_close k (epio_fd i) w) else (io, w))"

subsection \<open>As a backend of the server\<close>

definition epoll_ops :: "'w epoll_os \<Rightarrow> (h2_epoll_io, 'w) h2_io_ops" where
  "epoll_ops k =
     \<lparr>io_init = (\<lambda>w. case epoll_io_init k (Ptr \<lparr>epio_fd = 0\<rparr>) w of (ret, io, w) \<Rightarrow>
                  do { i \<leftarrow> deref io; Some (ret, i, w) }),
      io_add_listener = (\<lambda>i fd w. with_io i (epoll_io_add_listener k i fd w)),
      io_add_connection = (\<lambda>i fd w. with_io i (epoll_io_add_connection k i fd w)),
      io_mod_connection = (\<lambda>i fd b w. with_io i (epoll_io_mod_connection k i fd b w)),
      io_remove = (\<lambda>i fd w. with_io i (epoll_io_remove k i fd w)),
      io_wait = (\<lambda>i cap t w. do { (ret, evs, w) \<leftarrow> epoll_io_wait k i cap t w; Some (ret, evs, i, w) }),
      io_close = (\<lambda>i w. case epoll_io_close k (Ptr i) w of (io, w) \<Rightarrow> do { i \<leftarrow> deref io; Some (i, w) })\<rparr>"

text \<open>What the backend assumes of the system: \<open>epoll_wait\<close> returns at most \<open>maxevents\<close> events, and
  no epoll call changes what \<open>same\<close> relates.\<close>

definition epoll_ready :: "'w epoll_os \<Rightarrow> ('w \<Rightarrow> 'w \<Rightarrow> bool) \<Rightarrow> bool" where
  "epoll_ready k same \<longleftrightarrow> frame_relation same \<and>
     (\<forall>fd op x e w. same w (snd (ep_ctl k fd op x e w))) \<and>
     (\<forall>fd n t w. same w (snd (ep_wait k fd n t w)) \<and>
        (\<forall>es. fst (ep_wait k fd n t w) = Done es \<longrightarrow> length es \<le> n))"

lemma epoll_ctl_same:
  "epoll_ready k same \<Longrightarrow> same w (snd (epoll_io_ctl k io op fd ev w))"
  by (auto simp: epoll_ready_def epoll_io_ctl_def split: prod.split) (metis snd_conv)

interpretation epoll: io_backend epoll_ops epoll_ready "\<lambda>i. True"
proof (unfold_locales, goal_cases)
  case (1 k same)
  then show ?case by (simp add: epoll_ready_def)
next
  case (2 k same i w fd)
  then show ?case by (simp add: epoll_ops_def epoll_io_add_listener_def with_io_runs epoll_ctl_same)
next
  case (3 k same i w fd)
  then show ?case by (simp add: epoll_ops_def epoll_io_add_connection_def with_io_runs epoll_ctl_same)
next
  case (4 k same i w fd b)
  then show ?case by (simp add: epoll_ops_def epoll_io_mod_connection_def with_io_runs epoll_ctl_same Let_def)
next
  case (5 k same i w fd)
  then have "same w (snd (epoll_io_remove k i fd w))"
    by (auto simp: epoll_ready_def epoll_io_remove_def split: prod.split) (metis snd_conv)
  then show ?case by (simp add: epoll_ops_def with_io_runs)
next
  case (6 k same i cap t w)
  obtain r w' where r: "ep_wait k (epio_fd i) (if cap > 64 then 64 else cap) t w = (r, w')" by fastforce
  with 6 have s: "same w w'" "r = Done es \<Longrightarrow> length es \<le> (if cap > 64 then 64 else cap)" for es
    unfolding epoll_ready_def by (metis fst_conv snd_conv)+
  then show ?case using r
    by (cases r) (auto simp: epoll_ops_def epoll_io_wait_def Let_def append_within_in split: if_splits)
qed

end
