(* ===== verification/Io_Kqueue.thy ===== *)
theory Io_Kqueue
  imports Io
begin

unbundle bit_operations_syntax

section \<open>The kqueue backend\<close>

text \<open>
  \<open>src/io_kqueue.c\<close>. A \<open>struct kevent\<close> keeps the three fields the code uses: \<open>ident\<close>, a \<open>uintptr_t\<close>
  that the code converts from and to \<open>int\<close>, \<open>filter\<close> and \<open>flags\<close>. The system calls are the fields of
  \<open>kqueue_os\<close>, with \<open>kevent\<close> split into its use to change the interest and its use to wait; the
  constants are those of the BSD header. The second half interprets the contract \<open>io_backend\<close>.
\<close>

subsection \<open>System calls and constants\<close>

record kevent =
  ke_ident :: u64
  ke_filter :: int
  ke_flags :: u16

record timespec =
  tv_sec :: int
  tv_nsec :: int

record 'w kqueue_os =
  kq_create :: "'w \<Rightarrow> int sys \<times> 'w"
  kq_change :: "int \<Rightarrow> kevent \<Rightarrow> 'w \<Rightarrow> unit sys \<times> 'w"
  kq_wait :: "int \<Rightarrow> nat \<Rightarrow> timespec ptr \<Rightarrow> 'w \<Rightarrow> kevent list sys \<times> 'w"
  kq_close :: "int \<Rightarrow> 'w \<Rightarrow> 'w"

definition EVFILT_READ :: int where "EVFILT_READ = - 1"
definition EVFILT_WRITE :: int where "EVFILT_WRITE = - 2"
definition EV_ADD :: u16 where "EV_ADD = 0x1"
definition EV_DELETE :: u16 where "EV_DELETE = 0x2"
definition EV_ENABLE :: u16 where "EV_ENABLE = 0x4"
definition EV_DISABLE :: u16 where "EV_DISABLE = 0x8"
definition EV_ERROR :: u16 where "EV_ERROR = 0x4000"
definition EV_EOF :: u16 where "EV_EOF = 0x8000"

record h2_kqueue_io =
  kqio_fd :: int

subsection \<open>Operations\<close>

definition kqueue_io_init :: "'w kqueue_os \<Rightarrow> h2_kqueue_io ptr \<Rightarrow> 'w \<Rightarrow> int \<times> h2_kqueue_io ptr \<times> 'w" where
  "kqueue_io_init k io w =
     (case io of
        NULL \<Rightarrow> (- 1, NULL, w)
      | Ptr io \<Rightarrow>
          (case kq_create k w of
             (Failed e, w) \<Rightarrow> (- 1, Ptr (io\<lparr>kqio_fd := - 1\<rparr>), w)
           | (Done fd, w) \<Rightarrow> (if fd \<ge> 0 then 0 else - 1, Ptr (io\<lparr>kqio_fd := fd\<rparr>), w)))"

text \<open>The conversion \<open>(uintptr_t)fd\<close> of an \<open>int\<close>, and back.\<close>

definition kevent_ident :: "int \<Rightarrow> u64" where
  "kevent_ident fd = word_of_int fd"

definition kevent_fd :: "u64 \<Rightarrow> int" where
  "kevent_fd ident = cast_i32 (uint ident)"

definition kqueue_io_kevent :: "'w kqueue_os \<Rightarrow> int \<Rightarrow> int \<Rightarrow> int \<Rightarrow> u16 \<Rightarrow> 'w \<Rightarrow> int \<times> 'w" where
  "kqueue_io_kevent k kq fd flt flags w =
     (case kq_change k kq \<lparr>ke_ident = kevent_ident fd, ke_filter = flt, ke_flags = flags\<rparr> w of
        (r, w) \<Rightarrow> (status r, w))"

definition kqueue_io_add_listener :: "'w kqueue_os \<Rightarrow> h2_kqueue_io \<Rightarrow> int \<Rightarrow> 'w \<Rightarrow> int \<times> 'w" where
  "kqueue_io_add_listener k io fd w = kqueue_io_kevent k (kqio_fd io) fd EVFILT_READ (EV_ADD OR EV_ENABLE) w"

definition kqueue_io_add_connection :: "'w kqueue_os \<Rightarrow> h2_kqueue_io \<Rightarrow> int \<Rightarrow> 'w \<Rightarrow> int \<times> 'w" where
  "kqueue_io_add_connection k io fd w =
     (case kqueue_io_kevent k (kqio_fd io) fd EVFILT_READ (EV_ADD OR EV_ENABLE) w of (ret, w) \<Rightarrow>
        if ret \<noteq> 0 then (- 1, w)
        else kqueue_io_kevent k (kqio_fd io) fd EVFILT_WRITE (EV_ADD OR EV_DISABLE) w)"

definition kqueue_io_mod_connection :: "'w kqueue_os \<Rightarrow> h2_kqueue_io \<Rightarrow> int \<Rightarrow> bool \<Rightarrow> 'w \<Rightarrow> int \<times> 'w" where
  "kqueue_io_mod_connection k io fd want_write w =
     kqueue_io_kevent k (kqio_fd io) fd EVFILT_WRITE (if want_write then EV_ENABLE else EV_DISABLE) w"

definition kqueue_io_remove :: "'w kqueue_os \<Rightarrow> h2_kqueue_io \<Rightarrow> int \<Rightarrow> 'w \<Rightarrow> int \<times> 'w" where
  "kqueue_io_remove k io fd w =
     (case kqueue_io_kevent k (kqio_fd io) fd EVFILT_READ EV_DELETE w of (_, w) \<Rightarrow>
        (case kqueue_io_kevent k (kqio_fd io) fd EVFILT_WRITE EV_DELETE w of (_, w) \<Rightarrow> (0, w)))"

definition kqueue_event_of :: "kevent \<Rightarrow> h2_event" where
  "kqueue_event_of e =
     \<lparr>ev_fd = kevent_fd (ke_ident e),
      ev_readable = (ke_filter e = EVFILT_READ),
      ev_writable = (ke_filter e = EVFILT_WRITE),
      ev_closed = (ke_flags e AND (EV_EOF OR EV_ERROR) \<noteq> 0)\<rparr>"

definition kqueue_timeout :: "int \<Rightarrow> timespec ptr" where
  "kqueue_timeout timeout_ms =
     (if timeout_ms \<ge> 0
      then Ptr \<lparr>tv_sec = timeout_ms div 1000, tv_nsec = (timeout_ms mod 1000) * 1000000\<rparr>
      else NULL)"

definition kqueue_io_wait ::
  "'w kqueue_os \<Rightarrow> h2_kqueue_io \<Rightarrow> nat \<Rightarrow> int \<Rightarrow> 'w \<Rightarrow> (int \<times> h2_event list \<times> 'w) option" where
  "kqueue_io_wait k io event_cap timeout_ms w =
     (let cap = (if event_cap > 64 then 64 else event_cap) in
      case kq_wait k (kqio_fd io) cap (kqueue_timeout timeout_ms) w of
        (Failed e, w) \<Rightarrow> Some (if e = EINTR then 0 else - 1, [], w)
      | (Done es, w) \<Rightarrow> do {
          kernel_events \<leftarrow> append_within 64 [] es;
          events \<leftarrow> append_within event_cap [] (map kqueue_event_of kernel_events);
          Some (int (length kernel_events), events, w)
        })"

definition kqueue_io_close :: "'w kqueue_os \<Rightarrow> h2_kqueue_io ptr \<Rightarrow> 'w \<Rightarrow> h2_kqueue_io ptr \<times> 'w" where
  "kqueue_io_close k io w =
     (case io of
        NULL \<Rightarrow> (NULL, w)
      | Ptr i \<Rightarrow> if kqio_fd i \<ge> 0 then (Ptr (i\<lparr>kqio_fd := - 1\<rparr>), kq_close k (kqio_fd i) w) else (io, w))"

subsection \<open>As a backend of the server\<close>

definition kqueue_ops :: "'w kqueue_os \<Rightarrow> (h2_kqueue_io, 'w) h2_io_ops" where
  "kqueue_ops k =
     \<lparr>io_init = (\<lambda>w. case kqueue_io_init k (Ptr \<lparr>kqio_fd = 0\<rparr>) w of (ret, io, w) \<Rightarrow>
                  do { i \<leftarrow> deref io; Some (ret, i, w) }),
      io_add_listener = (\<lambda>i fd w. with_io i (kqueue_io_add_listener k i fd w)),
      io_add_connection = (\<lambda>i fd w. with_io i (kqueue_io_add_connection k i fd w)),
      io_mod_connection = (\<lambda>i fd b w. with_io i (kqueue_io_mod_connection k i fd b w)),
      io_remove = (\<lambda>i fd w. with_io i (kqueue_io_remove k i fd w)),
      io_wait = (\<lambda>i cap t w. do { (ret, evs, w) \<leftarrow> kqueue_io_wait k i cap t w; Some (ret, evs, i, w) }),
      io_close = (\<lambda>i w. case kqueue_io_close k (Ptr i) w of (io, w) \<Rightarrow> do { i \<leftarrow> deref io; Some (i, w) })\<rparr>"

definition kqueue_ready :: "'w kqueue_os \<Rightarrow> ('w \<Rightarrow> 'w \<Rightarrow> bool) \<Rightarrow> bool" where
  "kqueue_ready k same \<longleftrightarrow> frame_relation same \<and>
     (\<forall>fd e w. same w (snd (kq_change k fd e w))) \<and>
     (\<forall>fd n t w. same w (snd (kq_wait k fd n t w)) \<and>
        (\<forall>es. fst (kq_wait k fd n t w) = Done es \<longrightarrow> length es \<le> n))"

lemma kevent_same:
  "kqueue_ready k same \<Longrightarrow> same w (snd (kqueue_io_kevent k kq fd flt fl w))"
  by (auto simp: kqueue_ready_def kqueue_io_kevent_def split: prod.split) (metis snd_conv)

lemma kevent_same2:
  assumes "kqueue_ready k same"
  shows "same w (snd (kqueue_io_kevent k kq fd flt fl (snd (kqueue_io_kevent k kq' fd' flt' fl' w))))"
  using kevent_same [OF assms] assms by (meson frame_trans kqueue_ready_def)

interpretation kqueue: io_backend kqueue_ops kqueue_ready "\<lambda>i. True"
proof (unfold_locales, goal_cases)
  case (1 k same)
  then show ?case by (simp add: kqueue_ready_def)
next
  case (2 k same i w fd)
  then show ?case by (simp add: kqueue_ops_def kqueue_io_add_listener_def with_io_runs kevent_same)
next
  case (3 k same i w fd)
  then have "same w (snd (kqueue_io_add_connection k i fd w))"
    using kevent_same [OF 3(1)] kevent_same2 [OF 3(1)]
    by (auto simp: kqueue_io_add_connection_def split: prod.split) (metis snd_conv)+
  then show ?case by (simp add: kqueue_ops_def with_io_runs)
next
  case (4 k same i w fd b)
  then show ?case by (simp add: kqueue_ops_def kqueue_io_mod_connection_def with_io_runs kevent_same)
next
  case (5 k same i w fd)
  then have "same w (snd (kqueue_io_remove k i fd w))"
    using kevent_same2 [OF 5(1)] by (auto simp: kqueue_io_remove_def split: prod.split) (metis snd_conv)
  then show ?case by (simp add: kqueue_ops_def with_io_runs)
next
  case (6 k same i cap t w)
  obtain r w' where r: "kq_wait k (kqio_fd i) (if cap > 64 then 64 else cap) (kqueue_timeout t) w = (r, w')" by fastforce
  with 6 have s: "same w w'" "r = Done es \<Longrightarrow> length es \<le> (if cap > 64 then 64 else cap)" for es
    unfolding kqueue_ready_def by (metis fst_conv snd_conv)+
  then show ?case using r
    by (cases r) (auto simp: kqueue_ops_def kqueue_io_wait_def Let_def append_within_in split: if_splits)
qed

text \<open>A descriptor comes back from the \<open>ident\<close> field as it went in.\<close>

lemma kevent_fd_ident: "INT32_MIN \<le> fd \<Longrightarrow> fd \<le> INT32_MAX \<Longrightarrow> kevent_fd (kevent_ident fd) = fd"
proof -
  assume fd: "INT32_MIN \<le> fd" "fd \<le> INT32_MAX"
  have "(fd mod 18446744073709551616 + 2147483648) mod 4294967296 = (fd + 2147483648) mod 4294967296"
    by (rule mod_add_cong [OF mod_mod_cancel refl]) simp
  with fd show ?thesis
    by (simp add: kevent_fd_def kevent_ident_def cast_i32_def uint_word_of_int c_limits)
qed

end
