(* ===== verification/Io_Uring.thy ===== *)
theory Io_Uring
  imports Io
begin

unbundle bit_operations_syntax

section \<open>The io_uring backend\<close>

text \<open>
  \<open>src/io_uring.c\<close>: the event interface over one-shot polls submitted to an io_uring. The memory
  shared with the kernel is the record \<open>h2_uring_rings\<close>; an array in it is a list, indexed through its
  mask. The kernel is a parameter \<open>uring_os\<close>: \<open>ur_enter\<close> is the system call \<open>io_uring_enter\<close>, which may
  change the rings, and \<open>ur_post\<close> is what the kernel does to them between two loads of the
  completion queue's tail. A pointer to a submission entry is its index. \<open>None\<close> is an access outside
  an array, or a loop that does not end. The functions come in the order of the source.
\<close>

subsection \<open>Constants of the kernel interface\<close>

definition POLLIN :: u32 where "POLLIN = 0x1"
definition POLLOUT :: u32 where "POLLOUT = 0x4"
definition POLLERR :: u32 where "POLLERR = 0x8"
definition POLLHUP :: u32 where "POLLHUP = 0x10"
definition POLLRDHUP :: u32 where "POLLRDHUP = 0x2000"
definition IORING_OP_POLL_ADD :: byte where "IORING_OP_POLL_ADD = 6"
definition IORING_OP_POLL_REMOVE :: byte where "IORING_OP_POLL_REMOVE = 7"
definition IORING_OP_TIMEOUT :: byte where "IORING_OP_TIMEOUT = 11"
definition IORING_ENTER_GETEVENTS :: u32 where "IORING_ENTER_GETEVENTS = 1"
definition IORING_ENTER_EXT_ARG :: u32 where "IORING_ENTER_EXT_ARG = 8"
definition IORING_FEAT_SINGLE_MMAP :: u32 where "IORING_FEAT_SINGLE_MMAP = 1"
definition IORING_OFF_SQ_RING :: u64 where "IORING_OFF_SQ_RING = 0"
definition IORING_OFF_CQ_RING :: u64 where "IORING_OFF_CQ_RING = 0x8000000"
definition IORING_OFF_SQES :: u64 where "IORING_OFF_SQES = 0x10000000"

subsection \<open>Constants of the backend\<close>

definition H2_URING_ENTRIES :: u32 where "H2_URING_ENTRIES = 256"
definition H2_URING_MAX_FDS :: nat where "H2_URING_MAX_FDS = 4096"
definition H2_URING_CANCEL_FLAG :: u64 where "H2_URING_CANCEL_FLAG = 0x8000000000000000"
definition H2_URING_TIMEOUT_FLAG :: u64 where "H2_URING_TIMEOUT_FLAG = 0x4000000000000000"
definition H2_URING_FD_MASK :: u64 where "H2_URING_FD_MASK = 0x00000000ffffffff"
definition H2_URING_GENERATION_MASK :: u32 where "H2_URING_GENERATION_MASK = 0x3fffffff"
definition H2_URING_SAVED_CQES :: nat where "H2_URING_SAVED_CQES = 256"

lemmas uring_consts = H2_URING_ENTRIES_def H2_URING_MAX_FDS_def H2_URING_CANCEL_FLAG_def
  H2_URING_TIMEOUT_FLAG_def H2_URING_FD_MASK_def H2_URING_GENERATION_MASK_def H2_URING_SAVED_CQES_def

subsection \<open>State\<close>

record h2_uring_fd_state =
  uf_used :: bool
  uf_active :: bool
  uf_events :: u32
  uf_generation :: u32

record h2_uring_saved_cqe =
  sv_user_data :: u64
  sv_res :: int
  sv_flags :: u32

record io_uring_cqe =
  cqe_user_data :: u64
  cqe_res :: int
  cqe_flags :: u32

record io_uring_sqe =
  sqe_opcode :: byte
  sqe_fd :: int
  sqe_addr :: u64
  sqe_len :: u32
  sqe_poll_events :: u16
  sqe_user_data :: u64

record uring_timespec =
  ts_sec :: int
  ts_nsec :: int

record h2_uring_rings =
  r_sq_head :: u32
  r_sq_tail :: u32
  r_sq_ring_mask :: u32
  r_sq_ring_entries :: u32
  r_sq_array :: "u32 list"
  r_sqes :: "io_uring_sqe list"
  r_cq_head :: u32
  r_cq_tail :: u32
  r_cq_ring_mask :: u32
  r_cqes :: "io_uring_cqe list"

text \<open>A mapped region: what \<open>mmap\<close> returned. \<open>None\<close> is the \<open>NULL\<close> of \<open>calloc\<close>, \<open>Failed e\<close> is
  \<open>MAP_FAILED\<close> and \<open>Done a\<close> an address.\<close>

type_synonym region = "int sys option"

record h2_uring_state =
  u_ring_fd :: int
  u_sq_ring_ptr :: region
  u_cq_ring_ptr :: region
  u_sqes_ptr :: region
  u_sq_ring_size :: nat
  u_cq_ring_size :: nat
  u_sqes_size :: nat
  u_rings :: h2_uring_rings
  u_timeout :: uring_timespec
  u_pending_cqes :: "h2_uring_saved_cqe list"
  u_fds :: "h2_uring_fd_state list"

record h2_uring_io =
  uio_fd :: int
  uio_state :: "h2_uring_state ptr"

record io_uring_params =
  p_sq_entries :: u32
  p_cq_entries :: u32
  p_features :: u32
  p_sq_off_array :: u32
  p_cq_off_cqes :: u32

record 'w uring_os =
  ur_calloc :: "'w \<Rightarrow> bool \<times> 'w"
  ur_setup :: "u32 \<Rightarrow> 'w \<Rightarrow> (int \<times> io_uring_params) sys \<times> 'w"
  ur_mmap :: "nat \<Rightarrow> int \<Rightarrow> u64 \<Rightarrow> 'w \<Rightarrow> int sys \<times> 'w"
  ur_munmap :: "int \<Rightarrow> nat \<Rightarrow> 'w \<Rightarrow> 'w"
  ur_rings :: "int \<Rightarrow> 'w \<Rightarrow> h2_uring_rings"
  ur_enter :: "int \<Rightarrow> u32 \<Rightarrow> u32 \<Rightarrow> u32 \<Rightarrow> uring_timespec ptr \<Rightarrow> h2_uring_rings \<Rightarrow> 'w \<Rightarrow> nat sys \<times> h2_uring_rings \<times> 'w"
  ur_post :: "h2_uring_rings \<Rightarrow> 'w \<Rightarrow> h2_uring_rings \<times> 'w"
  ur_close :: "int \<Rightarrow> 'w \<Rightarrow> 'w"
  ur_ext_arg :: bool
  ur_timeout_addr :: u64

text \<open>The kernel's turn: a system call, and a load of the completion queue's tail.\<close>

definition h2_uring_enter ::
  "'w uring_os \<Rightarrow> u32 \<Rightarrow> u32 \<Rightarrow> u32 \<Rightarrow> uring_timespec ptr \<Rightarrow> h2_uring_state \<Rightarrow> 'w \<Rightarrow> nat sys \<times> h2_uring_state \<times> 'w" where
  "h2_uring_enter k to_submit min_complete flags arg st w =
     (case ur_enter k (u_ring_fd st) to_submit min_complete flags arg (u_rings st) w of
        (r, rings, w) \<Rightarrow> (r, st\<lparr>u_rings := rings\<rparr>, w))"

definition load_cq_tail :: "'w uring_os \<Rightarrow> h2_uring_state \<Rightarrow> 'w \<Rightarrow> u32 \<times> h2_uring_state \<times> 'w" where
  "load_cq_tail k st w =
     (case ur_post k (u_rings st) w of (rings, w) \<Rightarrow> (r_cq_tail rings, st\<lparr>u_rings := rings\<rparr>, w))"

subsection \<open>User data\<close>

definition h2_uring_poll_user_data :: "int \<Rightarrow> u32 \<Rightarrow> u64" where
  "h2_uring_poll_user_data fd generation =
     push_bit 32 (ucast (generation AND H2_URING_GENERATION_MASK)) OR ucast (word_of_int fd :: u32)"

definition h2_uring_cancel_user_data :: "int \<Rightarrow> u32 \<Rightarrow> u64" where
  "h2_uring_cancel_user_data fd generation = H2_URING_CANCEL_FLAG OR h2_uring_poll_user_data fd generation"

definition h2_uring_is_cancel_user_data :: "u64 \<Rightarrow> bool" where
  "h2_uring_is_cancel_user_data user_data \<longleftrightarrow> user_data AND H2_URING_CANCEL_FLAG \<noteq> 0"

definition h2_uring_is_timeout_user_data :: "u64 \<Rightarrow> bool" where
  "h2_uring_is_timeout_user_data user_data \<longleftrightarrow> user_data AND H2_URING_TIMEOUT_FLAG \<noteq> 0"

definition h2_uring_user_data_fd :: "u64 \<Rightarrow> int" where
  "h2_uring_user_data_fd user_data = cast_i32 (uint (user_data AND H2_URING_FD_MASK))"

definition h2_uring_user_data_generation :: "u64 \<Rightarrow> u32" where
  "h2_uring_user_data_generation user_data = ucast (drop_bit 32 (user_data AND 0x3fffffff00000000))"

subsection \<open>Setting up and closing\<close>

text \<open>The pointers into the mapped regions are not part of the state: after the mapping the rings are
  read through them as the record \<open>u_rings\<close>.\<close>

definition h2_uring_map ::
  "'w uring_os \<Rightarrow> h2_uring_state \<Rightarrow> io_uring_params \<Rightarrow> 'w \<Rightarrow> int \<times> h2_uring_state \<times> 'w" where
  "h2_uring_map k st params w =
     (let st = st\<lparr>u_sq_ring_size := size_add (unat (p_sq_off_array params)) (unat (p_sq_entries params) * 4),
                  u_cq_ring_size := size_add (unat (p_cq_off_cqes params)) (unat (p_cq_entries params) * 16)\<rparr>;
          (ret, st, w) =
            (if p_features params AND IORING_FEAT_SINGLE_MMAP \<noteq> 0 then
               (let ring_size = (if u_sq_ring_size st > u_cq_ring_size st then u_sq_ring_size st else u_cq_ring_size st);
                    st = st\<lparr>u_sq_ring_size := ring_size, u_cq_ring_size := ring_size\<rparr>
                in case ur_mmap k ring_size (u_ring_fd st) IORING_OFF_SQ_RING w of
                     (Failed e, w) \<Rightarrow> (- 1, st\<lparr>u_sq_ring_ptr := Some (Failed e)\<rparr>, w)
                   | (Done a, w) \<Rightarrow> (0, st\<lparr>u_sq_ring_ptr := Some (Done a), u_cq_ring_ptr := Some (Done a)\<rparr>, w))
             else
               (case ur_mmap k (u_sq_ring_size st) (u_ring_fd st) IORING_OFF_SQ_RING w of
                  (Failed e, w) \<Rightarrow> (- 1, st\<lparr>u_sq_ring_ptr := Some (Failed e)\<rparr>, w)
                | (Done a, w) \<Rightarrow>
                    (let st = st\<lparr>u_sq_ring_ptr := Some (Done a)\<rparr>
                     in case ur_mmap k (u_cq_ring_size st) (u_ring_fd st) IORING_OFF_CQ_RING w of
                          (Failed e, w) \<Rightarrow> (- 1, st\<lparr>u_cq_ring_ptr := Some (Failed e)\<rparr>, w)
                        | (Done b, w) \<Rightarrow> (0, st\<lparr>u_cq_ring_ptr := Some (Done b)\<rparr>, w))))
      in if ret \<noteq> (0 :: int) then (- 1, st, w)
         else
           (let st = st\<lparr>u_sqes_size := unat (p_sq_entries params) * 64\<rparr>
            in case ur_mmap k (u_sqes_size st) (u_ring_fd st) IORING_OFF_SQES w of
                 (Failed e, w) \<Rightarrow> (- 1, st\<lparr>u_sqes_ptr := Some (Failed e)\<rparr>, w)
               | (Done c, w) \<Rightarrow> (0, st\<lparr>u_sqes_ptr := Some (Done c), u_rings := ur_rings k (u_ring_fd st) w\<rparr>, w)))"

definition unmap :: "'w uring_os \<Rightarrow> region \<Rightarrow> nat \<Rightarrow> 'w \<Rightarrow> 'w" where
  "unmap k r len w = (case r of Some (Done a) \<Rightarrow> ur_munmap k a len w | _ \<Rightarrow> w)"

definition uring_io_close :: "'w uring_os \<Rightarrow> h2_uring_io ptr \<Rightarrow> 'w \<Rightarrow> h2_uring_io ptr \<times> 'w" where
  "uring_io_close k io w =
     (case io of
        NULL \<Rightarrow> (NULL, w)
      | Ptr i \<Rightarrow>
          (case uio_state i of
             NULL \<Rightarrow> (io, w)
           | Ptr st \<Rightarrow>
               (let w = unmap k (u_sqes_ptr st) (u_sqes_size st) w;
                    w = unmap k (u_sq_ring_ptr st) (u_sq_ring_size st) w;
                    w = (if u_cq_ring_ptr st \<noteq> u_sq_ring_ptr st then unmap k (u_cq_ring_ptr st) (u_cq_ring_size st) w
                         else w);
                    w = (if u_ring_fd st \<ge> 0 then ur_close k (u_ring_fd st) w else w)
                in (Ptr (i\<lparr>uio_fd := - 1, uio_state := NULL\<rparr>), w))))"

definition zero_fd_state :: h2_uring_fd_state where
  "zero_fd_state = \<lparr>uf_used = False, uf_active = False, uf_events = 0, uf_generation = 0\<rparr>"

definition zero_rings :: h2_uring_rings where
  "zero_rings = \<lparr>r_sq_head = 0, r_sq_tail = 0, r_sq_ring_mask = 0, r_sq_ring_entries = 0, r_sq_array = [],
     r_sqes = [], r_cq_head = 0, r_cq_tail = 0, r_cq_ring_mask = 0, r_cqes = []\<rparr>"

definition zero_uring_state :: h2_uring_state where
  "zero_uring_state = \<lparr>u_ring_fd = 0, u_sq_ring_ptr = None, u_cq_ring_ptr = None, u_sqes_ptr = None,
     u_sq_ring_size = 0, u_cq_ring_size = 0, u_sqes_size = 0, u_rings = zero_rings,
     u_timeout = \<lparr>ts_sec = 0, ts_nsec = 0\<rparr>, u_pending_cqes = [], u_fds = replicate H2_URING_MAX_FDS zero_fd_state\<rparr>"

definition uring_io_init :: "'w uring_os \<Rightarrow> h2_uring_io ptr \<Rightarrow> 'w \<Rightarrow> int \<times> h2_uring_io ptr \<times> 'w" where
  "uring_io_init k io w =
     (case io of
        NULL \<Rightarrow> (- 1, NULL, w)
      | Ptr i \<Rightarrow>
          (case ur_calloc k w of (allocated, w) \<Rightarrow>
             if \<not> allocated then (- 1, io, w)
             else
               (case ur_setup k H2_URING_ENTRIES w of
                  (Failed e, w) \<Rightarrow> (- 1, io, w)
                | (Done (fd, params), w) \<Rightarrow>
                    (case h2_uring_map k (zero_uring_state\<lparr>u_ring_fd := fd\<rparr>) params w of (ret, st, w) \<Rightarrow>
                       if ret \<noteq> 0 then
                         (case uring_io_close k (Ptr \<lparr>uio_fd = - 1, uio_state = Ptr st\<rparr>) w of (_, w) \<Rightarrow> (- 1, io, w))
                       else (0, Ptr (i\<lparr>uio_fd := u_ring_fd st, uio_state := Ptr st\<rparr>), w)))))"

subsection \<open>The table of descriptors\<close>

definition h2_uring_set_fd :: "h2_uring_io \<Rightarrow> int \<Rightarrow> bool \<Rightarrow> u32 \<Rightarrow> (int \<times> h2_uring_io) option" where
  "h2_uring_set_fd io fd used events =
     (if fd < 0 \<or> fd \<ge> int H2_URING_MAX_FDS then Some (- 1, io)
      else do {
        st \<leftarrow> deref (uio_state io);
        f \<leftarrow> rd (u_fds st) (nat fd);
        let f = (if used \<and> \<not> uf_used f
                 then f\<lparr>uf_generation := (uf_generation f + 1) AND H2_URING_GENERATION_MASK\<rparr> else f);
        let f = f\<lparr>uf_used := used, uf_events := events\<rparr>;
        let f = (if \<not> used then f\<lparr>uf_active := False\<rparr> else f);
        Some (0, io\<lparr>uio_state := Ptr (st\<lparr>u_fds := (u_fds st)[nat fd := f]\<rparr>)\<rparr>)
      })"

definition uring_io_add_listener :: "h2_uring_io \<Rightarrow> int \<Rightarrow> (int \<times> h2_uring_io) option" where
  "uring_io_add_listener io fd = h2_uring_set_fd io fd True (POLLIN OR POLLERR OR POLLHUP)"

definition uring_io_add_connection :: "h2_uring_io \<Rightarrow> int \<Rightarrow> (int \<times> h2_uring_io) option" where
  "uring_io_add_connection io fd = h2_uring_set_fd io fd True (POLLIN OR POLLRDHUP OR POLLERR OR POLLHUP)"

definition uring_io_mod_connection :: "h2_uring_io \<Rightarrow> int \<Rightarrow> bool \<Rightarrow> (int \<times> h2_uring_io) option" where
  "uring_io_mod_connection io fd want_write =
     (let events = POLLIN OR POLLRDHUP OR POLLERR OR POLLHUP;
          events = (if want_write then events OR POLLOUT else events)
      in h2_uring_set_fd io fd True events)"

subsection \<open>Submission and completion\<close>

definition zero_sqe :: io_uring_sqe where
  "zero_sqe = \<lparr>sqe_opcode = 0, sqe_fd = 0, sqe_addr = 0, sqe_len = 0, sqe_poll_events = 0, sqe_user_data = 0\<rparr>"

definition h2_uring_get_sqe :: "h2_uring_state \<Rightarrow> (nat ptr \<times> h2_uring_state) option" where
  "h2_uring_get_sqe st =
     (let rings = u_rings st; head = r_sq_head rings; tail = r_sq_tail rings in
      if tail - head \<ge> r_sq_ring_entries rings then Some (NULL, st)
      else do {
        let index = tail AND r_sq_ring_mask rings;
        array \<leftarrow> wr (r_sq_array rings) (unat index) index;
        Some (Ptr (unat index), st\<lparr>u_rings := rings\<lparr>r_sq_array := array, r_sq_tail := tail + 1\<rparr>\<rparr>)
      })"

text \<open>\<open>memset(sqe, 0, sizeof(*sqe))\<close> and the stores after it.\<close>

definition store_sqe :: "h2_uring_state \<Rightarrow> nat \<Rightarrow> io_uring_sqe \<Rightarrow> h2_uring_state option" where
  "store_sqe st i sqe = do {
     sqes \<leftarrow> wr (r_sqes (u_rings st)) i sqe;
     Some (st\<lparr>u_rings := (u_rings st)\<lparr>r_sqes := sqes\<rparr>\<rparr>)
   }"

definition uring_event :: "int \<Rightarrow> int \<Rightarrow> h2_event" where
  "uring_event fd result =
     (let bits = (word_of_int result :: u32) in
      \<lparr>ev_fd = fd,
       ev_readable = (result > 0 \<and> bits AND POLLIN \<noteq> 0),
       ev_writable = (result > 0 \<and> bits AND POLLOUT \<noteq> 0),
       ev_closed = (result < 0 \<or> (result > 0 \<and> bits AND (POLLERR OR POLLHUP OR POLLRDHUP) \<noteq> 0))\<rparr>)"

text \<open>\<open>*out_count\<close> is the number of events stored so far; every caller passes an array, never \<open>NULL\<close>.\<close>

definition h2_uring_finish_cqe ::
  "h2_uring_state \<Rightarrow> io_uring_cqe \<Rightarrow> nat \<Rightarrow> h2_event list \<Rightarrow> (h2_uring_state \<times> h2_event list) option" where
  "h2_uring_finish_cqe st cqe event_cap events =
     (let user_data = cqe_user_data cqe in
      if h2_uring_is_timeout_user_data user_data then Some (st, events)
      else
        (let fd = h2_uring_user_data_fd user_data; result = cqe_res cqe in
         if fd < 0 \<or> fd \<ge> int H2_URING_MAX_FDS then Some (st, events)
         else do {
           let generation = h2_uring_user_data_generation user_data;
           f \<leftarrow> rd (u_fds st) (nat fd);
           let idle = st\<lparr>u_fds := (u_fds st)[nat fd := f\<lparr>uf_active := False\<rparr>]\<rparr>;
           if h2_uring_is_cancel_user_data user_data
           then Some (if generation = uf_generation f then idle else st, events)
           else if generation \<noteq> uf_generation f then Some (st, events)
           else if uf_used f \<and> length events < event_cap then do {
             events \<leftarrow> append_within event_cap events [uring_event fd result];
             Some (idle, events)
           }
           else Some (idle, events)
         }))"

definition h2_uring_save_cqe :: "h2_uring_state \<Rightarrow> io_uring_cqe \<Rightarrow> (int \<times> h2_uring_state) option" where
  "h2_uring_save_cqe st cqe =
     (if length (u_pending_cqes st) \<ge> H2_URING_SAVED_CQES then Some (- 1, st)
      else do {
        pending \<leftarrow> append_within H2_URING_SAVED_CQES (u_pending_cqes st)
                    [\<lparr>sv_user_data = cqe_user_data cqe, sv_res = cqe_res cqe, sv_flags = cqe_flags cqe\<rparr>];
        Some (0, st\<lparr>u_pending_cqes := pending\<rparr>)
      })"

text \<open>The loop over the saved completions, with the ones kept so far; \<open>keep \<le> pos\<close>, so that storing
  at \<open>keep\<close> never overwrites an entry still to be read.\<close>

fun h2_uring_finish_saved_loop ::
  "h2_uring_saved_cqe list \<Rightarrow> h2_uring_saved_cqe list \<Rightarrow> nat \<Rightarrow> h2_uring_state \<Rightarrow> h2_event list \<Rightarrow>
     (h2_uring_saved_cqe list \<times> h2_uring_state \<times> h2_event list) option" where
  "h2_uring_finish_saved_loop [] keep event_cap st events = Some (keep, st, events)"
| "h2_uring_finish_saved_loop (c # cs) keep event_cap st events =
     (if length events < event_cap then do {
        (st, events) \<leftarrow> h2_uring_finish_cqe st
           \<lparr>cqe_user_data = sv_user_data c, cqe_res = sv_res c, cqe_flags = sv_flags c\<rparr> event_cap events;
        h2_uring_finish_saved_loop cs keep event_cap st events
      }
      else h2_uring_finish_saved_loop cs (keep @ [c]) event_cap st events)"

definition h2_uring_finish_saved_cqes ::
  "h2_uring_state \<Rightarrow> nat \<Rightarrow> h2_event list \<Rightarrow> (h2_uring_state \<times> h2_event list) option" where
  "h2_uring_finish_saved_cqes st event_cap events = do {
     (keep, st, events) \<leftarrow> h2_uring_finish_saved_loop (u_pending_cqes st) [] event_cap st events;
     Some (st\<lparr>u_pending_cqes := keep\<rparr>, events)
   }"

subsection \<open>Removing a descriptor\<close>

text \<open>The inner loop of \<open>h2_uring_drain_until_cancel\<close>: \<open>Inl\<close> is a \<open>return\<close>, \<open>Inr\<close> the end of the loop
  with the local \<open>head\<close>.\<close>

partial_function (option) h2_uring_drain_loop ::
  "int \<Rightarrow> u32 \<Rightarrow> u32 \<Rightarrow> h2_uring_state \<Rightarrow> ((int \<times> h2_uring_state) + (u32 \<times> h2_uring_state)) option" where
  "h2_uring_drain_loop fd head tail st =
     (if head \<noteq> tail then do {
        cqe \<leftarrow> rd (r_cqes (u_rings st)) (unat (head AND r_cq_ring_mask (u_rings st)));
        f \<leftarrow> rd (u_fds st) (nat fd);
        if cqe_user_data cqe = h2_uring_cancel_user_data fd (uf_generation f)
        then Some (Inl (if cqe_res cqe = - 2 \<or> cqe_res cqe \<ge> 0 then 0 else - 1,
                        st\<lparr>u_rings := (u_rings st)\<lparr>r_cq_head := head + 1\<rparr>\<rparr>))
        else do {
          (ret, st) \<leftarrow> h2_uring_save_cqe st cqe;
          if ret \<noteq> 0 then Some (Inl (- 1, st))
          else h2_uring_drain_loop fd (head + 1) tail st
        }
      }
      else Some (Inr (head, st)))"

text \<open>One iteration of the outer loop.\<close>

definition h2_uring_drain_step ::
  "'w uring_os \<Rightarrow> int \<Rightarrow> h2_uring_state \<Rightarrow> 'w \<Rightarrow>
     ((int \<times> h2_uring_state \<times> 'w) + (h2_uring_state \<times> 'w)) option" where
  "h2_uring_drain_step k fd st w =
     (case load_cq_tail k st w of (tail, st, w) \<Rightarrow>
      case (if r_cq_head (u_rings st) = tail
            then h2_uring_enter k 0 1 IORING_ENTER_GETEVENTS NULL st w else (Done 0, st, w)) of
        (Failed e, st, w) \<Rightarrow> if e = EINTR then Some (Inr (st, w)) else Some (Inl (- 1, st, w))
      | (Done _, st, w) \<Rightarrow>
          (case load_cq_tail k st w of (tail, st, w) \<Rightarrow> do {
             r \<leftarrow> h2_uring_drain_loop fd (r_cq_head (u_rings st)) tail st;
             Some (case r of
                 Inl (ret, st) \<Rightarrow> Inl (ret, st, w)
               | Inr (head, st) \<Rightarrow> Inr (st\<lparr>u_rings := (u_rings st)\<lparr>r_cq_head := head\<rparr>\<rparr>, w))
           }))"

partial_function (option) h2_uring_drain_until_cancel ::
  "'w uring_os \<Rightarrow> int \<Rightarrow> h2_uring_state \<Rightarrow> 'w \<Rightarrow> (int \<times> h2_uring_state \<times> 'w) option" where
  "h2_uring_drain_until_cancel k fd st w = do {
     r \<leftarrow> h2_uring_drain_step k fd st w;
     (case r of
        Inl result \<Rightarrow> Some result
      | Inr (st, w) \<Rightarrow> h2_uring_drain_until_cancel k fd st w)
   }"

definition h2_uring_cancel_active_poll ::
  "'w uring_os \<Rightarrow> int \<Rightarrow> h2_uring_state \<Rightarrow> 'w \<Rightarrow> (int \<times> h2_uring_state \<times> 'w) option" where
  "h2_uring_cancel_active_poll k fd st w = do {
     f \<leftarrow> rd (u_fds st) (nat fd);
     if \<not> uf_active f then Some (0, st, w)
     else do {
       (sqe, st) \<leftarrow> h2_uring_get_sqe st;
       (case sqe of
          NULL \<Rightarrow> Some (- 1, st, w)
        | Ptr i \<Rightarrow> do {
            st \<leftarrow> store_sqe st i (zero_sqe\<lparr>sqe_opcode := IORING_OP_POLL_REMOVE,
                     sqe_addr := h2_uring_poll_user_data fd (uf_generation f),
                     sqe_user_data := h2_uring_cancel_user_data fd (uf_generation f)\<rparr>);
            (case (if u_ring_fd st \<ge> 0 then h2_uring_enter k 1 0 0 NULL st w else (Done 0, st, w)) of
               (Failed e, st, w) \<Rightarrow> Some (- 1, st, w)
             | (Done _, st, w) \<Rightarrow> h2_uring_drain_until_cancel k fd st w)
          })
     }
   }"

definition uring_io_remove ::
  "'w uring_os \<Rightarrow> h2_uring_io ptr \<Rightarrow> int \<Rightarrow> 'w \<Rightarrow> (int \<times> h2_uring_io ptr \<times> 'w) option" where
  "uring_io_remove k io fd w =
     (case io of
        NULL \<Rightarrow> Some (- 1, io, w)
      | Ptr i \<Rightarrow>
          (case uio_state i of
             NULL \<Rightarrow> Some (- 1, io, w)
           | Ptr st \<Rightarrow>
               if fd < 0 \<or> fd \<ge> int H2_URING_MAX_FDS then Some (- 1, io, w)
               else do {
                 f \<leftarrow> rd (u_fds st) (nat fd);
                 if \<not> uf_used f then Some (0, io, w)
                 else do {
                   (ret, st, w) \<leftarrow> h2_uring_cancel_active_poll k fd st w;
                   if ret \<noteq> 0 then Some (- 1, Ptr (i\<lparr>uio_state := Ptr st\<rparr>), w)
                   else do {
                     f \<leftarrow> rd (u_fds st) (nat fd);
                     let st = st\<lparr>u_fds := (u_fds st)[nat fd := f\<lparr>uf_active := False, uf_used := False, uf_events := 0\<rparr>]\<rparr>;
                     Some (0, Ptr (i\<lparr>uio_state := Ptr st\<rparr>), w)
                   }
                 }
               }))"

subsection \<open>Waiting\<close>

text \<open>The loop of \<open>h2_uring_submit_missing\<close> over the descriptors, with the number submitted so far; it
  breaks when the submission queue is full.\<close>

fun h2_uring_submit_loop :: "nat list \<Rightarrow> u32 \<Rightarrow> h2_uring_state \<Rightarrow> (u32 \<times> h2_uring_state) option" where
  "h2_uring_submit_loop [] submitted st = Some (submitted, st)"
| "h2_uring_submit_loop (fd # fds) submitted st = do {
     f \<leftarrow> rd (u_fds st) fd;
     if \<not> uf_used f \<or> uf_active f then h2_uring_submit_loop fds submitted st
     else do {
       (sqe, st) \<leftarrow> h2_uring_get_sqe st;
       (case sqe of
          NULL \<Rightarrow> Some (submitted, st)
        | Ptr i \<Rightarrow> do {
            st \<leftarrow> store_sqe st i (zero_sqe\<lparr>sqe_opcode := IORING_OP_POLL_ADD, sqe_fd := int fd,
                     sqe_poll_events := ucast (uf_events f),
                     sqe_user_data := h2_uring_poll_user_data (int fd) (uf_generation f)\<rparr>);
            h2_uring_submit_loop fds (submitted + 1) (st\<lparr>u_fds := (u_fds st)[fd := f\<lparr>uf_active := True\<rparr>]\<rparr>)
          })
     }
   }"

definition h2_uring_submit_missing ::
  "'w uring_os \<Rightarrow> h2_uring_state \<Rightarrow> 'w \<Rightarrow> (int \<times> h2_uring_state \<times> 'w) option" where
  "h2_uring_submit_missing k st w = do {
     (submitted, st) \<leftarrow> h2_uring_submit_loop [0..<H2_URING_MAX_FDS] 0 st;
     if submitted = 0 then Some (0, st, w)
     else (case h2_uring_enter k submitted 0 0 NULL st w of (r, st, w) \<Rightarrow> Some (status r, st, w))
   }"

definition timeout_of :: "int \<Rightarrow> uring_timespec" where
  "timeout_of timeout_ms = \<lparr>ts_sec = timeout_ms div 1000, ts_nsec = (timeout_ms mod 1000) * 1000000\<rparr>"

definition h2_uring_submit_timeout_sqe ::
  "'w uring_os \<Rightarrow> h2_uring_state \<Rightarrow> int \<Rightarrow> 'w \<Rightarrow> (nat sys \<times> h2_uring_state \<times> 'w) option" where
  "h2_uring_submit_timeout_sqe k st timeout_ms w = do {
     (sqe, st) \<leftarrow> h2_uring_get_sqe st;
     (case sqe of
        NULL \<Rightarrow> Some (Failed EAGAIN, st, w)
      | Ptr i \<Rightarrow> do {
          let st = st\<lparr>u_timeout := timeout_of timeout_ms\<rparr>;
          st \<leftarrow> store_sqe st i (zero_sqe\<lparr>sqe_opcode := IORING_OP_TIMEOUT, sqe_addr := ur_timeout_addr k,
                   sqe_len := 1, sqe_user_data := H2_URING_TIMEOUT_FLAG\<rparr>);
          Some (h2_uring_enter k 1 1 IORING_ENTER_GETEVENTS NULL st w)
        })
   }"

text \<open>Which of the two ways to wait with a timeout is compiled is \<open>ur_ext_arg\<close>.\<close>

definition h2_uring_wait_for_event ::
  "'w uring_os \<Rightarrow> h2_uring_state \<Rightarrow> int \<Rightarrow> 'w \<Rightarrow> (nat sys \<times> h2_uring_state \<times> 'w) option" where
  "h2_uring_wait_for_event k st timeout_ms w =
     (if timeout_ms = 0 then Some (Done 0, st, w)
      else if timeout_ms < 0 then Some (h2_uring_enter k 0 1 IORING_ENTER_GETEVENTS NULL st w)
      else if ur_ext_arg k then
        Some (h2_uring_enter k 0 1 (IORING_ENTER_GETEVENTS OR IORING_ENTER_EXT_ARG) (Ptr (timeout_of timeout_ms)) st w)
      else h2_uring_submit_timeout_sqe k st timeout_ms w)"

partial_function (option) h2_uring_wait_loop ::
  "u32 \<Rightarrow> u32 \<Rightarrow> nat \<Rightarrow> h2_uring_state \<Rightarrow> h2_event list \<Rightarrow> (u32 \<times> h2_uring_state \<times> h2_event list) option" where
  "h2_uring_wait_loop head tail event_cap st events =
     (if head \<noteq> tail \<and> length events < event_cap then do {
        cqe \<leftarrow> rd (r_cqes (u_rings st)) (unat (head AND r_cq_ring_mask (u_rings st)));
        (st, events) \<leftarrow> h2_uring_finish_cqe st cqe event_cap events;
        h2_uring_wait_loop (head + 1) tail event_cap st events
      }
      else Some (head, st, events))"

definition uring_wait_state ::
  "'w uring_os \<Rightarrow> h2_uring_state \<Rightarrow> nat \<Rightarrow> int \<Rightarrow> 'w \<Rightarrow> (int \<times> h2_event list \<times> h2_uring_state \<times> 'w) option" where
  "uring_wait_state k st event_cap timeout_ms w = do {
     (ret, st, w) \<leftarrow> h2_uring_submit_missing k st w;
     if ret \<noteq> 0 then Some (- 1, [], st, w)
     else (case load_cq_tail k st w of (tail, st, w) \<Rightarrow> do {
       (r, st, w) \<leftarrow> (if r_cq_head (u_rings st) = tail then h2_uring_wait_for_event k st timeout_ms w
                       else Some (Done 0, st, w));
       (case r of
          Failed e \<Rightarrow> Some (if e = EINTR \<or> e = ETIME \<or> e = ETIMEDOUT then 0 else - 1, [], st, w)
        | Done _ \<Rightarrow> do {
            (st, events) \<leftarrow> h2_uring_finish_saved_cqes st event_cap [];
            (case load_cq_tail k st w of (tail, st, w) \<Rightarrow> do {
               (head, st, events) \<leftarrow> h2_uring_wait_loop (r_cq_head (u_rings st)) tail event_cap st events;
               Some (int (length events), events, st\<lparr>u_rings := (u_rings st)\<lparr>r_cq_head := head\<rparr>\<rparr>, w)
             })
          })
     })
   }"

definition uring_io_wait ::
  "'w uring_os \<Rightarrow> h2_uring_io \<Rightarrow> nat \<Rightarrow> int \<Rightarrow> 'w \<Rightarrow> (int \<times> h2_event list \<times> h2_uring_io \<times> 'w) option" where
  "uring_io_wait k io event_cap timeout_ms w = do {
     st \<leftarrow> deref (uio_state io);
     if event_cap = 0 then Some (0, [], io, w)
     else do {
       (ret, events, st, w) \<leftarrow> uring_wait_state k st event_cap timeout_ms w;
       Some (ret, events, io\<lparr>uio_state := Ptr st\<rparr>, w)
     }
   }"

end
