(* ===== verification/Uring_Safety.thy ===== *)
theory Uring_Safety
  imports Io_Uring
begin

unbundle bit_operations_syntax

section \<open>The io_uring backend never leaves its arrays and always returns\<close>

text \<open>
  \<open>uring_ok\<close> is the invariant of the backend: the table has its 4096 slots, at most 256 completions
  are saved, and the masks of the rings are smaller than the arrays they index. \<open>uring_kernel\<close> states
  what the code relies on of \<open>io_uring_enter\<close>: it changes neither the fields the program owns nor the
  sizes, it never takes a completion back, a successful call that waits for a completion delivers
  one, and it is not interrupted for ever (\<open>budget\<close>). The loops of \<open>h2_io_remove\<close> and \<open>h2_io_wait\<close>
  then end, and the backend interprets the contract \<open>io_backend\<close>.
\<close>

subsection \<open>Invariant and assumptions\<close>

definition rings_ok :: "h2_uring_rings \<Rightarrow> bool" where
  "rings_ok r \<longleftrightarrow> unat (r_sq_ring_mask r) < length (r_sqes r) \<and> length (r_sq_array r) = length (r_sqes r) \<and>
     unat (r_cq_ring_mask r) < length (r_cqes r)"

definition uring_ok :: "h2_uring_state \<Rightarrow> bool" where
  "uring_ok st \<longleftrightarrow> length (u_fds st) = H2_URING_MAX_FDS \<and> length (u_pending_cqes st) \<le> H2_URING_SAVED_CQES \<and>
     rings_ok (u_rings st)"

definition uring_io_ok :: "h2_uring_io \<Rightarrow> bool" where
  "uring_io_ok io \<longleftrightarrow> (\<exists>st. uio_state io = Ptr st \<and> uring_ok st)"

definition unread :: "h2_uring_rings \<Rightarrow> nat" where
  "unread r = unat (r_cq_tail r - r_cq_head r)"

definition rings_kept :: "h2_uring_rings \<Rightarrow> h2_uring_rings \<Rightarrow> bool" where
  "rings_kept r r' \<longleftrightarrow> r_cq_head r' = r_cq_head r \<and> r_sq_tail r' = r_sq_tail r \<and>
     r_sq_ring_mask r' = r_sq_ring_mask r \<and> r_sq_ring_entries r' = r_sq_ring_entries r \<and>
     r_cq_ring_mask r' = r_cq_ring_mask r \<and> length (r_sqes r') = length (r_sqes r) \<and>
     length (r_sq_array r') = length (r_sq_array r) \<and> length (r_cqes r') = length (r_cqes r) \<and>
     unread r \<le> unread r'"

definition uring_kernel :: "'w uring_os \<Rightarrow> ('w \<Rightarrow> 'w \<Rightarrow> bool) \<Rightarrow> ('w \<Rightarrow> nat) \<Rightarrow> bool" where
  "uring_kernel k same budget \<longleftrightarrow> frame_relation same \<and>
     (\<forall>fd n m fl a r w res r' w'. ur_enter k fd n m fl a r w = (res, r', w') \<longrightarrow>
        same w w' \<and> budget w' \<le> budget w \<and> rings_kept r r' \<and> (res = Failed EINTR \<longrightarrow> budget w' < budget w) \<and>
        (sys_ok res \<and> m > 0 \<longrightarrow> unread r' > 0)) \<and>
     (\<forall>r w r' w'. ur_post k r w = (r', w') \<longrightarrow> same w w' \<and> budget w' \<le> budget w \<and> rings_kept r r')"

definition uring_ready :: "'w uring_os \<Rightarrow> ('w \<Rightarrow> 'w \<Rightarrow> bool) \<Rightarrow> bool" where
  "uring_ready k same \<longleftrightarrow> (\<exists>budget. uring_kernel k same budget)"

lemma rings_ok_kept: "rings_ok r \<Longrightarrow> rings_kept r r' \<Longrightarrow> rings_ok r'"
  by (simp add: rings_ok_def rings_kept_def)

text \<open>What a step of the kernel keeps of the state.\<close>

definition st_kept :: "h2_uring_state \<Rightarrow> h2_uring_state \<Rightarrow> bool" where
  "st_kept st st' \<longleftrightarrow> (\<exists>r. st' = st\<lparr>u_rings := r\<rparr> \<and> rings_kept (u_rings st) r)"

lemma st_keptD:
  assumes "st_kept st st'"
  shows "u_fds st' = u_fds st" "u_pending_cqes st' = u_pending_cqes st" "rings_kept (u_rings st) (u_rings st')"
    "uring_ok st \<Longrightarrow> uring_ok st'"
  using assms by (auto simp: st_kept_def uring_ok_def rings_ok_kept)

lemma enter_kept:
  assumes "uring_kernel k same budget" "h2_uring_enter k n m fl a st w = (res, st', w')"
  shows "st_kept st st'" "same w w'" "budget w' \<le> budget w" "res = Failed EINTR \<Longrightarrow> budget w' < budget w"
    "sys_ok res \<Longrightarrow> m > 0 \<Longrightarrow> unread (u_rings st') > 0"
  using assms unfolding uring_kernel_def h2_uring_enter_def st_kept_def by (auto split: prod.splits)

lemma load_kept:
  assumes "uring_kernel k same budget" "load_cq_tail k st w = (tail, st', w')"
  shows "st_kept st st'" "same w w'" "budget w' \<le> budget w" "tail = r_cq_tail (u_rings st')"
  using assms unfolding uring_kernel_def load_cq_tail_def st_kept_def by (auto split: prod.splits)

lemma unat_and_less: "unat m < n \<Longrightarrow> unat (a AND m) < n" for m :: u32
  using word_and_le1 [of a m] by (meson le_less_trans word_le_nat_alt)

lemma kernel_frame: "uring_kernel k same budget \<Longrightarrow> frame_relation same"
  by (simp add: uring_kernel_def)

subsection \<open>Submission\<close>

lemma get_sqe_ok:
  assumes "uring_ok st"
  shows "(h2_uring_get_sqe st = Some (NULL, st)) \<or>
    (\<exists>i st'. h2_uring_get_sqe st = Some (Ptr i, st') \<and> i < length (r_sqes (u_rings st')) \<and> uring_ok st' \<and>
       u_fds st' = u_fds st \<and> u_pending_cqes st' = u_pending_cqes st)"
  using assms
  by (auto simp: h2_uring_get_sqe_def Let_def uring_ok_def rings_ok_def wr_in unat_and_less)

lemma store_sqe_ok:
  assumes "uring_ok st" "i < length (r_sqes (u_rings st))"
  shows "\<exists>st'. store_sqe st i sqe = Some st' \<and> uring_ok st' \<and> u_fds st' = u_fds st \<and> u_pending_cqes st' = u_pending_cqes st"
  using assms by (auto simp: store_sqe_def wr_in uring_ok_def rings_ok_def)

lemma uring_ok_fds: "uring_ok st \<Longrightarrow> length fds = length (u_fds st) \<Longrightarrow> uring_ok (st\<lparr>u_fds := fds\<rparr>)"
  by (simp add: uring_ok_def)

lemma submit_loop_ok:
  "uring_ok st \<Longrightarrow> \<forall>fd \<in> set fds. fd < H2_URING_MAX_FDS \<Longrightarrow>
     \<exists>n st'. h2_uring_submit_loop fds submitted st = Some (n, st') \<and> uring_ok st'"
proof (induction fds arbitrary: submitted st)
  case (Cons fd fds)
  let ?f = "u_fds st ! fd"
  have rd: "rd (u_fds st) fd = Some ?f" using Cons.prems by (simp add: rd_in uring_ok_def)
  show ?case
  proof (cases "\<not> uf_used ?f \<or> uf_active ?f")
    case True
    then show ?thesis using Cons rd by simp
  next
    case False
    from get_sqe_ok [OF Cons.prems(1)] show ?thesis
    proof (elim disjE exE conjE)
      fix i st1 assume 1: "h2_uring_get_sqe st = Some (Ptr i, st1)" "i < length (r_sqes (u_rings st1))" "uring_ok st1"
        "u_fds st1 = u_fds st" "u_pending_cqes st1 = u_pending_cqes st"
      let ?sqe = "zero_sqe\<lparr>sqe_opcode := IORING_OP_POLL_ADD, sqe_fd := int fd,
                     sqe_poll_events := ucast (uf_events ?f),
                     sqe_user_data := h2_uring_poll_user_data (int fd) (uf_generation ?f)\<rparr>"
      obtain st2 where 2: "store_sqe st1 i ?sqe = Some st2" "uring_ok st2" "u_fds st2 = u_fds st1"
        using store_sqe_ok [OF 1(3,2), of ?sqe] by blast
      have "uring_ok (st2\<lparr>u_fds := (u_fds st2)[fd := ?f\<lparr>uf_active := True\<rparr>]\<rparr>)"
        using 2(2) by (intro uring_ok_fds) simp_all
      from Cons.IH [OF this] Cons.prems(2) show ?thesis using rd False 1 2 by simp
    qed (use rd False Cons.prems in simp)
  qed
qed simp

lemma submit_missing_ok:
  assumes k: "uring_kernel k same budget" and st: "uring_ok st"
  shows "\<exists>ret st' w'. h2_uring_submit_missing k st w = Some (ret, st', w') \<and> uring_ok st' \<and> same w w' \<and> budget w' \<le> budget w"
proof -
  obtain n st1 where 1: "h2_uring_submit_loop [0..<H2_URING_MAX_FDS] 0 st = Some (n, st1)" "uring_ok st1"
    using submit_loop_ok [OF st, of "[0..<H2_URING_MAX_FDS]" 0] by auto
  obtain r st2 w2 where 2: "h2_uring_enter k n 0 0 NULL st1 w = (r, st2, w2)" by (metis prod_cases3)
  show ?thesis
    using 1 2 enter_kept [OF k 2] st_keptD(4) frame_refl [OF kernel_frame [OF k]]
    by (cases "n = 0") (auto simp: h2_uring_submit_missing_def)
qed

subsection \<open>Completion\<close>

lemma finish_cqe_ok:
  assumes "uring_ok st" "length events \<le> cap"
  shows "\<exists>st' events'. h2_uring_finish_cqe st cqe cap events = Some (st', events') \<and> uring_ok st' \<and>
    length events' \<le> cap \<and> u_pending_cqes st' = u_pending_cqes st \<and> u_rings st' = u_rings st"
proof -
  let ?fd = "h2_uring_user_data_fd (cqe_user_data cqe)"
  show ?thesis
  proof (cases "h2_uring_is_timeout_user_data (cqe_user_data cqe) \<or> ?fd < 0 \<or> ?fd \<ge> int H2_URING_MAX_FDS")
    case True
    then show ?thesis using assms by (auto simp: h2_uring_finish_cqe_def Let_def)
  next
    case False
    then have "nat ?fd < length (u_fds st)" using assms(1) by (auto simp: uring_ok_def)
    with False assms show ?thesis
      by (auto simp: h2_uring_finish_cqe_def Let_def rd_in uring_ok_def append_within_in)
  qed
qed

lemma save_cqe_ok:
  assumes "uring_ok st"
  shows "\<exists>ret st'. h2_uring_save_cqe st cqe = Some (ret, st') \<and> uring_ok st' \<and> u_fds st' = u_fds st \<and>
     u_rings st' = u_rings st \<and> (ret = 0 \<longrightarrow> length (u_pending_cqes st') = Suc (length (u_pending_cqes st)))"
  using assms by (auto simp: h2_uring_save_cqe_def uring_ok_def append_within_in)

lemma finish_saved_loop_ok:
  "uring_ok st \<Longrightarrow> length events \<le> cap \<Longrightarrow> length keep + length cs \<le> H2_URING_SAVED_CQES \<Longrightarrow>
   \<exists>keep' st' events'. h2_uring_finish_saved_loop cs keep cap st events = Some (keep', st', events') \<and> uring_ok st' \<and>
     length events' \<le> cap \<and> length keep' \<le> H2_URING_SAVED_CQES \<and> u_rings st' = u_rings st"
proof (induction cs arbitrary: keep st events)
  case (Cons c cs)
  show ?case
  proof (cases "length events < cap")
    case True
    let ?c = "\<lparr>cqe_user_data = sv_user_data c, cqe_res = sv_res c, cqe_flags = sv_flags c\<rparr>"
    obtain st1 ev1 where 1: "h2_uring_finish_cqe st ?c cap events = Some (st1, ev1)" "uring_ok st1" "length ev1 \<le> cap"
      "u_rings st1 = u_rings st"
      using finish_cqe_ok [OF Cons.prems(1,2), of ?c] by blast
    then show ?thesis using Cons.IH [of st1 ev1 keep] Cons.prems True by simp
  next
    case False
    then show ?thesis using Cons.IH [of st events "keep @ [c]"] Cons.prems by simp
  qed
qed simp

lemma finish_saved_ok:
  assumes "uring_ok st" "length events \<le> cap"
  shows "\<exists>st' events'. h2_uring_finish_saved_cqes st cap events = Some (st', events') \<and> uring_ok st' \<and>
    length events' \<le> cap \<and> u_rings st' = u_rings st"
  using finish_saved_loop_ok [OF assms, of "[]" "u_pending_cqes st"] assms(1)
  by (fastforce simp: h2_uring_finish_saved_cqes_def uring_ok_def)

lemma unread_step: "head \<noteq> tail \<Longrightarrow> unat (tail - (head + 1)) < unat (tail - head)" for head tail :: u32
  using measure_unat [of "tail - head"] by (simp add: diff_diff_eq)

lemma wait_loop_ok:
  "uring_ok st \<Longrightarrow> length events \<le> cap \<Longrightarrow>
   \<exists>head' st' events'. h2_uring_wait_loop head tail cap st events = Some (head', st', events') \<and> uring_ok st' \<and>
     length events' \<le> cap"
proof (induction "unat (tail - head)" arbitrary: head st events rule: less_induct)
  case less
  show ?case
  proof (cases "head \<noteq> tail \<and> length events < cap")
    case False
    then show ?thesis using less.prems by (subst h2_uring_wait_loop.simps) auto
  next
    case True
    have i: "unat (head AND r_cq_ring_mask (u_rings st)) < length (r_cqes (u_rings st))"
      using less.prems(1) by (simp add: uring_ok_def rings_ok_def unat_and_less)
    let ?c = "r_cqes (u_rings st) ! unat (head AND r_cq_ring_mask (u_rings st))"
    obtain st1 ev1 where 1: "h2_uring_finish_cqe st ?c cap events = Some (st1, ev1)" "uring_ok st1" "length ev1 \<le> cap"
      using finish_cqe_ok [OF less.prems(1,2), of ?c] by blast
    have "unat (tail - (head + 1)) < unat (tail - head)"
      using True by (simp add: unread_step)
    from less.hyps [OF this 1(2,3)] show ?thesis
      using True i 1 by (subst h2_uring_wait_loop.simps) (simp add: rd_in)
  qed
qed

subsection \<open>Removal\<close>

lemma drain_loop_ok:
  assumes "0 \<le> fd" "fd < int H2_URING_MAX_FDS"
  shows "uring_ok st \<Longrightarrow>
   (\<exists>ret st'. h2_uring_drain_loop fd head tail st = Some (Inl (ret, st')) \<and> uring_ok st') \<or>
   (\<exists>st'. h2_uring_drain_loop fd head tail st = Some (Inr (tail, st')) \<and> uring_ok st' \<and> u_rings st' = u_rings st \<and>
      length (u_pending_cqes st') = length (u_pending_cqes st) + unat (tail - head))"
proof (induction "unat (tail - head)" arbitrary: head st rule: less_induct)
  case less
  show ?case
  proof (cases "head = tail")
    case True
    then show ?thesis using less.prems by (subst (2) h2_uring_drain_loop.simps) simp
  next
    case False
    let ?i = "unat (head AND r_cq_ring_mask (u_rings st))" and ?f = "u_fds st ! nat fd"
    let ?c = "r_cqes (u_rings st) ! ?i"
    have i: "?i < length (r_cqes (u_rings st))" "nat fd < length (u_fds st)"
      using less.prems(1) assms by (auto simp: uring_ok_def rings_ok_def unat_and_less)
    show ?thesis
    proof (cases "cqe_user_data ?c = h2_uring_cancel_user_data fd (uf_generation ?f)")
      case True
      have "uring_ok (st\<lparr>u_rings := (u_rings st)\<lparr>r_cq_head := head + 1\<rparr>\<rparr>)"
        using less.prems by (simp add: uring_ok_def rings_ok_def)
      with True False i show ?thesis by (subst h2_uring_drain_loop.simps) (simp add: rd_in)
    next
      case other: False
      obtain ret st1 where 1: "h2_uring_save_cqe st ?c = Some (ret, st1)" "uring_ok st1" "u_rings st1 = u_rings st"
        "ret = 0 \<longrightarrow> length (u_pending_cqes st1) = Suc (length (u_pending_cqes st))"
        using save_cqe_ok [OF less.prems, of ?c] by blast
      have step: "h2_uring_drain_loop fd head tail st =
          (if ret \<noteq> 0 then Some (Inl (- 1, st1)) else h2_uring_drain_loop fd (head + 1) tail st1)"
        using False i other 1(1) by (subst h2_uring_drain_loop.simps) (simp add: rd_in)
      have one: "unat (tail - head) = Suc (unat (tail - (head + 1)))"
        using False unat_minus_one [of "tail - head"] unat_gt_0 [of "tail - head"] by (simp add: diff_diff_eq)
      then have "unat (tail - (head + 1)) < unat (tail - head)" by simp
      from less.hyps [OF this 1(2)] 1 one show ?thesis unfolding step by auto
    qed
  qed
qed

definition drain_progress :: "('w \<Rightarrow> nat) \<Rightarrow> h2_uring_state \<Rightarrow> 'w \<Rightarrow> nat" where
  "drain_progress budget st w = (H2_URING_SAVED_CQES - length (u_pending_cqes st)) + budget w"

lemma drain_step_ok:
  assumes k: "uring_kernel k same budget" and st: "uring_ok st" and fd: "0 \<le> fd" "fd < int H2_URING_MAX_FDS"
  shows "(\<exists>ret st' w'. h2_uring_drain_step k fd st w = Some (Inl (ret, st', w')) \<and> uring_ok st' \<and> same w w') \<or>
    (\<exists>st' w'. h2_uring_drain_step k fd st w = Some (Inr (st', w')) \<and> uring_ok st' \<and> same w w' \<and>
       drain_progress budget st' w' < drain_progress budget st w)"
proof -
  note frame = kernel_frame [OF k]
  obtain t1 st1 w1 where 1: "load_cq_tail k st w = (t1, st1, w1)" by (metis prod_cases3)
  note l1 = load_kept [OF k 1]
  let ?enter = "if r_cq_head (u_rings st1) = t1 then h2_uring_enter k 0 1 IORING_ENTER_GETEVENTS NULL st1 w1
    else (Done 0, st1, w1)"
  obtain res st2 w2 where 2: "?enter = (res, st2, w2)" by (metis prod_cases3)
  have e: "st_kept st1 st2" "same w1 w2" "budget w2 \<le> budget w1" "res = Failed EINTR \<Longrightarrow> budget w2 < budget w1"
    "sys_ok res \<Longrightarrow> unread (u_rings st2) > 0"
  proof -
    have idle: "st_kept s s" for s by (auto simp: st_kept_def rings_kept_def intro: exI [of _ "u_rings s"])
    have "r_cq_head (u_rings st1) \<noteq> t1 \<Longrightarrow> unread (u_rings st1) > 0"
      using l1(4) by (auto simp: unread_def word_neq_0_conv unat_gt_0)
    with 2 enter_kept [OF k, of 0 1 IORING_ENTER_GETEVENTS NULL st1 w1 res st2 w2] idle [of st1] frame_refl [OF frame, of w1]
    show "st_kept st1 st2" "same w1 w2" "budget w2 \<le> budget w1" "res = Failed EINTR \<Longrightarrow> budget w2 < budget w1"
      "sys_ok res \<Longrightarrow> unread (u_rings st2) > 0"
      by (auto split: if_splits)
  qed
  have ok2: "uring_ok st2" "u_pending_cqes st2 = u_pending_cqes st"
    using st_keptD [OF l1(1)] st_keptD [OF e(1)] st by simp_all
  have s2: "same w w2" using frame_trans [OF frame l1(2) e(2)] .
  show ?thesis
  proof (cases res)
    case (Failed er)
    then show ?thesis
      using 1 2 ok2 s2 e(3,4) l1(3)
      by (cases "er = EINTR") (auto simp: h2_uring_drain_step_def drain_progress_def)
  next
    case (Done n)
    obtain t3 st3 w3 where 3: "load_cq_tail k st2 w2 = (t3, st3, w3)" by (metis prod_cases3)
    note l3 = load_kept [OF k 3]
    have ok3: "uring_ok st3" "u_pending_cqes st3 = u_pending_cqes st" and u3: "unread (u_rings st3) > 0"
      using st_keptD [OF l3(1)] ok2 e(5) Done by (auto simp: rings_kept_def)
    have s3: "same w w3" using frame_trans [OF frame s2 l3(2)] .
    have run: "h2_uring_drain_step k fd st w = do {
             r \<leftarrow> h2_uring_drain_loop fd (r_cq_head (u_rings st3)) t3 st3;
             Some (case r of
                 Inl (ret, st) \<Rightarrow> Inl (ret, st, w3)
               | Inr (head, st) \<Rightarrow> Inr (st\<lparr>u_rings := (u_rings st)\<lparr>r_cq_head := head\<rparr>\<rparr>, w3)) }"
      using 1 2 3 Done by (simp add: h2_uring_drain_step_def)
    have pos: "unat (t3 - r_cq_head (u_rings st3)) > 0" using u3 l3(4) by (simp add: unread_def)
    from drain_loop_ok [OF fd ok3(1), of "r_cq_head (u_rings st3)" t3] show ?thesis
    proof (elim disjE exE conjE)
      fix st' assume a: "h2_uring_drain_loop fd (r_cq_head (u_rings st3)) t3 st3 = Some (Inr (t3, st'))" "uring_ok st'"
        "length (u_pending_cqes st') = length (u_pending_cqes st3) + unat (t3 - r_cq_head (u_rings st3))"
      have "uring_ok (st'\<lparr>u_rings := (u_rings st')\<lparr>r_cq_head := t3\<rparr>\<rparr>)"
        using a(2) by (simp add: uring_ok_def rings_ok_def)
      moreover have "length (u_pending_cqes st') \<le> H2_URING_SAVED_CQES" using a(2) by (simp add: uring_ok_def)
      ultimately show ?thesis
        using run a pos s3 ok3 e(3) l1(3) l3(3) by (auto simp: drain_progress_def)
    qed (use run s3 in auto)
  qed
qed

lemma drain_ok:
  assumes k: "uring_kernel k same budget" and fd: "0 \<le> fd" "fd < int H2_URING_MAX_FDS"
  shows "uring_ok st \<Longrightarrow> \<exists>ret st' w'. h2_uring_drain_until_cancel k fd st w = Some (ret, st', w') \<and> uring_ok st' \<and> same w w'"
proof (induction "drain_progress budget st w" arbitrary: st w rule: less_induct)
  case less
  from drain_step_ok [OF k less.prems fd, of w] show ?case
  proof (elim disjE exE conjE)
    fix st' w' assume a: "h2_uring_drain_step k fd st w = Some (Inr (st', w'))" "uring_ok st'" "same w w'"
      "drain_progress budget st' w' < drain_progress budget st w"
    then show ?thesis using less.hyps [OF a(4,2)] frame_trans [OF kernel_frame [OF k] a(3)]
      by (subst h2_uring_drain_until_cancel.simps) auto
  qed (subst h2_uring_drain_until_cancel.simps, simp)
qed

lemma cancel_ok:
  assumes k: "uring_kernel k same budget" and st: "uring_ok st" and fd: "0 \<le> fd" "fd < int H2_URING_MAX_FDS"
  shows "\<exists>ret st' w'. h2_uring_cancel_active_poll k fd st w = Some (ret, st', w') \<and> uring_ok st' \<and> same w w'"
proof -
  let ?f = "u_fds st ! nat fd"
  note refl = frame_refl [OF kernel_frame [OF k]] and trans = frame_trans [OF kernel_frame [OF k]]
  have rd: "rd (u_fds st) (nat fd) = Some ?f" using st fd by (auto simp: uring_ok_def intro: rd_in)
  from get_sqe_ok [OF st] show ?thesis
  proof (elim disjE exE conjE)
    fix i st1 assume 1: "h2_uring_get_sqe st = Some (Ptr i, st1)" "i < length (r_sqes (u_rings st1))" "uring_ok st1"
    let ?sqe = "zero_sqe\<lparr>sqe_opcode := IORING_OP_POLL_REMOVE,
                     sqe_addr := h2_uring_poll_user_data fd (uf_generation ?f),
                     sqe_user_data := h2_uring_cancel_user_data fd (uf_generation ?f)\<rparr>"
    obtain st2 where 2: "store_sqe st1 i ?sqe = Some st2" "uring_ok st2" using store_sqe_ok [OF 1(3,2), of ?sqe] by blast
    let ?enter = "if u_ring_fd st2 \<ge> 0 then h2_uring_enter k 1 0 0 NULL st2 w else (Done 0, st2, w)"
    obtain res st3 w3 where 3: "?enter = (res, st3, w3)" by (metis prod_cases3)
    have ok3: "uring_ok st3" "same w w3"
      using 3 2(2) enter_kept(1,2) [OF k, of 1 0 0 NULL st2 w res st3 w3] st_keptD(4) refl [of w] by (auto split: if_splits)
    obtain ret st4 w4 where 4: "h2_uring_drain_until_cancel k fd st3 w3 = Some (ret, st4, w4)" "uring_ok st4" "same w3 w4"
      using drain_ok [OF k fd ok3(1)] by blast
    have "h2_uring_cancel_active_poll k fd st w =
      (if \<not> uf_active ?f then Some (0, st, w)
       else case res of Failed e \<Rightarrow> Some (- 1, st3, w3) | Done _ \<Rightarrow> h2_uring_drain_until_cancel k fd st3 w3)"
      using rd 1 2 3 by (cases res) (simp_all add: h2_uring_cancel_active_poll_def)
    then show ?thesis using 4 ok3 st refl [of w] trans [OF ok3(2) 4(3)] by (cases res) auto
  qed (use rd st refl in \<open>simp add: h2_uring_cancel_active_poll_def\<close>)
qed

lemma remove_ok:
  assumes k: "uring_kernel k same budget" and io: "uring_io_ok io"
  shows "\<exists>ret io' w'. uring_io_remove k (Ptr io) fd w = Some (ret, Ptr io', w') \<and> uring_io_ok io' \<and> same w w'"
proof -
  note refl = frame_refl [OF kernel_frame [OF k]]
  obtain st where st: "uio_state io = Ptr st" "uring_ok st" using io by (auto simp: uring_io_ok_def)
  show ?thesis
  proof (cases "fd < 0 \<or> fd \<ge> int H2_URING_MAX_FDS")
    case True
    with st io refl [of w] show ?thesis by (auto simp: uring_io_remove_def)
  next
    case False
    let ?f = "u_fds st ! nat fd"
    have rd: "rd (u_fds st) (nat fd) = Some ?f" using st False by (auto simp: uring_ok_def intro: rd_in)
    obtain ret st1 w1 where 1: "h2_uring_cancel_active_poll k fd st w = Some (ret, st1, w1)" "uring_ok st1" "same w w1"
      using cancel_ok [OF k st(2), of fd w] False by auto
    let ?f1 = "u_fds st1 ! nat fd"
    have rd1: "rd (u_fds st1) (nat fd) = Some ?f1" using 1(2) False by (auto simp: uring_ok_def intro: rd_in)
    have "uring_ok (st1\<lparr>u_fds := (u_fds st1)[nat fd := ?f1\<lparr>uf_active := False, uf_used := False, uf_events := 0\<rparr>]\<rparr>)"
      using 1(2) by (intro uring_ok_fds) simp_all
    with False st io rd 1 rd1 refl [of w] show ?thesis
      by (cases "uf_used ?f"; cases "ret = 0") (simp_all add: uring_io_remove_def uring_io_ok_def)
  qed
qed

subsection \<open>Registration and waiting\<close>

lemma set_fd_ok:
  assumes "uring_io_ok io"
  shows "\<exists>ret io'. h2_uring_set_fd io fd used events = Some (ret, io') \<and> uring_io_ok io'"
proof (cases "fd < 0 \<or> fd \<ge> int H2_URING_MAX_FDS")
  case False
  obtain st where st: "uio_state io = Ptr st" "uring_ok st" using assms by (auto simp: uring_io_ok_def)
  have rd: "rd (u_fds st) (nat fd) = Some (u_fds st ! nat fd)" using st False by (auto simp: uring_ok_def intro: rd_in)
  from False st rd show ?thesis
    by (simp add: h2_uring_set_fd_def uring_io_ok_def uring_ok_fds Let_def)
qed (use assms in \<open>auto simp: h2_uring_set_fd_def\<close>)

lemma wait_for_event_ok:
  assumes k: "uring_kernel k same budget" and st: "uring_ok st"
  shows "\<exists>res st' w'. h2_uring_wait_for_event k st t w = Some (res, st', w') \<and> uring_ok st' \<and> same w w'"
proof -
  note refl = frame_refl [OF kernel_frame [OF k]]
  have enter: "\<exists>res st' w'. h2_uring_enter k n m fl a s w = (res, st', w') \<and> uring_ok st' \<and> same w w'" if "uring_ok s" for n m fl a s
    using enter_kept(1,2) [OF k] st_keptD(4) that by (metis prod_cases3)
  have sqe: "\<exists>res st' w'. h2_uring_submit_timeout_sqe k st t w = Some (res, st', w') \<and> uring_ok st' \<and> same w w'"
    using get_sqe_ok [OF st]
  proof (elim disjE exE conjE)
    fix i st1 assume 1: "h2_uring_get_sqe st = Some (Ptr i, st1)" "i < length (r_sqes (u_rings st1))" "uring_ok st1"
    let ?st = "st1\<lparr>u_timeout := timeout_of t\<rparr>"
    let ?sqe = "zero_sqe\<lparr>sqe_opcode := IORING_OP_TIMEOUT, sqe_addr := ur_timeout_addr k, sqe_len := 1,
                     sqe_user_data := H2_URING_TIMEOUT_FLAG\<rparr>"
    have "uring_ok ?st" using 1(3) by (simp add: uring_ok_def)
    then obtain st2 where 2: "store_sqe ?st i ?sqe = Some st2" "uring_ok st2" using store_sqe_ok [of ?st i ?sqe] 1(2) by auto
    with 1 enter [OF 2(2)] show ?thesis by (fastforce simp: h2_uring_submit_timeout_sqe_def)
  qed (use st refl [of w] in \<open>simp add: h2_uring_submit_timeout_sqe_def\<close>)
  show ?thesis using enter [OF st] sqe st refl [of w] by (auto simp: h2_uring_wait_for_event_def)
qed

lemma wait_state_ok:
  assumes k: "uring_kernel k same budget" and st: "uring_ok st"
  shows "\<exists>ret events st' w'. uring_wait_state k st cap t w = Some (ret, events, st', w') \<and> uring_ok st' \<and> same w w' \<and>
    length events \<le> cap \<and> (ret < 0 \<or> ret = int (length events))"
proof -
  note refl = frame_refl [OF kernel_frame [OF k]] and trans = frame_trans [OF kernel_frame [OF k]]
  obtain ret st1 w1 where 1: "h2_uring_submit_missing k st w = Some (ret, st1, w1)" "uring_ok st1" "same w w1"
    using submit_missing_ok [OF k st, of w] by blast
  obtain t2 st2 w2 where 2: "load_cq_tail k st1 w1 = (t2, st2, w2)" by (metis prod_cases3)
  have ok2: "uring_ok st2" "same w w2"
    using load_kept [OF k 2] st_keptD(4) 1 trans by blast+
  let ?wait = "if r_cq_head (u_rings st2) = t2 then h2_uring_wait_for_event k st2 t w2 else Some (Done 0, st2, w2)"
  have "\<exists>res st3 w3. ?wait = Some (res, st3, w3) \<and> uring_ok st3 \<and> same w2 w3"
    using wait_for_event_ok [OF k ok2(1), of t w2] ok2(1) refl [of w2] by simp
  then obtain res st3 w3 where 3: "?wait = Some (res, st3, w3)" "uring_ok st3" "same w2 w3" by blast
  have s3: "same w w3" using trans [OF ok2(2) 3(3)] .
  obtain st4 evs where 4: "h2_uring_finish_saved_cqes st3 cap [] = Some (st4, evs)" "uring_ok st4" "length evs \<le> cap"
    using finish_saved_ok [OF 3(2), of "[]" cap] by auto
  obtain t5 st5 w5 where 5: "load_cq_tail k st4 w3 = (t5, st5, w5)" by (metis prod_cases3)
  have ok5: "uring_ok st5" "same w w5"
    using load_kept [OF k 5] st_keptD(4) 4(2) trans [OF s3] by blast+
  obtain h st6 evs' where 6: "h2_uring_wait_loop (r_cq_head (u_rings st5)) t5 cap st5 evs = Some (h, st6, evs')"
    "uring_ok st6" "length evs' \<le> cap"
    using wait_loop_ok [OF ok5(1) 4(3)] by blast
  have "uring_ok (st6\<lparr>u_rings := (u_rings st6)\<lparr>r_cq_head := h\<rparr>\<rparr>)" using 6(2) by (simp add: uring_ok_def rings_ok_def)
  moreover have "uring_wait_state k st cap t w =
    (if ret \<noteq> 0 then Some (- 1, [], st1, w1)
     else case res of
       Failed e \<Rightarrow> Some (if e = EINTR \<or> e = ETIME \<or> e = ETIMEDOUT then 0 else - 1, [], st3, w3)
     | Done _ \<Rightarrow> Some (int (length evs'), evs', st6\<lparr>u_rings := (u_rings st6)\<lparr>r_cq_head := h\<rparr>\<rparr>, w5))"
    using 1(1) 2 3(1) 4(1) 5 6(1) by (cases res) (simp_all add: uring_wait_state_def)
  ultimately show ?thesis using 1 3 6 s3 ok5 by (cases "ret = 0"; cases res) simp_all
qed

subsection \<open>As a backend of the server\<close>

definition uring_ops :: "'w uring_os \<Rightarrow> (h2_uring_io, 'w) h2_io_ops" where
  "uring_ops k =
     \<lparr>io_init = (\<lambda>w. case uring_io_init k (Ptr \<lparr>uio_fd = 0, uio_state = NULL\<rparr>) w of (ret, io, w) \<Rightarrow>
                  do { i \<leftarrow> deref io; Some (ret, i, w) }),
      io_add_listener = (\<lambda>i fd w. do { (ret, i) \<leftarrow> uring_io_add_listener i fd; Some (ret, i, w) }),
      io_add_connection = (\<lambda>i fd w. do { (ret, i) \<leftarrow> uring_io_add_connection i fd; Some (ret, i, w) }),
      io_mod_connection = (\<lambda>i fd b w. do { (ret, i) \<leftarrow> uring_io_mod_connection i fd b; Some (ret, i, w) }),
      io_remove = (\<lambda>i fd w. do { (ret, io, w) \<leftarrow> uring_io_remove k (Ptr i) fd w; i \<leftarrow> deref io; Some (ret, i, w) }),
      io_wait = uring_io_wait k,
      io_close = (\<lambda>i w. case uring_io_close k (Ptr i) w of (io, w) \<Rightarrow> do { i \<leftarrow> deref io; Some (i, w) })\<rparr>"

lemma set_fd_runs:
  assumes "uring_ready k same" "uring_io_ok i"
  shows "runs same uring_io_ok w (do { (ret, i) \<leftarrow> h2_uring_set_fd i fd used events; Some (ret, i, w) })"
proof -
  have "same w w" using assms(1) frame_refl kernel_frame by (metis uring_ready_def)
  with set_fd_ok [OF assms(2), of fd used events] show ?thesis by (auto simp: runs_def)
qed

interpretation uring: io_backend uring_ops uring_ready uring_io_ok
proof (unfold_locales, goal_cases)
  case (1 k same)
  then show ?case by (auto simp: uring_ready_def kernel_frame)
next
  case (2 k same i w fd)
  then show ?case by (simp add: uring_ops_def uring_io_add_listener_def set_fd_runs)
next
  case (3 k same i w fd)
  then show ?case by (simp add: uring_ops_def uring_io_add_connection_def set_fd_runs)
next
  case (4 k same i w fd b)
  then show ?case by (simp add: uring_ops_def uring_io_mod_connection_def set_fd_runs Let_def)
next
  case (5 k same i w fd)
  then obtain budget where "uring_kernel k same budget" by (auto simp: uring_ready_def)
  from remove_ok [OF this 5(2), of fd w] show ?case by (auto simp: runs_def uring_ops_def)
next
  case (6 k same i cap t w)
  then obtain budget st where "uring_kernel k same budget" "uio_state i = Ptr st" "uring_ok st"
    by (auto simp: uring_ready_def uring_io_ok_def)
  with wait_state_ok [of k same budget st cap t w] 6(3) show ?case
    by (auto simp: uring_ops_def uring_io_wait_def uring_io_ok_def)
qed

end
