(* ===== verification/Uring_Props.thy ===== *)
theory Uring_Props
  imports Uring_Safety
begin

unbundle bit_operations_syntax

section \<open>Descriptors, generations and completions\<close>

subsection \<open>User data\<close>

lemma mask_words: "H2_URING_GENERATION_MASK = mask 30" "H2_URING_FD_MASK = mask 32"
  by (simp_all add: uring_consts mask_eq_exp_minus_1)

lemma flag_bits:
  "bit H2_URING_CANCEL_FLAG n \<longleftrightarrow> n = 63" "bit H2_URING_TIMEOUT_FLAG n \<longleftrightarrow> n = 62"
  "bit (0x3fffffff00000000 :: u64) n \<longleftrightarrow> 32 \<le> n \<and> n < 62"
proof -
  have "H2_URING_CANCEL_FLAG = push_bit 63 1" "H2_URING_TIMEOUT_FLAG = push_bit 62 1"
    "(0x3fffffff00000000 :: u64) = push_bit 32 (mask 30)"
    by (simp_all add: uring_consts mask_eq_exp_minus_1 push_bit_eq_mult)
  note eqs = this
  show "bit H2_URING_CANCEL_FLAG n \<longleftrightarrow> n = 63" "bit H2_URING_TIMEOUT_FLAG n \<longleftrightarrow> n = 62"
    "bit (0x3fffffff00000000 :: u64) n \<longleftrightarrow> 32 \<le> n \<and> n < 62"
    unfolding eqs bit_push_bit_iff by (auto simp: bit_1_iff bit_mask_iff)
qed

lemma poll_bits:
  "bit (h2_uring_poll_user_data fd g) n \<longleftrightarrow>
     (if n < 32 then bit (word_of_int fd :: u32) n else n < 62 \<and> bit g (n - 32))"
  by (auto simp: h2_uring_poll_user_data_def mask_words flag_bits bit_simps)

lemma poll_fd_word: "h2_uring_poll_user_data fd g AND H2_URING_FD_MASK = ucast (word_of_int fd :: u32)"
  by (rule bit_eqI) (auto simp: poll_bits mask_words flag_bits bit_simps)

lemma cancel_fd_word: "h2_uring_cancel_user_data fd g AND H2_URING_FD_MASK = ucast (word_of_int fd :: u32)"
  by (rule bit_eqI) (auto simp: h2_uring_cancel_user_data_def poll_bits mask_words flag_bits bit_simps)

lemma uint_ucast_fd: "0 \<le> fd \<Longrightarrow> fd \<le> INT32_MAX \<Longrightarrow> uint (ucast (word_of_int fd :: u32) :: u64) = fd"
  by (simp add: unsigned_ucast_eq uint_word_of_int c_limits take_bit_int_eq_self)

lemma user_data_fd:
  assumes "0 \<le> fd" "fd \<le> INT32_MAX"
  shows "h2_uring_user_data_fd (h2_uring_poll_user_data fd g) = fd"
    "h2_uring_user_data_fd (h2_uring_cancel_user_data fd g) = fd"
  using assms by (simp_all add: h2_uring_user_data_fd_def poll_fd_word cancel_fd_word uint_ucast_fd cast_i32_nonneg)

lemma high_bits:
  "bit (ucast (drop_bit 32 (u AND k)) :: u32) n \<longleftrightarrow> n < 32 \<and> bit u (n + 32) \<and> bit k (n + 32)" for u k :: u64
  by (auto simp: bit_simps add.commute)

lemma user_data_generation:
  "h2_uring_user_data_generation (h2_uring_poll_user_data fd g) = g AND H2_URING_GENERATION_MASK"
  "h2_uring_user_data_generation (h2_uring_cancel_user_data fd g) = g AND H2_URING_GENERATION_MASK"
proof -
  have *: "bit (h2_uring_user_data_generation u) n \<longleftrightarrow> n < 30 \<and> bit u (n + 32)" for u n
    unfolding h2_uring_user_data_generation_def high_bits flag_bits by auto
  show "h2_uring_user_data_generation (h2_uring_poll_user_data fd g) = g AND H2_URING_GENERATION_MASK"
    "h2_uring_user_data_generation (h2_uring_cancel_user_data fd g) = g AND H2_URING_GENERATION_MASK"
    by (rule bit_eqI, auto simp: * poll_bits h2_uring_cancel_user_data_def mask_words flag_bits bit_or_iff bit_and_iff bit_mask_iff)+
qed

lemma user_data_kind:
  "\<not> h2_uring_is_cancel_user_data (h2_uring_poll_user_data fd g)"
  "\<not> h2_uring_is_timeout_user_data (h2_uring_poll_user_data fd g)"
  "h2_uring_is_cancel_user_data (h2_uring_cancel_user_data fd g)"
  "\<not> h2_uring_is_timeout_user_data (h2_uring_cancel_user_data fd g)"
  by (auto simp: h2_uring_is_cancel_user_data_def h2_uring_is_timeout_user_data_def h2_uring_cancel_user_data_def
      poll_bits flag_bits bit_or_iff bit_and_iff bit_eq_iff [where 'a = u64])

lemma timeout_kind:
  "h2_uring_is_timeout_user_data H2_URING_TIMEOUT_FLAG" "\<not> h2_uring_is_cancel_user_data H2_URING_TIMEOUT_FLAG"
  by (simp_all add: h2_uring_is_timeout_user_data_def h2_uring_is_cancel_user_data_def uring_consts)

lemma poll_user_data_eq:
  assumes "0 \<le> fd" "fd \<le> INT32_MAX" "0 \<le> fd'" "fd' \<le> INT32_MAX"
  shows "h2_uring_poll_user_data fd g = h2_uring_poll_user_data fd' g' \<longleftrightarrow>
    fd = fd' \<and> g AND H2_URING_GENERATION_MASK = g' AND H2_URING_GENERATION_MASK"
proof
  assume eq: "h2_uring_poll_user_data fd g = h2_uring_poll_user_data fd' g'"
  show "fd = fd' \<and> g AND H2_URING_GENERATION_MASK = g' AND H2_URING_GENERATION_MASK"
    using arg_cong [OF eq, of h2_uring_user_data_fd] arg_cong [OF eq, of h2_uring_user_data_generation] assms
    by (simp add: user_data_fd user_data_generation)
qed (simp add: h2_uring_poll_user_data_def)

text \<open>C34: the user data of a request gives back its descriptor and the 30 bits of its generation, for
  polls and for cancellations, and the flags tell the three kinds of user data apart: that of a
  cancellation is recognised as such and not as a timeout, \<open>H2_URING_TIMEOUT_FLAG\<close>, which
  \<open>h2_uring_submit_timeout_sqe\<close> gives its request, as a timeout and not as a cancellation, and that of
  a poll as neither.\<close>

theorem user_data_round_trip:
  assumes "0 \<le> fd" "fd < int H2_URING_MAX_FDS"
  shows "h2_uring_user_data_fd (h2_uring_poll_user_data fd g) = fd \<and>
     h2_uring_user_data_generation (h2_uring_poll_user_data fd g) = g AND H2_URING_GENERATION_MASK \<and>
     \<not> h2_uring_is_cancel_user_data (h2_uring_poll_user_data fd g) \<and>
     \<not> h2_uring_is_timeout_user_data (h2_uring_poll_user_data fd g) \<and>
     h2_uring_user_data_fd (h2_uring_cancel_user_data fd g) = fd \<and>
     h2_uring_user_data_generation (h2_uring_cancel_user_data fd g) = g AND H2_URING_GENERATION_MASK \<and>
     h2_uring_is_cancel_user_data (h2_uring_cancel_user_data fd g) \<and>
     \<not> h2_uring_is_timeout_user_data (h2_uring_cancel_user_data fd g) \<and>
     h2_uring_is_timeout_user_data H2_URING_TIMEOUT_FLAG \<and>
     \<not> h2_uring_is_cancel_user_data H2_URING_TIMEOUT_FLAG"
  using assms by (simp add: user_data_fd user_data_generation user_data_kind timeout_kind H2_URING_MAX_FDS_def c_limits)

theorem user_data_round_trip_witness:
  "h2_uring_user_data_fd (h2_uring_cancel_user_data 4095 (- 1)) = 4095 \<and> h2_uring_is_timeout_user_data H2_URING_TIMEOUT_FLAG"
  using user_data_round_trip [of 4095 "- 1"] by (simp add: H2_URING_MAX_FDS_def)

subsection \<open>Reuse of a descriptor\<close>

lemma next_generation_differs: "(g + 1) AND H2_URING_GENERATION_MASK \<noteq> g AND H2_URING_GENERATION_MASK"
proof
  assume eq: "(g + 1) AND H2_URING_GENERATION_MASK = g AND H2_URING_GENERATION_MASK"
  have "bit (x AND H2_URING_GENERATION_MASK) 0 \<longleftrightarrow> bit x 0" for x
    unfolding mask_words bit_and_iff bit_mask_iff by simp
  from this [of "g + 1"] this [of g] eq show False by (simp add: bit_0)
qed

lemma mask_idem: "g AND H2_URING_GENERATION_MASK AND H2_URING_GENERATION_MASK = g AND H2_URING_GENERATION_MASK"
  by (rule bit_eqI) (auto simp: bit_and_iff)

lemma finish_stale:
  assumes "uring_ok st" "0 \<le> fd" "fd < int H2_URING_MAX_FDS"
    "cqe_user_data cqe \<in> {h2_uring_poll_user_data fd g, h2_uring_cancel_user_data fd g}"
    "uf_generation (u_fds st ! nat fd) \<noteq> g AND H2_URING_GENERATION_MASK"
  shows "h2_uring_finish_cqe st cqe cap events = Some (st, events)"
proof -
  have rd: "rd (u_fds st) (nat fd) = Some (u_fds st ! nat fd)" using assms by (auto simp: uring_ok_def intro: rd_in)
  have fd: "fd \<le> INT32_MAX" using assms by (simp add: H2_URING_MAX_FDS_def c_limits)
  show ?thesis
    using assms fd rd by (auto simp: h2_uring_finish_cqe_def user_data_fd user_data_generation user_data_kind Let_def)
qed

text \<open>C31: when a descriptor that was removed is registered again, a completion of its earlier poll, or
  of the cancellation of that poll, is ignored: it reports no event for the new connection and does
  not mark its poll as finished.\<close>

theorem stale_completion_ignored:
  assumes "uio_state io = Ptr st" "uring_ok st" "0 \<le> fd" "fd < int H2_URING_MAX_FDS"
    and "\<not> uf_used (u_fds st ! nat fd)" "g = uf_generation (u_fds st ! nat fd)"
    and "cqe_user_data cqe \<in> {h2_uring_poll_user_data fd g, h2_uring_cancel_user_data fd g}"
  shows "\<exists>st'. uring_io_add_connection io fd = Some (0, io\<lparr>uio_state := Ptr st'\<rparr>) \<and> uf_used (u_fds st' ! nat fd) \<and>
     h2_uring_finish_cqe st' cqe cap events = Some (st', events)"
proof -
  let ?f = "u_fds st ! nat fd"
  let ?st = "st\<lparr>u_fds := (u_fds st)[nat fd := ?f\<lparr>uf_generation := (g + 1) AND H2_URING_GENERATION_MASK,
     uf_used := True, uf_events := POLLIN OR POLLRDHUP OR POLLERR OR POLLHUP\<rparr>]\<rparr>"
  have len: "nat fd < length (u_fds st)" using assms by (auto simp: uring_ok_def)
  then have add: "uring_io_add_connection io fd = Some (0, io\<lparr>uio_state := Ptr ?st\<rparr>)"
    using assms by (simp add: uring_io_add_connection_def h2_uring_set_fd_def rd_in Let_def)
  have "uring_ok ?st" using assms(2) by (simp add: uring_ok_fds)
  then have "h2_uring_finish_cqe ?st cqe cap events = Some (?st, events)"
    by (rule finish_stale [OF _ assms(3,4,7)]) (simp add: len next_generation_differs)
  with add len show ?thesis by (intro exI [of _ ?st]) simp
qed

definition sample_rings :: h2_uring_rings where
  "sample_rings = zero_rings\<lparr>r_sq_ring_entries := 1, r_sq_array := [0], r_sqes := [zero_sqe],
     r_cqes := [\<lparr>cqe_user_data = 0, cqe_res = 0, cqe_flags = 0\<rparr>]\<rparr>"

definition sample_state :: h2_uring_state where
  "sample_state = zero_uring_state\<lparr>u_rings := sample_rings\<rparr>"

lemma sample_ok: "uring_ok sample_state"
  by (simp add: uring_ok_def sample_state_def sample_rings_def zero_uring_state_def zero_rings_def rings_ok_def)

theorem stale_completion_ignored_witness:
  "\<exists>st'. uring_io_add_connection \<lparr>uio_fd = 3, uio_state = Ptr sample_state\<rparr> 7 =
      Some (0, \<lparr>uio_fd = 3, uio_state = Ptr st'\<rparr>) \<and> uf_used (u_fds st' ! 7) \<and>
     h2_uring_finish_cqe st' \<lparr>cqe_user_data = h2_uring_poll_user_data 7 0, cqe_res = 1, cqe_flags = 0\<rparr> 64 [] = Some (st', [])"
  using stale_completion_ignored [of "\<lparr>uio_fd = 3, uio_state = Ptr sample_state\<rparr>" sample_state 7 0
      "\<lparr>cqe_user_data = h2_uring_poll_user_data 7 0, cqe_res = 1, cqe_flags = 0\<rparr>" 64 "[]"] sample_ok
  by (simp add: sample_state_def zero_uring_state_def H2_URING_MAX_FDS_def zero_fd_state_def)

subsection \<open>Arming the polls\<close>

definition needs_poll :: "h2_uring_state \<Rightarrow> nat \<Rightarrow> bool" where
  "needs_poll st fd \<longleftrightarrow> uf_used (u_fds st ! fd) \<and> \<not> uf_active (u_fds st ! fd)"

definition sq_room :: "h2_uring_state \<Rightarrow> nat" where
  "sq_room st = unat (r_sq_ring_entries (u_rings st)) - unat (r_sq_tail (u_rings st) - r_sq_head (u_rings st))"

definition to_arm :: "h2_uring_state \<Rightarrow> nat list" where
  "to_arm st = filter (needs_poll st) [0..<H2_URING_MAX_FDS]"

text \<open>The request for a descriptor, and the request the kernel finds at a position of the submission queue.\<close>

definition poll_sqe :: "h2_uring_state \<Rightarrow> nat \<Rightarrow> io_uring_sqe" where
  "poll_sqe st fd =
     \<lparr>sqe_opcode = IORING_OP_POLL_ADD, sqe_fd = int fd, sqe_addr = 0, sqe_len = 0,
      sqe_poll_events = ucast (uf_events (u_fds st ! fd)),
      sqe_user_data = h2_uring_poll_user_data (int fd) (uf_generation (u_fds st ! fd))\<rparr>"

definition slot_of :: "h2_uring_state \<Rightarrow> u32 \<Rightarrow> nat" where
  "slot_of st position = unat (position AND r_sq_ring_mask (u_rings st))"

definition submission :: "h2_uring_state \<Rightarrow> u32 \<Rightarrow> io_uring_sqe" where
  "submission st position = r_sqes (u_rings st) ! unat (r_sq_array (u_rings st) ! slot_of st position)"

text \<open>The kernel rounds the size of the submission queue to a power of two, and its mask is one less.\<close>

definition sq_size :: "h2_uring_state \<Rightarrow> nat \<Rightarrow> bool" where
  "sq_size st n \<longleftrightarrow> n < 32 \<and> unat (r_sq_ring_entries (u_rings st)) = 2 ^ n \<and> r_sq_ring_mask (u_rings st) = mask n"

lemma unat_take_bit_add:
  assumes "n < 32"
  shows "unat (take_bit n (t + of_nat i :: u32)) = (unat t + i) mod 2 ^ n"
proof -
  have "(2 :: nat) ^ n dvd 2 ^ 32" using assms by (intro le_imp_power_dvd) simp
  moreover have "unat (t + of_nat i) = (unat t + i) mod 2 ^ 32"
    by (simp add: unat_word_ariths unat_of_nat mod_add_right_eq)
  moreover have "unat (take_bit n (t + of_nat i :: u32)) = unat (t + of_nat i) mod 2 ^ n"
    by (simp only: unsigned_take_bit_eq) (simp only: take_bit_eq_mod)
  ultimately show ?thesis by (simp only: mod_mod_cancel)
qed

lemma mod_shift_inj:
  fixes a i j m :: nat
  assumes "(a + i) mod m = (a + j) mod m" "i < m" "j < m"
  shows "i = j"
proof -
  have *: "i = j" if "(a + i) mod m = (a + j) mod m" "i \<le> j" "j < m" for i j
  proof -
    have "m dvd (a + j) - (a + i)" using that(1,2) mod_eq_dvd_iff_nat [of "a + i" "a + j" m] by simp
    then show ?thesis using that(2,3) by (auto dest: dvd_imp_le)
  qed
  show ?thesis using * [of i j] * [of j i] assms by (cases "i \<le> j") auto
qed

lemma slot_of_distinct:
  assumes "sq_size st n" "i < 2 ^ n" "j < 2 ^ n" "slot_of st (t + of_nat i) = slot_of st (t + of_nat j)"
  shows "i = j"
proof -
  have "slot_of st (t + of_nat k) = (unat t + k) mod 2 ^ n" for k
    using assms(1) unat_take_bit_add [of n t k] by (simp add: slot_of_def sq_size_def take_bit_eq_mask)
  with assms(2-4) show ?thesis by (auto intro: mod_shift_inj)
qed


lemma slot_of_eq: "sq_size st n \<Longrightarrow> slot_of st p = unat (p AND mask n)"
  by (simp add: slot_of_def sq_size_def)

text \<open>One request: the next position of the queue holds it, and every other slot is as before.\<close>

lemma get_sqe_room:
  assumes "uring_ok st" "0 < sq_room st"
  defines "p \<equiv> r_sq_tail (u_rings st)"
  shows "h2_uring_get_sqe st = Some (Ptr (slot_of st p),
      st\<lparr>u_rings := (u_rings st)\<lparr>r_sq_array := (r_sq_array (u_rings st))[slot_of st p := p AND r_sq_ring_mask (u_rings st)],
                             r_sq_tail := p + 1\<rparr>\<rparr>)"
    "slot_of st p < length (r_sqes (u_rings st))" "slot_of st p < length (r_sq_array (u_rings st))"
    "unat (p + 1 - r_sq_head (u_rings st)) = Suc (unat (p - r_sq_head (u_rings st)))"
proof -
  let ?r = "u_rings st"
  let ?used = "r_sq_tail ?r - r_sq_head ?r"
  have lt: "unat ?used < unat (r_sq_ring_entries ?r)" using assms(2) by (simp add: sq_room_def)
  then have "unat (?used + 1) = Suc (unat ?used)"
    using unat_u32_less [of "r_sq_ring_entries ?r"] by (simp add: unat_word_ariths)
  then show "unat (p + 1 - r_sq_head (u_rings st)) = Suc (unat (p - r_sq_head (u_rings st)))"
    by (simp add: p_def algebra_simps)
  show i: "slot_of st p < length (r_sqes ?r)" "slot_of st p < length (r_sq_array ?r)"
    using assms(1) by (auto simp: uring_ok_def rings_ok_def unat_and_less slot_of_def)
  have "\<not> r_sq_ring_entries ?r \<le> ?used" using lt by (simp add: word_le_nat_alt)
  then show "h2_uring_get_sqe st = Some (Ptr (slot_of st p),
      st\<lparr>u_rings := (u_rings st)\<lparr>r_sq_array := (r_sq_array (u_rings st))[slot_of st p := p AND r_sq_ring_mask (u_rings st)],
                             r_sq_tail := p + 1\<rparr>\<rparr>)"
    using i by (simp add: h2_uring_get_sqe_def Let_def wr_in slot_of_def p_def)
qed

text \<open>What the loop leaves: the requests of the descriptors \<open>fds\<close>, in order, in the slots after the tail.\<close>

definition requests_queued :: "h2_uring_state \<Rightarrow> nat list \<Rightarrow> h2_uring_state \<Rightarrow> bool" where
  "requests_queued st fds st' \<longleftrightarrow>
     (let p = r_sq_tail (u_rings st) in
      u_ring_fd st' = u_ring_fd st \<and> r_sq_head (u_rings st') = r_sq_head (u_rings st) \<and>
      r_sq_tail (u_rings st') = p + of_nat (length fds) \<and>
      (\<forall>j < length fds. r_sq_array (u_rings st') ! slot_of st (p + of_nat j) = (p + of_nat j) AND r_sq_ring_mask (u_rings st) \<and>
         r_sqes (u_rings st') ! slot_of st (p + of_nat j) = poll_sqe st (fds ! j)) \<and>
      (\<forall>i. (\<forall>j < length fds. slot_of st (p + of_nat j) \<noteq> i) \<longrightarrow>
         r_sq_array (u_rings st') ! i = r_sq_array (u_rings st) ! i \<and> r_sqes (u_rings st') ! i = r_sqes (u_rings st) ! i) \<and>
      (\<forall>fd. u_fds st' ! fd = (if fd \<in> set fds then (u_fds st ! fd)\<lparr>uf_active := True\<rparr> else u_fds st ! fd)))"

lemma submit_loop_queues:
  "uring_ok st \<Longrightarrow> sq_size st n \<Longrightarrow> \<forall>fd \<in> set fds. fd < H2_URING_MAX_FDS \<Longrightarrow> distinct fds \<Longrightarrow>
     length (filter (needs_poll st) fds) \<le> sq_room st \<Longrightarrow>
     \<exists>st'. h2_uring_submit_loop fds submitted st = Some (submitted + of_nat (length (filter (needs_poll st) fds)), st') \<and>
       uring_ok st' \<and> sq_size st' n \<and> requests_queued st (filter (needs_poll st) fds) st'"
proof (induction fds arbitrary: submitted st)
  case Nil
  then show ?case by (simp add: requests_queued_def)
next
  case (Cons fd fds)
  let ?f = "u_fds st ! fd"
  have len: "fd < length (u_fds st)" using Cons.prems by (simp add: uring_ok_def)
  then have rd: "rd (u_fds st) fd = Some ?f" by (rule rd_in)
  show ?case
  proof (cases "needs_poll st fd")
    case False
    with Cons.IH [of st submitted] Cons.prems rd show ?thesis by (auto simp: needs_poll_def)
  next
    case True
    let ?p = "r_sq_tail (u_rings st)" and ?F = "filter (needs_poll st) fds"
    let ?i = "slot_of st ?p"
    from True have room: "0 < sq_room st" using Cons.prems(5) by simp
    note get = get_sqe_room [OF Cons.prems(1) room]
    let ?st3 = "st\<lparr>u_rings := (u_rings st)\<lparr>r_sq_array := (r_sq_array (u_rings st))[?i := ?p AND r_sq_ring_mask (u_rings st)],
        r_sq_tail := ?p + 1, r_sqes := (r_sqes (u_rings st))[?i := poll_sqe st fd]\<rparr>,
      u_fds := (u_fds st)[fd := ?f\<lparr>uf_active := True\<rparr>]\<rparr>"
    have ok3: "uring_ok ?st3" "sq_size ?st3 n" using Cons.prems(1,2) by (simp_all add: uring_ok_def rings_ok_def sq_size_def)
    have other: "x \<in> set fds \<Longrightarrow> needs_poll ?st3 x = needs_poll st x" for x
      using Cons.prems(4) by (cases "x = fd") (simp_all add: needs_poll_def)
    then have F: "filter (needs_poll ?st3) fds = ?F" by (intro filter_cong) simp_all
    have size: "Suc (length ?F) \<le> 2 ^ n" "length ?F \<le> sq_room ?st3"
      using Cons.prems(2,5) True get(4) by (auto simp: sq_room_def sq_size_def)
    obtain st' where st': "h2_uring_submit_loop fds (submitted + 1) ?st3 = Some (submitted + 1 + of_nat (length ?F), st')"
      "uring_ok st'" "sq_size st' n" "requests_queued ?st3 ?F st'"
      using Cons.IH [OF ok3 _ _ , of "submitted + 1"] Cons.prems size(2) F by auto
    have run: "h2_uring_submit_loop (fd # fds) submitted st = Some (submitted + of_nat (Suc (length ?F)), st')"
      using rd True get st'(1)
      by (simp add: needs_poll_def store_sqe_def wr_in poll_sqe_def zero_sqe_def add.assoc)
    have slot: "slot_of ?st3 q = slot_of st q" for q by (simp add: slot_of_def)
    have pos: "?p + 1 + of_nat j = ?p + of_nat (Suc j)" for j by (simp add: add.assoc)
    have apart: "slot_of st (?p + of_nat (Suc j)) \<noteq> ?i" if "j < length ?F" for j
    proof
      assume "slot_of st (?p + of_nat (Suc j)) = ?i"
      then have "Suc j = 0" using slot_of_distinct [OF Cons.prems(2), of "Suc j" 0 ?p] that size(1) by simp
      then show False by simp
    qed
    have in_fds: "?F ! k \<in> set fds" if "k < length ?F" for k using nth_mem [OF that] by auto
    have polls: "poll_sqe ?st3 (?F ! k) = poll_sqe st (?F ! k)" if "k < length ?F" for k
      using in_fds [OF that] Cons.prems(4) by (cases "?F ! k = fd") (simp_all add: poll_sqe_def)
    have q: "u_ring_fd st' = u_ring_fd st" "r_sq_head (u_rings st') = r_sq_head (u_rings st)"
      "r_sq_tail (u_rings st') = ?p + of_nat (Suc (length ?F))"
      "\<And>k. k < length ?F \<Longrightarrow> r_sq_array (u_rings st') ! slot_of st (?p + of_nat (Suc k)) = (?p + of_nat (Suc k)) AND r_sq_ring_mask (u_rings st)"
      "\<And>k. k < length ?F \<Longrightarrow> r_sqes (u_rings st') ! slot_of st (?p + of_nat (Suc k)) = poll_sqe st (?F ! k)"
      "\<And>i. (\<forall>k < length ?F. slot_of st (?p + of_nat (Suc k)) \<noteq> i) \<Longrightarrow>
         r_sq_array (u_rings st') ! i = r_sq_array (u_rings ?st3) ! i \<and> r_sqes (u_rings st') ! i = r_sqes (u_rings ?st3) ! i"
      "\<And>x. u_fds st' ! x = (if x \<in> set ?F then (u_fds ?st3 ! x)\<lparr>uf_active := True\<rparr> else u_fds ?st3 ! x)"
      using st'(4) unfolding requests_queued_def Let_def slot pos [symmetric] by (simp_all add: polls)
    have at_i: "r_sq_array (u_rings st') ! ?i = ?p AND r_sq_ring_mask (u_rings st)" "r_sqes (u_rings st') ! ?i = poll_sqe st fd"
      using q(6) [of ?i] apart get(2,3) by simp_all
    have "requests_queued st (fd # ?F) st'"
      unfolding requests_queued_def Let_def
    proof (intro conjI allI impI)
      fix j assume j: "j < length (fd # ?F)"
      show "r_sq_array (u_rings st') ! slot_of st (?p + of_nat j) = (?p + of_nat j) AND r_sq_ring_mask (u_rings st)"
        "r_sqes (u_rings st') ! slot_of st (?p + of_nat j) = poll_sqe st ((fd # ?F) ! j)"
        using j at_i q(4,5) by (cases j; simp)+
    next
      fix i assume i: "\<forall>j < length (fd # ?F). slot_of st (?p + of_nat j) \<noteq> i"
      then have "\<forall>k < length ?F. slot_of st (?p + of_nat (Suc k)) \<noteq> i" "?i \<noteq> i" by fastforce+
      then show "r_sq_array (u_rings st') ! i = r_sq_array (u_rings st) ! i" "r_sqes (u_rings st') ! i = r_sqes (u_rings st) ! i"
        using q(6) [of i] by simp_all
    next
      fix x
      show "u_fds st' ! x = (if x \<in> set (fd # ?F) then (u_fds st ! x)\<lparr>uf_active := True\<rparr> else u_fds st ! x)"
        using q(7) [of x] len by (cases "x = fd") auto
    qed (use q(1-3) in simp_all)
    with run st' True show ?thesis by (intro exI [of _ st']) simp
  qed
qed


text \<open>C32: if the submission queue, whose size is a power of two, has room for the descriptors without a
  poll, \<open>h2_uring_submit_missing\<close> arms every registered descriptor. After it the ring holds, right behind
  the requests that were already queued, one request for each of them in the order of the
  descriptors: a poll with its descriptor, its events and a user data that names it and its
  generation. The tail stands behind them, exactly these descriptors became active, and every
  registered one is. The kernel is then told this number of requests, and the status of
  that call is returned; without any request the kernel is not called.\<close>

theorem submit_arms_every_descriptor:
  assumes "uring_ready k same" "uring_ok st" "sq_size st n"
    and "length (to_arm st) \<le> sq_room st"
  shows "\<exists>queue. u_ring_fd queue = u_ring_fd st \<and> r_sq_head (u_rings queue) = r_sq_head (u_rings st) \<and>
     r_sq_tail (u_rings queue) = r_sq_tail (u_rings st) + of_nat (length (to_arm st)) \<and>
     (\<forall>j < length (to_arm st). submission queue (r_sq_tail (u_rings st) + of_nat j) = poll_sqe st (to_arm st ! j)) \<and>
     (\<forall>fd < H2_URING_MAX_FDS.
        u_fds queue ! fd = (if needs_poll st fd then (u_fds st ! fd)\<lparr>uf_active := True\<rparr> else u_fds st ! fd) \<and>
        (uf_used (u_fds queue ! fd) \<longrightarrow> uf_active (u_fds queue ! fd))) \<and>
     (if to_arm st = [] then h2_uring_submit_missing k st w = Some (0, queue, w)
      else \<exists>r st' w'. h2_uring_enter k (of_nat (length (to_arm st))) 0 0 NULL queue w = (r, st', w') \<and>
             h2_uring_submit_missing k st w = Some (status r, st', w') \<and> same w w' \<and> u_fds st' = u_fds queue)"
proof -
  obtain budget where k: "uring_kernel k same budget" using assms(1) by (auto simp: uring_ready_def)
  let ?n = "of_nat (length (to_arm st)) :: u32"
  obtain queue where 1: "h2_uring_submit_loop [0..<H2_URING_MAX_FDS] 0 st = Some (?n, queue)" "uring_ok queue" "sq_size queue n"
    and q: "requests_queued st (to_arm st) queue"
    using submit_loop_queues [OF assms(2,3), of "[0..<H2_URING_MAX_FDS]" 0] assms(4) by (auto simp: to_arm_def)
  have mask: "r_sq_ring_mask (u_rings queue) = r_sq_ring_mask (u_rings st)"
    using 1(3) assms(3) by (simp add: sq_size_def)
  have sub: "submission queue (r_sq_tail (u_rings st) + of_nat j) = poll_sqe st (to_arm st ! j)" if "j < length (to_arm st)" for j
    using q that by (simp add: requests_queued_def Let_def submission_def slot_of_def mask)
  have member: "fd \<in> set (to_arm st) \<longleftrightarrow> needs_poll st fd" if "fd < H2_URING_MAX_FDS" for fd
    using that by (simp add: to_arm_def)
  have fds: "u_fds queue ! fd = (if needs_poll st fd then (u_fds st ! fd)\<lparr>uf_active := True\<rparr> else u_fds st ! fd)"
    if "fd < H2_URING_MAX_FDS" for fd
    using q member [OF that] by (simp add: requests_queued_def Let_def)
  then have active: "uf_used (u_fds queue ! fd) \<longrightarrow> uf_active (u_fds queue ! fd)" if "fd < H2_URING_MAX_FDS" for fd
    using that by (simp add: needs_poll_def)
  have call: "if to_arm st = [] then h2_uring_submit_missing k st w = Some (0, queue, w)
      else \<exists>r st' w'. h2_uring_enter k ?n 0 0 NULL queue w = (r, st', w') \<and>
             h2_uring_submit_missing k st w = Some (status r, st', w') \<and> same w w' \<and> u_fds st' = u_fds queue"
  proof (cases "to_arm st = []")
    case True
    then show ?thesis using 1(1) by (simp add: h2_uring_submit_missing_def)
  next
    case False
    obtain r st' w' where e: "h2_uring_enter k ?n 0 0 NULL queue w = (r, st', w')" by (metis prod_cases3)
    have "length (to_arm st) \<le> 4096"
      using length_filter_le [of "needs_poll st" "[0..<H2_URING_MAX_FDS]"] by (simp add: to_arm_def H2_URING_MAX_FDS_def)
    then have "unat ?n = length (to_arm st)" by (simp add: unat_of_nat)
    then have "?n \<noteq> 0" using False by (metis length_0_conv unat_0)
    then show ?thesis
      using False 1(1) e st_keptD(1) [OF enter_kept(1) [OF k e]] enter_kept(2) [OF k e]
      by (simp add: h2_uring_submit_missing_def)
  qed
  show ?thesis
    using q sub fds active call by (intro exI [of _ queue]) (simp add: requests_queued_def Let_def)
qed

definition quiet_uring :: "nat uring_os" where
  "quiet_uring = \<lparr>ur_calloc = (\<lambda>w. (True, w)), ur_setup = (\<lambda>n w. (Failed EINVAL, w)), ur_mmap = (\<lambda>n fd off w. (Failed EINVAL, w)),
     ur_munmap = (\<lambda>a n w. w), ur_rings = (\<lambda>fd w. sample_rings),
     ur_enter = (\<lambda>fd n m fl a r w. if m = 0 then (Done (unat n), r, w)
        else if w = 0 then (Failed ETIME, r, w) else (Failed EINTR, r, w - 1)),
     ur_post = (\<lambda>r w. (r, w)), ur_close = (\<lambda>fd w. w), ur_ext_arg = True, ur_timeout_addr = 0\<rparr>"

lemma quiet_ready: "uring_ready quiet_uring (\<lambda>w w'. True)"
  unfolding uring_ready_def
  by (rule exI [of _ id])
     (auto simp: uring_kernel_def quiet_uring_def frame_relation_def reflp_def transp_def rings_kept_def split: if_splits)

lemma filter_one: "i < n \<Longrightarrow> filter (\<lambda>x. x = i) [0..<n] = [i]"
  by (induction n) (auto simp: less_Suc_eq)

theorem submit_arms_every_descriptor_witness:
  "\<exists>r st' w' queue. h2_uring_submit_missing quiet_uring
      (sample_state\<lparr>u_fds := (u_fds sample_state)[5 := zero_fd_state\<lparr>uf_used := True, uf_events := POLLIN\<rparr>]\<rparr>) 0 = Some (status r, st', w') \<and>
     h2_uring_enter quiet_uring 1 0 0 NULL queue 0 = (r, st', w') \<and> r_sq_tail (u_rings queue) = 1 \<and>
     submission queue 0 = \<lparr>sqe_opcode = IORING_OP_POLL_ADD, sqe_fd = 5, sqe_addr = 0, sqe_len = 0, sqe_poll_events = 1,
        sqe_user_data = h2_uring_poll_user_data 5 0\<rparr> \<and> uf_active (u_fds st' ! 5)"
proof -
  let ?st = "sample_state\<lparr>u_fds := (u_fds sample_state)[5 := zero_fd_state\<lparr>uf_used := True, uf_events := POLLIN\<rparr>]\<rparr>"
  have 1: "uring_ok ?st" using sample_ok by (simp add: uring_ok_fds)
  have five: "needs_poll ?st fd \<longleftrightarrow> fd = 5" if "fd < H2_URING_MAX_FDS" for fd
    using that by (cases "fd = 5") (auto simp: needs_poll_def sample_state_def zero_uring_state_def zero_fd_state_def H2_URING_MAX_FDS_def)
  have "to_arm ?st = filter (\<lambda>fd. fd = 5) [0..<H2_URING_MAX_FDS]"
    unfolding to_arm_def by (rule filter_cong [OF refl]) (rule five, simp)
  then have arm: "to_arm ?st = [5]" by (simp add: filter_one H2_URING_MAX_FDS_def)
  have 2: "sq_size ?st 0" "r_sq_tail (u_rings ?st) = 0" "sq_room ?st = 1"
    by (simp_all add: sq_size_def sq_room_def sample_state_def sample_rings_def zero_uring_state_def zero_rings_def)
  have 3: "length (to_arm ?st) \<le> sq_room ?st" unfolding arm 2(3) by simp
  have sqe: "poll_sqe ?st 5 = \<lparr>sqe_opcode = IORING_OP_POLL_ADD, sqe_fd = 5, sqe_addr = 0, sqe_len = 0, sqe_poll_events = 1,
        sqe_user_data = h2_uring_poll_user_data 5 0\<rparr>" "uf_used (u_fds ?st ! 5)"
    by (simp_all add: poll_sqe_def sample_state_def zero_uring_state_def zero_fd_state_def H2_URING_MAX_FDS_def POLLIN_def)
  obtain queue where q: "r_sq_tail (u_rings queue) = 1" "submission queue 0 = poll_sqe ?st 5" "uf_active (u_fds queue ! 5)"
    and "\<exists>r st' w'. h2_uring_enter quiet_uring 1 0 0 NULL queue 0 = (r, st', w') \<and>
             h2_uring_submit_missing quiet_uring ?st 0 = Some (status r, st', w') \<and> u_fds st' = u_fds queue"
    using submit_arms_every_descriptor [OF quiet_ready 1 2(1) 3, of 0] five [of 5] unfolding arm 2(2)
    by (force simp: H2_URING_MAX_FDS_def)
  then show ?thesis unfolding sqe(1) by (metis (no_types))
qed

subsection \<open>Saved completions\<close>

lemma submit_loop_idle:
  "uring_ok st \<Longrightarrow> \<forall>fd \<in> set fds. fd < H2_URING_MAX_FDS \<and> \<not> needs_poll st fd \<Longrightarrow>
     h2_uring_submit_loop fds submitted st = Some (submitted, st)"
  by (induction fds) (auto simp: uring_ok_def needs_poll_def rd_in)

text \<open>C39: a completion saved while another descriptor was removed is held back: with an empty completion
  queue \<open>h2_io_wait\<close> first blocks in the kernel, and if that is interrupted returns no event at all,
  although the saved completion alone yields an event for its descriptor.\<close>

theorem saved_completion_waits:
  assumes "uio_state io = Ptr st" "uring_ok st" "\<forall>fd < H2_URING_MAX_FDS. \<not> needs_poll st fd" "0 < cap"
    and "u_pending_cqes st = [c]" "0 \<le> fd" "fd < int H2_URING_MAX_FDS" "uf_used (u_fds st ! nat fd)"
    and "sv_user_data c = h2_uring_poll_user_data fd g" "uf_generation (u_fds st ! nat fd) = g AND H2_URING_GENERATION_MASK"
    and "r_cq_head (u_rings st) = r_cq_tail (u_rings st)" "ur_post k (u_rings st) w = (u_rings st, w)"
    and "ur_enter k (u_ring_fd st) 0 1 IORING_ENTER_GETEVENTS NULL (u_rings st) w = (Failed EINTR, u_rings st, w')"
  shows "uring_io_wait k io cap (- 1) w = Some (0, [], io, w') \<and>
    (\<exists>st'. h2_uring_finish_saved_cqes st cap [] = Some (st', [uring_event fd (sv_res c)]))"
proof -
  have "nat fd < length (u_fds st)" "fd \<le> INT32_MAX"
    using assms by (auto simp: uring_ok_def H2_URING_MAX_FDS_def c_limits)
  then have "\<exists>st'. h2_uring_finish_saved_cqes st cap [] = Some (st', [uring_event fd (sv_res c)])"
    using assms by (auto simp: h2_uring_finish_saved_cqes_def h2_uring_finish_cqe_def user_data_kind user_data_fd
        user_data_generation rd_in append_within_in Let_def)
  moreover have "h2_uring_submit_missing k st w = Some (0, st, w)"
    using submit_loop_idle [OF assms(2), of "[0..<H2_URING_MAX_FDS]" 0] assms(3) by (simp add: h2_uring_submit_missing_def)
  ultimately show ?thesis
    using assms by (simp add: uring_io_wait_def uring_wait_state_def load_cq_tail_def h2_uring_wait_for_event_def h2_uring_enter_def)
qed

definition saved_state :: h2_uring_state where
  "saved_state = sample_state\<lparr>u_fds := (u_fds sample_state)[5 := zero_fd_state\<lparr>uf_used := True, uf_active := True\<rparr>],
     u_pending_cqes := [\<lparr>sv_user_data = h2_uring_poll_user_data 5 0, sv_res = 1, sv_flags = 0\<rparr>]\<rparr>"

theorem saved_completion_waits_witness:
  "uring_io_wait quiet_uring \<lparr>uio_fd = 0, uio_state = Ptr saved_state\<rparr> 64 (- 1) 1 =
      Some (0, [], \<lparr>uio_fd = 0, uio_state = Ptr saved_state\<rparr>, 0) \<and>
   (\<exists>st'. h2_uring_finish_saved_cqes saved_state 64 [] = Some (st', [uring_event 5 1]))"
proof -
  have 1: "uring_ok saved_state" using sample_ok by (simp add: saved_state_def uring_ok_def H2_URING_SAVED_CQES_def)
  have "\<not> needs_poll saved_state fd" if "fd < H2_URING_MAX_FDS" for fd
    using that by (cases "fd = 5")
      (auto simp: needs_poll_def saved_state_def sample_state_def zero_uring_state_def zero_fd_state_def H2_URING_MAX_FDS_def)
  then have 2: "\<forall>fd < H2_URING_MAX_FDS. \<not> needs_poll saved_state fd" by blast
  show ?thesis
    using saved_completion_waits [OF _ 1 2, of "\<lparr>uio_fd = 0, uio_state = Ptr saved_state\<rparr>" 64
        "\<lparr>sv_user_data = h2_uring_poll_user_data 5 0, sv_res = 1, sv_flags = 0\<rparr>" 5 0 quiet_uring 1 0]
    by (simp add: quiet_uring_def saved_state_def sample_state_def sample_rings_def zero_uring_state_def zero_rings_def
        zero_fd_state_def H2_URING_MAX_FDS_def IORING_ENTER_GETEVENTS_def)
qed

text \<open>C40: when the array of saved completions has one free place and two completions other than the
  awaited cancellation are in the ring, the removal fails with the first one saved and the head of the
  ring not moved: the completion is now in both places.\<close>

theorem full_save_keeps_completion:
  assumes "uring_ok st" "0 \<le> fd" "fd < int H2_URING_MAX_FDS" "length (u_pending_cqes st) = H2_URING_SAVED_CQES - 1"
    and "r_cq_tail (u_rings st) = r_cq_head (u_rings st) + 2" "\<And>w. ur_post k (u_rings st) w = (u_rings st, w)"
    and "c = r_cqes (u_rings st) ! unat (r_cq_head (u_rings st) AND r_cq_ring_mask (u_rings st))"
    and "\<forall>d \<in> set (r_cqes (u_rings st)). cqe_user_data d \<noteq> h2_uring_cancel_user_data fd (uf_generation (u_fds st ! nat fd))"
  shows "h2_uring_drain_until_cancel k fd st w = Some (- 1, st\<lparr>u_pending_cqes := u_pending_cqes st @
     [\<lparr>sv_user_data = cqe_user_data c, sv_res = cqe_res c, sv_flags = cqe_flags c\<rparr>]\<rparr>, w)"
proof -
  let ?h = "r_cq_head (u_rings st)" and ?r = "u_rings st"
  let ?st = "st\<lparr>u_pending_cqes := u_pending_cqes st @ [\<lparr>sv_user_data = cqe_user_data c, sv_res = cqe_res c, sv_flags = cqe_flags c\<rparr>]\<rparr>"
  have idx: "unat (x AND r_cq_ring_mask ?r) < length (r_cqes ?r)" for x
    using assms(1) by (simp add: uring_ok_def rings_ok_def unat_and_less)
  then have no: "cqe_user_data (r_cqes ?r ! unat (x AND r_cq_ring_mask ?r)) \<noteq>
      h2_uring_cancel_user_data fd (uf_generation (u_fds st ! nat fd))" for x
    using assms(8) nth_mem by blast
  have f: "rd (u_fds st) (nat fd) = Some (u_fds st ! nat fd)" using assms by (auto simp: uring_ok_def intro: rd_in)
  have len: "length (u_pending_cqes st) = 255" using assms(4) by (simp add: H2_URING_SAVED_CQES_def)
  have second: "h2_uring_drain_loop fd (?h + 1) (?h + 2) ?st = Some (Inl (- 1, ?st))"
    using idx [of "?h + 1"] no [of "?h + 1"] f len
    by (subst h2_uring_drain_loop.simps) (simp add: rd_in h2_uring_save_cqe_def H2_URING_SAVED_CQES_def)
  have "h2_uring_drain_loop fd ?h (?h + 2) st = Some (Inl (- 1, ?st))"
    using idx [of ?h] no [of ?h] f len second assms(7)
    by (subst h2_uring_drain_loop.simps) (simp add: rd_in h2_uring_save_cqe_def H2_URING_SAVED_CQES_def append_within_in)
  then have "h2_uring_drain_step k fd st w = Some (Inl (- 1, ?st, w))"
    using assms(5,6) by (simp add: h2_uring_drain_step_def load_cq_tail_def)
  then show ?thesis by (subst h2_uring_drain_until_cancel.simps) simp
qed

definition crowded_state :: h2_uring_state where
  "crowded_state = sample_state\<lparr>u_pending_cqes := replicate 255 \<lparr>sv_user_data = 0, sv_res = 0, sv_flags = 0\<rparr>,
     u_rings := sample_rings\<lparr>r_cq_tail := 2\<rparr>\<rparr>"

theorem full_save_keeps_completion_witness:
  "h2_uring_drain_until_cancel quiet_uring 5 crowded_state 0 = Some (- 1, crowded_state\<lparr>u_pending_cqes :=
     replicate 256 \<lparr>sv_user_data = 0, sv_res = 0, sv_flags = 0\<rparr>\<rparr>, 0)"
proof -
  let ?c = "\<lparr>cqe_user_data = 0, cqe_res = 0, cqe_flags = 0\<rparr>" and ?s = "\<lparr>sv_user_data = 0, sv_res = 0, sv_flags = 0\<rparr>"
  have ok: "uring_ok crowded_state"
    using sample_ok by (simp add: crowded_state_def uring_ok_def rings_ok_def H2_URING_SAVED_CQES_def sample_state_def)
  have "bit (h2_uring_cancel_user_data 5 0) 63"
    unfolding h2_uring_cancel_user_data_def bit_or_iff flag_bits by simp
  then have no: "h2_uring_cancel_user_data 5 0 \<noteq> 0" by auto
  have all: "\<forall>d \<in> set (r_cqes (u_rings crowded_state)). cqe_user_data d \<noteq>
      h2_uring_cancel_user_data 5 (uf_generation (u_fds crowded_state ! nat 5))"
    using no by (simp add: crowded_state_def sample_state_def sample_rings_def zero_uring_state_def zero_fd_state_def H2_URING_MAX_FDS_def)
  have rings: "r_cqes (u_rings crowded_state) = [?c]" "r_cq_ring_mask (u_rings crowded_state) = 0"
    "r_cq_head (u_rings crowded_state) = 0" "r_cq_tail (u_rings crowded_state) = 2"
    "u_pending_cqes crowded_state = replicate 255 ?s"
    by (simp_all add: crowded_state_def sample_rings_def zero_rings_def)
  have "h2_uring_drain_until_cancel quiet_uring 5 crowded_state 0 =
      Some (- 1, crowded_state\<lparr>u_pending_cqes := u_pending_cqes crowded_state @ [?s]\<rparr>, 0)"
    using full_save_keeps_completion [OF ok, of 5 quiet_uring ?c 0] all
    by (simp add: rings H2_URING_MAX_FDS_def H2_URING_SAVED_CQES_def quiet_uring_def)
  then show ?thesis by (simp only: rings replicate_app_Cons_same append_Nil2) (simp flip: replicate_Suc add: replicate_append_same)
qed

end
