(* ===== verification/Server_Props.thy ===== *)
theory Server_Props
  imports Server_Safety Connection_Protocol Io_Epoll Io_Kqueue Uring_Props
begin

section \<open>Properties of the server\<close>

text \<open>
  The invariant of the server with each of the three backends, the order of the bytes it writes, and
  two ways in which it does not recover from an error. The witnesses run it on a small system:
  \<open>sample_os\<close> has the list of the open descriptors and the number of connections waiting to be
  accepted as its state, and \<open>sample_epoll\<close> reports the listener as readable.
\<close>

subsection \<open>A small system\<close>

definition fresh_fd :: "int list \<Rightarrow> int" where
  "fresh_fd fds = 1 + foldr max fds 0"

lemma foldr_max_ge: "x \<in> set fds \<Longrightarrow> x \<le> foldr max fds (0 :: int)"
  by (induction fds) auto

lemma fresh_fd: "fresh_fd fds \<notin> set fds"
  using foldr_max_ge [of "fresh_fd fds" fds] by (auto simp: fresh_fd_def)

definition sample_os :: "(int list \<times> nat) h2_os" where
  "sample_os = \<lparr>os_nonblock = 2048, os_calloc = (\<lambda>w. (True, w)), os_socket = (\<lambda>w. (Failed EMFILE, w)),
     os_setsockopt = (\<lambda>fd w. (Done (), w)), os_getfl = (\<lambda>fd w. (Done 2, w)), os_setfl = (\<lambda>fd fl w. (Done (), w)),
     os_inet_pton = (\<lambda>h. Some 0), os_bind = (\<lambda>fd ip port w. (Done (), w)), os_listen = (\<lambda>fd n w. (Done (), w)),
     os_getsockname = (\<lambda>fd w. (Done 8080, w)),
     os_accept = (\<lambda>fd w. if snd w = 0 then (Failed EAGAIN, w)
        else (Done (fresh_fd (fst w)), (fresh_fd (fst w) # fst w, snd w - 1))),
     os_read = (\<lambda>fd n w. (Failed EAGAIN, w)), os_write = (\<lambda>fd bs w. (Done (length bs), w)),
     os_close = (\<lambda>fd w. (removeAll fd (fst w), snd w)), os_fopen = (\<lambda>p w. (None, w)), os_fprintf = (\<lambda>f p w. w),
     os_fclose = (\<lambda>f w. (True, w))\<rparr>"

definition sample_opened :: "int list \<times> nat \<Rightarrow> int set" where
  "sample_opened w = set (fst w)"

lemma sample_kernel: "kernel_ok sample_os sample_opened snd"
  by (auto simp: kernel_ok_def sample_os_def sample_opened_def same_resources_def fresh_fd split: if_splits)

definition sample_epoll :: "'w epoll_os" where
  "sample_epoll = \<lparr>ep_create = (\<lambda>w. (Done 4, w)), ep_ctl = (\<lambda>fd op x e w. (Done (), w)),
     ep_wait = (\<lambda>fd n t w. (Done (take n [(EPOLLIN, 3)]), w)), ep_close = (\<lambda>fd w. w)\<rparr>"

lemma sample_epoll_ready: "frame_relation same \<Longrightarrow> epoll_ready sample_epoll same"
  by (auto simp: epoll_ready_def sample_epoll_def frame_refl)

definition sample_kqueue :: "'w kqueue_os" where
  "sample_kqueue = \<lparr>kq_create = (\<lambda>w. (Done 4, w)), kq_change = (\<lambda>fd e w. (Done (), w)),
     kq_wait = (\<lambda>fd n t w. (Done (take n [\<lparr>ke_ident = 3, ke_filter = EVFILT_READ, ke_flags = 0\<rparr>]), w)),
     kq_close = (\<lambda>fd w. w)\<rparr>"

lemma sample_kqueue_ready: "frame_relation same \<Longrightarrow> kqueue_ready sample_kqueue same"
  by (auto simp: kqueue_ready_def sample_kqueue_def frame_refl)

definition still_uring :: "'w uring_os" where
  "still_uring = \<lparr>ur_calloc = (\<lambda>w. (True, w)), ur_setup = (\<lambda>n w. (Failed EINVAL, w)), ur_mmap = (\<lambda>n fd off w. (Failed EINVAL, w)),
     ur_munmap = (\<lambda>a n w. w), ur_rings = (\<lambda>fd w. sample_rings),
     ur_enter = (\<lambda>fd n m fl a r w. if m = 0 then (Done (unat n), r, w) else (Failed ETIME, r, w)),
     ur_post = (\<lambda>r w. (r, w)), ur_close = (\<lambda>fd w. w), ur_ext_arg = True, ur_timeout_addr = 0\<rparr>"

lemma still_ready: "frame_relation same \<Longrightarrow> uring_ready still_uring same"
  unfolding uring_ready_def
  by (rule exI [of _ "\<lambda>w. 0"])
     (auto simp: uring_kernel_def still_uring_def rings_kept_def frame_refl split: if_splits)

definition sample_config :: h2_server_config where
  "sample_config = \<lparr>cfg_host = Ptr (lit ''127.0.0.1''), cfg_port = 8080, cfg_ready_file = NULL, cfg_max_connections = 0\<rparr>"

subsection \<open>The invariant of the event loop\<close>

interpretation epoll_server: event_server epoll_ops epoll_ready "\<lambda>i. True"
  by unfold_locales

interpretation kqueue_server: event_server kqueue_ops kqueue_ready "\<lambda>i. True"
  by unfold_locales

interpretation uring_server: event_server uring_ops uring_ready uring_io_ok
  by unfold_locales

text \<open>C1: with epoll, in every state that the event loop reaches from its start, the next iteration is
  defined and returns, and leads to a state where every used slot of the client table has a
  well-formed connection, no descriptor is in two slots, and the open descriptors are exactly those of
  the used slots and those the server was started with. So no peer, in whatever order its bytes,
  connections and errors come, makes the server leave its memory, hang in a loop or leak a
  descriptor.\<close>

theorem server_safe_with_epoll:
  assumes "kernel_ok os opened budget" "epoll_ready k (same_resources opened budget)"
    and "server_reaches os (epoll_ops k) config l (server_start i w) sv"
  shows "\<exists>sv'. (h2_server_step os (epoll_ops k) config l sv = Some (Inl sv') \<or>
       h2_server_step os (epoll_ops k) config l sv = Some (Inr sv')) \<and> server_ok opened (\<lambda>i. True) (opened w) sv'"
  by (rule epoll_server.reachable_progress [OF assms(1,2) TrueI assms(3)])

theorem server_safe_with_epoll_witness:
  "\<exists>sv'. (h2_server_step sample_os (epoll_ops sample_epoll) sample_config 3 (server_start \<lparr>epio_fd = 4\<rparr> ([3, 4], 2)) = Some (Inl sv') \<or>
      h2_server_step sample_os (epoll_ops sample_epoll) sample_config 3 (server_start \<lparr>epio_fd = 4\<rparr> ([3, 4], 2)) = Some (Inr sv')) \<and>
     server_ok sample_opened (\<lambda>i. True) {3, 4} sv'"
  using server_safe_with_epoll [OF sample_kernel sample_epoll_ready [OF same_frame] server_reaches.start,
      of sample_config 3 "\<lparr>epio_fd = 4\<rparr>" "([3, 4], 2)"]
  by (simp add: sample_opened_def)

text \<open>C30: with kqueue, in every state that the event loop reaches from its start, the next iteration is
  defined and returns, and leads to a state that satisfies the invariant of the server.\<close>

theorem server_safe_with_kqueue:
  assumes "kernel_ok os opened budget" "kqueue_ready k (same_resources opened budget)"
    and "server_reaches os (kqueue_ops k) config l (server_start i w) sv"
  shows "\<exists>sv'. (h2_server_step os (kqueue_ops k) config l sv = Some (Inl sv') \<or>
       h2_server_step os (kqueue_ops k) config l sv = Some (Inr sv')) \<and> server_ok opened (\<lambda>i. True) (opened w) sv'"
  by (rule kqueue_server.reachable_progress [OF assms(1,2) TrueI assms(3)])

theorem server_safe_with_kqueue_witness:
  "\<exists>sv'. (h2_server_step sample_os (kqueue_ops sample_kqueue) sample_config 3 (server_start \<lparr>kqio_fd = 4\<rparr> ([3, 4], 2)) = Some (Inl sv') \<or>
      h2_server_step sample_os (kqueue_ops sample_kqueue) sample_config 3 (server_start \<lparr>kqio_fd = 4\<rparr> ([3, 4], 2)) = Some (Inr sv')) \<and>
     server_ok sample_opened (\<lambda>i. True) {3, 4} sv'"
  using server_safe_with_kqueue [OF sample_kernel sample_kqueue_ready [OF same_frame] server_reaches.start,
      of sample_config 3 "\<lparr>kqio_fd = 4\<rparr>" "([3, 4], 2)"]
  by (simp add: sample_opened_def)

text \<open>C29: with io_uring, in every state that the event loop reaches from its start, the next iteration
  is defined and returns, and leads to a state that satisfies the invariants of the server and of the
  backend: in particular the loops of \<open>h2_io_wait\<close> and \<open>h2_uring_drain_until_cancel\<close> end, and no
  index leaves the rings, the table of 4096 descriptors or the 256 saved completions.\<close>

theorem server_safe_with_uring:
  assumes "kernel_ok os opened budget" "uring_ready k (same_resources opened budget)" "uring_io_ok i"
    and "server_reaches os (uring_ops k) config l (server_start i w) sv"
  shows "\<exists>sv'. (h2_server_step os (uring_ops k) config l sv = Some (Inl sv') \<or>
       h2_server_step os (uring_ops k) config l sv = Some (Inr sv')) \<and> server_ok opened uring_io_ok (opened w) sv'"
  by (rule uring_server.reachable_progress [OF assms])

theorem server_safe_with_uring_witness:
  "\<exists>sv'. (h2_server_step sample_os (uring_ops still_uring) sample_config 3
        (server_start \<lparr>uio_fd = 4, uio_state = Ptr sample_state\<rparr> ([3, 4], 2)) = Some (Inl sv') \<or>
      h2_server_step sample_os (uring_ops still_uring) sample_config 3
        (server_start \<lparr>uio_fd = 4, uio_state = Ptr sample_state\<rparr> ([3, 4], 2)) = Some (Inr sv')) \<and>
     server_ok sample_opened uring_io_ok {3, 4} sv'"
proof -
  have "uring_io_ok \<lparr>uio_fd = 4, uio_state = Ptr sample_state\<rparr>" using sample_ok by (simp add: uring_io_ok_def)
  from server_safe_with_uring [OF sample_kernel still_ready [OF same_frame] this server_reaches.start,
      of sample_config 3 "([3, 4], 2)"]
  show ?thesis by (simp add: sample_opened_def)
qed

subsection \<open>The bytes on the wire\<close>

text \<open>What \<open>write\<close> promises of the bytes \<open>out\<close> that have gone to a descriptor: a prefix of the buffer
  follows them.\<close>

definition writes_prefix :: "'w h2_os \<Rightarrow> int \<Rightarrow> ('w \<Rightarrow> byte list) \<Rightarrow> bool" where
  "writes_prefix os fd out \<longleftrightarrow>
     (\<forall>bs w r w'. os_write os fd bs w = (r, w') \<longrightarrow>
        (case r of Failed e \<Rightarrow> out w' = out w | Done n \<Rightarrow> n \<le> length bs \<and> out w' = out w @ take n bs))"

lemma flush_moves_bytes:
  assumes os: "writes_prefix os (cl_fd c) out"
  shows "conn_ok (cl_conn c) \<Longrightarrow> \<exists>r c' w'. h2_flush_client os c w = Some (r, c', w') \<and> conn_ok (cl_conn c') \<and>
     out w' @ pending (cl_conn c') = out w @ pending (cl_conn c)"
  using os
proof (induction "length (pending (cl_conn c))" arbitrary: c w rule: less_induct)
  case less
  note c = less.prems(1)
  have q: "queue_ok (cl_conn c)" using conn_okD(1) [OF c] .
  show ?case
  proof (cases "pending (cl_conn c) = []")
    case True
    then show ?thesis using c q by (subst h2_flush_client.simps) (simp add: wants_write_pending)
  next
    case False
    obtain r w1 where 1: "os_write os (cl_fd c) (pending (cl_conn c)) w = (r, w1)" by fastforce
    have w1: "case r of Failed e \<Rightarrow> out w1 = out w
        | Done n \<Rightarrow> n \<le> length (pending (cl_conn c)) \<and> out w1 = out w @ take n (pending (cl_conn c))"
      using less.prems(2) 1 unfolding writes_prefix_def by blast
    note out = output_pending [OF q False]
    show ?thesis
    proof (cases "\<exists>n. r = Done n \<and> n > 0")
      case True
      then obtain n where n: "r = Done n" "n > 0" by blast
      obtain c' where c': "h2_connection_consume_output (Ptr (cl_conn c)) n = Ptr c'" "conn_ok c'"
        using consume_keeps [OF c, of n] by auto
      then have p: "pending c' = drop n (pending (cl_conn c))"
        using consume_eq [OF q, of n] by (auto simp: pending_def)
      then have "length (pending c') < length (pending (cl_conn c))" using n False by simp
      then obtain r2 c2 w2 where "h2_flush_client os (c\<lparr>cl_conn := c'\<rparr>) w1 = Some (r2, c2, w2)" "conn_ok (cl_conn c2)"
        "out w2 @ pending (cl_conn c2) = out w1 @ pending c'"
        using less.hyps [of "c\<lparr>cl_conn := c'\<rparr>" w1] less.prems(2) c' by auto
      with False q n c' 1 out w1 p show ?thesis
        by (subst h2_flush_client.simps) (simp add: wants_write_pending rd_block_in)
    next
      case nd: False
      with False q c 1 out w1 show ?thesis
        by (cases r; subst h2_flush_client.simps) (auto simp: wants_write_pending rd_block_in)
    qed
  qed
qed

text \<open>C33: whatever the kernel accepts at each \<open>write\<close>, and with whatever error it stops,
  \<open>h2_flush_client\<close> returns, and the bytes that have gone to the socket followed by the bytes still
  pending are the same before and after: no byte is lost, repeated or reordered.\<close>

theorem flush_keeps_order:
  assumes "conn_ok (cl_conn c)" "writes_prefix os (cl_fd c) out"
  shows "\<exists>r c' w'. h2_flush_client os c w = Some (r, c', w') \<and>
     out w' @ pending (cl_conn c') = out w @ pending (cl_conn c)"
  using flush_moves_bytes [OF assms(2,1), of w] by blast

text \<open>A system whose state is the bytes written so far, at most three at a time.\<close>

definition slow_os :: "byte list h2_os" where
  "slow_os = \<lparr>os_nonblock = 2048, os_calloc = (\<lambda>w. (True, w)), os_socket = (\<lambda>w. (Failed EMFILE, w)),
     os_setsockopt = (\<lambda>fd w. (Done (), w)), os_getfl = (\<lambda>fd w. (Done 2, w)), os_setfl = (\<lambda>fd fl w. (Done (), w)),
     os_inet_pton = (\<lambda>h. Some 0), os_bind = (\<lambda>fd ip port w. (Done (), w)), os_listen = (\<lambda>fd n w. (Done (), w)),
     os_getsockname = (\<lambda>fd w. (Done 8080, w)), os_accept = (\<lambda>fd w. (Failed ECONNABORTED, w)),
     os_read = (\<lambda>fd n w. (Failed ECONNRESET, w)),
     os_write = (\<lambda>fd bs w. if length w \<ge> 6 then (Failed EPIPE, w) else (Done (min 3 (length bs)), w @ take 3 bs)),
     os_close = (\<lambda>fd w. w), os_fopen = (\<lambda>p w. (None, w)), os_fprintf = (\<lambda>f p w. w), os_fclose = (\<lambda>f w. (True, w))\<rparr>"

definition writing_client :: h2_client where
  "writing_client = \<lparr>cl_fd = 7, cl_used = True, cl_conn = fresh_connection\<lparr>c_output := [1, 2, 3, 4, 5, 6, 7, 8]\<rparr>\<rparr>"

lemma take_min: "take (min n (length xs)) xs = take n xs"
  by (simp add: min_def)

lemma writing_client_ok: "conn_ok (cl_conn writing_client)"
  using fresh_ok by (simp add: writing_client_def conn_ok_def queue_ok_def fresh_connection_def h2_connection_init_def
      zero_connection_def H2_CONN_OUTPUT_CAP_def)

theorem flush_keeps_order_witness:
  "\<exists>r c' w'. h2_flush_client slow_os writing_client [] = Some (r, c', w') \<and>
     w' @ pending (cl_conn c') = [1, 2, 3, 4, 5, 6, 7, 8]"
proof -
  have "writes_prefix slow_os (cl_fd writing_client) (\<lambda>w. w)"
    by (auto simp: writes_prefix_def slow_os_def take_min split: if_splits)
  from flush_keeps_order [OF writing_client_ok this, of "[]"] show ?thesis
    by (simp add: writing_client_def pending_def fresh_connection_def h2_connection_init_def zero_connection_def)
qed

subsection \<open>Errors the server does not recover from\<close>

text \<open>C36: a client whose socket is dead while output is pending is never closed. If reading fails with
  \<open>ECONNRESET\<close> and writing with \<open>EPIPE\<close>, every event of the client leaves the whole state of the
  server as it was: the slot stays in use and the descriptor stays open and registered.\<close>

theorem dead_client_kept:
  assumes "owner (sv_clients sv) pos = Some fd" "h2_find_client (sv_clients sv) fd = Ptr pos" "ev_fd event = fd" "fd \<noteq> l"
    and "queue_ok (cl_conn (sv_clients sv ! pos))" "pending (cl_conn (sv_clients sv ! pos)) \<noteq> []"
    and "\<And>n w. os_read os fd n w = (Failed ECONNRESET, w)" "\<And>bs. os_write os fd bs (sv_world sv) = (Failed EPIPE, sv_world sv)"
  shows "h2_server_event os io l event sv = Some sv"
proof -
  let ?c = "sv_clients sv ! pos"
  have c: "pos < length (sv_clients sv)" "cl_fd ?c = fd" using assms(1) by (auto simp: owner_eq)
  have wants: "h2_connection_wants_write (Ptr (cl_conn ?c))" using assms(5,6) by (simp add: wants_write_pending)
  have read: "h2_read_client os ?c (sv_world sv) = Some (- 1, ?c, sv_world sv)"
    using assms(7) c by (subst h2_read_client.simps) (simp add: h2_read_client_step_def)
  have flush: "h2_flush_client os ?c (sv_world sv) = Some (- 1, ?c, sv_world sv)"
    using assms(8) c wants output_pending [OF assms(5,6)] by (subst h2_flush_client.simps) (simp add: rd_block_in)
  show ?thesis
    using assms(2-4) c wants read flush
    by (simp add: h2_server_event_def h2_server_client_event_def rd_in Let_def)
qed

definition dead_server :: "(h2_epoll_io, byte list) h2_server" where
  "dead_server = (server_start \<lparr>epio_fd = 4\<rparr> (replicate 6 0))\<lparr>sv_clients := (replicate 128 zero_client)[0 := writing_client]\<rparr>"

theorem dead_client_kept_witness:
  "h2_server_event slow_os (epoll_ops sample_epoll) 3 \<lparr>ev_fd = 7, ev_readable = True, ev_writable = True, ev_closed = True\<rparr> dead_server = Some dead_server"
proof -
  have 1: "sv_clients dead_server ! 0 = writing_client" "length (sv_clients dead_server) = 128"
    "sv_world dead_server = replicate 6 0"
    by (simp_all add: dead_server_def server_start_def)
  have 2: "sv_clients dead_server = writing_client # replicate 127 zero_client"
    by (simp add: dead_server_def numeral_eq_Suc)
  have 3: "pending (cl_conn writing_client) = [1, 2, 3, 4, 5, 6, 7, 8]"
    by (simp add: pending_def writing_client_def fresh_connection_def h2_connection_init_def zero_connection_def)
  show ?thesis
    by (rule dead_client_kept [where pos = 0 and fd = 7])
       (use 1 3 conn_okD(1) [OF writing_client_ok] in
         \<open>simp_all add: owner_eq h2_find_client_def 2 slow_os_def\<close>, simp_all add: writing_client_def)
qed

text \<open>One incoming connection that its peer has already aborted ends the server: when \<open>accept\<close>
  fails with \<open>ECONNABORTED\<close>, the event loop is left with exit code -1.\<close>

theorem aborted_accept_stops_server:
  assumes "cfg_max_connections config = 0"
    and "io_wait io (sv_io sv) 64 (- 1) (sv_world sv) = Some (1, [event], i, w)"
    and "ev_fd event = l" "ev_readable event" "os_accept os l w = (Failed ECONNABORTED, w')"
  shows "h2_server_step os io config l sv = Some (Inl (sv\<lparr>sv_io := i, sv_world := w', sv_exit := - 1\<rparr>))"
proof -
  let ?sv = "sv\<lparr>sv_io := i, sv_world := w\<rparr>"
  have "h2_accept_clients os io l ?sv = Some (- 1, ?sv\<lparr>sv_world := w'\<rparr>)"
    using assms(5) by (subst h2_accept_clients.simps) (simp add: h2_accept_clients_step_def Let_def)
  then show ?thesis
    using assms by (simp add: h2_server_step_def h2_server_event_def rd_block_def Let_def)
qed

theorem aborted_accept_stops_server_witness:
  "h2_server_step slow_os (epoll_ops sample_epoll) sample_config 3 (server_start \<lparr>epio_fd = 4\<rparr> []) =
     Some (Inl ((server_start \<lparr>epio_fd = 4\<rparr> [])\<lparr>sv_exit := - 1\<rparr>))"
proof -
  have "h2_server_step slow_os (epoll_ops sample_epoll) sample_config 3 (server_start \<lparr>epio_fd = 4\<rparr> []) =
     Some (Inl ((server_start \<lparr>epio_fd = 4\<rparr> [])\<lparr>sv_io := \<lparr>epio_fd = 4\<rparr>, sv_world := [], sv_exit := - 1\<rparr>))"
    by (rule aborted_accept_stops_server [where w = "[]" and event = "epoll_event_of (EPOLLIN, 3)"])
       (simp_all add: sample_config_def server_start_def epoll_ops_def epoll_io_wait_def sample_epoll_def append_within_in
          epoll_event_of_def EPOLLIN_def slow_os_def)
  then show ?thesis by (simp add: server_start_def)
qed

end
