(* ===== verification/H2d_Main.thy ===== *)
theory H2d_Main
  imports Server
begin

section \<open>The command line\<close>

text \<open>
  \<open>src/main.c\<close>: the options of \<open>h2d\<close>. An argument is the list of its bytes without the terminator.
  \<open>strtoul\<close> is in \<open>C_Numbers\<close>. The usage message and \<open>perror\<close> are not modelled.
\<close>

subsection \<open>Numbers\<close>

definition h2_parse_u16 :: "byte list ptr \<Rightarrow> u16 \<Rightarrow> int \<times> u16" where
  "h2_parse_u16 text out =
     (case text of
        NULL \<Rightarrow> (- 1, out)
      | Ptr text \<Rightarrow>
          if text \<noteq> [] \<and> hd text = 45 then (- 1, out)
          else
            (case strtoul10 text of (v, rest, range_error) \<Rightarrow>
               if range_error \<or> length rest = length text \<or> rest \<noteq> [] \<or> v > 65535 then (- 1, out)
               else (0, of_nat v)))"

definition h2_parse_unsigned :: "byte list ptr \<Rightarrow> u32 \<Rightarrow> int \<times> u32" where
  "h2_parse_unsigned text out =
     (case text of
        NULL \<Rightarrow> (- 1, out)
      | Ptr text \<Rightarrow>
          if text \<noteq> [] \<and> hd text = 45 then (- 1, out)
          else
            (case strtoul10 text of (v, rest, range_error) \<Rightarrow>
               if range_error \<or> length rest = length text \<or> rest \<noteq> [] \<or> v > UINT32_MAX then (- 1, out)
               else (0, of_nat v)))"

subsection \<open>Options\<close>

text \<open>The loop over \<open>argv\<close>: \<open>Inl\<close> is an exit code, \<open>Inr\<close> the configuration to run with.\<close>

fun h2d_options :: "byte list list \<Rightarrow> h2_server_config \<Rightarrow> int + h2_server_config" where
  "h2d_options [] config = Inr config"
| "h2d_options [arg] config = (if arg = lit ''--help'' then Inl 0 else Inl 2)"
| "h2d_options (arg # param # args) config =
     (if arg = lit ''--host'' then h2d_options args (config\<lparr>cfg_host := Ptr param\<rparr>)
      else if arg = lit ''--port'' then
        (case h2_parse_u16 (Ptr param) (cfg_port config) of (ret, port) \<Rightarrow>
           if ret \<noteq> 0 then Inl 2 else h2d_options args (config\<lparr>cfg_port := port\<rparr>))
      else if arg = lit ''--ready-file'' then h2d_options args (config\<lparr>cfg_ready_file := Ptr param\<rparr>)
      else if arg = lit ''--max-connections'' then
        (case h2_parse_unsigned (Ptr param) (cfg_max_connections config) of (ret, n) \<Rightarrow>
           if ret \<noteq> 0 then Inl 2 else h2d_options args (config\<lparr>cfg_max_connections := n\<rparr>))
      else if arg = lit ''--help'' then Inl 0
      else Inl 2)"

definition h2d_default_config :: h2_server_config where
  "h2d_default_config = \<lparr>cfg_host = Ptr (lit ''127.0.0.1''), cfg_port = 8080, cfg_ready_file = NULL, cfg_max_connections = 0\<rparr>"

definition h2d_main :: "'w h2_os \<Rightarrow> ('i, 'w) h2_io_ops \<Rightarrow> byte list list \<Rightarrow> 'w \<Rightarrow> (int \<times> 'w) option" where
  "h2d_main os io argv w =
     (case h2d_options (drop 1 argv) h2d_default_config of
        Inl code \<Rightarrow> Some (code, w)
      | Inr config \<Rightarrow> do {
          (ret, w) \<leftarrow> h2_server_run os io (Ptr config) w;
          Some (if ret \<noteq> 0 then 1 else 0, w)
        })"

subsection \<open>The numbers accepted\<close>

lemma parse_u16_digits:
  assumes "ds \<noteq> []" "\<forall>c \<in> set ds. c_isdigit c"
  shows "h2_parse_u16 (Ptr ds) out =
    (if digits_value 0 ds \<le> 65535 then (0, of_nat (digits_value 0 ds)) else (- 1, out))"
proof -
  have "hd ds \<noteq> 45" using assms isdigit_plain by (cases ds) auto
  then show ?thesis using assms(1) strtoul_digits [OF assms] by (simp add: h2_parse_u16_def SIZE_MAX_def)
qed

text \<open>The texts \<open>strtoul\<close> reads to their end: white space, a sign, and at least one digit; and the value of
  such a text in \<open>unsigned long\<close>.\<close>

definition number_text :: "byte list \<Rightarrow> byte list \<Rightarrow> byte list \<Rightarrow> byte list \<Rightarrow> bool" where
  "number_text text spaces sign digits \<longleftrightarrow> text = spaces @ sign @ digits \<and> (\<forall>c \<in> set spaces. c_isspace c) \<and>
     sign \<in> {[], [43], [45]} \<and> digits \<noteq> [] \<and> (\<forall>c \<in> set digits. c_isdigit c)"

definition number_value :: "byte list \<Rightarrow> byte list \<Rightarrow> nat" where
  "number_value sign digits = (if sign = [45] then (2 ^ 64 - digits_value 0 digits) mod 2 ^ 64 else digits_value 0 digits)"

lemma sign_plain: "c \<in> {43, 45} \<Longrightarrow> \<not> c_isspace c \<and> \<not> c_isdigit c"
  by (auto simp: c_isspace_def c_isdigit_def)

lemma strtoul_number:
  assumes "number_text text spaces sign digits"
  shows "strtoul10 text =
    (if digits_value 0 digits > SIZE_MAX then (SIZE_MAX, [], True) else (number_value sign digits, [], False))"
proof -
  obtain d ds where d: "digits = d # ds" using assms by (cases digits) (auto simp: number_text_def)
  have plain: "\<not> c_isspace d" "d \<noteq> 45" "d \<noteq> 43" using assms d isdigit_plain by (auto simp: number_text_def)
  have run: "takeWhile c_isdigit digits = digits" "dropWhile c_isdigit digits = []"
    using assms by (auto simp: number_text_def takeWhile_eq_all_conv dropWhile_eq_Nil_conv)
  have "dropWhile c_isspace (sign @ digits) = sign @ digits"
    using assms d plain sign_plain by (auto simp: number_text_def)
  then have body: "dropWhile c_isspace text = sign @ digits"
    using assms by (simp add: number_text_def dropWhile_append2)
  have hd: "hd digits \<noteq> 45" "hd digits \<noteq> 43" "digits \<noteq> []" using d plain by simp_all
  consider "sign = []" | "sign = [43]" | "sign = [45]" using assms by (auto simp: number_text_def)
  then show ?thesis
    by cases (simp_all add: strtoul10_def Let_def number_value_def body run hd)
qed

lemma strtoul_end:
  assumes "strtoul10 text = (v, [], e)" "text \<noteq> []"
  shows "\<exists>spaces sign digits. number_text text spaces sign digits"
proof -
  let ?body = "dropWhile c_isspace text"
  define sign where "sign = (if ?body \<noteq> [] \<and> (hd ?body = 45 \<or> hd ?body = 43) then [hd ?body] else [])"
  define rest where "rest = (if sign = [] then ?body else tl ?body)"
  have body: "?body = sign @ rest" by (auto simp: sign_def rest_def)
  have r: "takeWhile c_isdigit rest \<noteq> []" "dropWhile c_isdigit rest = []"
    using assms unfolding strtoul10_def Let_def rest_def sign_def by (auto split: if_splits)
  then have "\<forall>c \<in> set rest. c_isdigit c" "rest \<noteq> []" by (auto simp: dropWhile_eq_Nil_conv)
  moreover have "text = takeWhile c_isspace text @ sign @ rest" using body by (metis takeWhile_dropWhile_id)
  ultimately have "number_text text (takeWhile c_isspace text) sign rest"
    unfolding number_text_def by (auto simp: sign_def dest: set_takeWhileD)
  then show ?thesis by blast
qed

text \<open>C35: exactly which texts the port option accepts, and as which number. A text is accepted when it is
  white space, an optional sign and at least one digit, nothing else, when the digits do not
  exceed \<open>ULONG_MAX\<close>, when its value, which a minus sign negates modulo \<open>2 ^ 64\<close>, is at most
  65535, and when the minus sign is not its first character; then the port is that value.
  Every other text is refused and the port left as it was. In particular the option reads back the
  decimal digits of every port number and refuses those of every larger number.\<close>

theorem port_text_accepted:
  "(\<forall>spaces sign digits. number_text text spaces sign digits \<longrightarrow>
      h2_parse_u16 (Ptr text) out =
        (if digits_value 0 digits \<le> SIZE_MAX \<and> number_value sign digits \<le> 65535 \<and> \<not> (spaces = [] \<and> sign = [45])
         then (0, of_nat (number_value sign digits)) else (- 1, out))) \<and>
   ((\<nexists>spaces sign digits. number_text text spaces sign digits) \<longrightarrow> h2_parse_u16 (Ptr text) out = (- 1, out)) \<and>
   h2_parse_u16 (Ptr (decimal n)) out = (if n \<le> 65535 then (0, of_nat n) else (- 1, out))"
proof (intro conjI allI impI)
  fix spaces sign digits
  assume t: "number_text text spaces sign digits"
  then have ne: "text \<noteq> []" by (auto simp: number_text_def)
  have "c_isdigit 45 = False" "c_isspace 45 = False" by (simp_all add: c_isdigit_def c_isspace_def)
  then have minus: "hd text = 45 \<longleftrightarrow> spaces = [] \<and> sign = [45]"
    using t by (cases spaces; cases digits) (auto simp: number_text_def)
  show "h2_parse_u16 (Ptr text) out =
        (if digits_value 0 digits \<le> SIZE_MAX \<and> number_value sign digits \<le> 65535 \<and> \<not> (spaces = [] \<and> sign = [45])
         then (0, of_nat (number_value sign digits)) else (- 1, out))"
    using ne minus strtoul_number [OF t] by (auto simp: h2_parse_u16_def)
next
  assume none: "\<nexists>spaces sign digits. number_text text spaces sign digits"
  obtain v rest e where s: "strtoul10 text = (v, rest, e)" by (metis prod_cases3)
  then have "rest \<noteq> [] \<or> text = []" using none strtoul_end by blast
  then show "h2_parse_u16 (Ptr text) out = (- 1, out)" using s by (auto simp: h2_parse_u16_def)
qed (use parse_u16_digits [of "decimal n" out] decimal_nonempty decimal_isdigit in \<open>simp add: decimal_value\<close>)

lemma port_text_accepted_witness:
  "h2_parse_u16 (Ptr (lit '' +80'')) 0 = (0, 80) \<and> h2_parse_u16 (Ptr (lit ''-80'')) 0 = (- 1, 0) \<and>
   h2_parse_u16 (Ptr (lit ''80x'')) 0 = (- 1, 0)"
proof -
  have "number_text (lit '' +80'') [32] [43] [56, 48]" "number_text (lit ''-80'') [] [45] [56, 48]"
    by (simp_all add: number_text_def lit_def c_isspace_def c_isdigit_def)
  moreover have "number_value [43] [56, 48] = 80" "digits_value 0 [56, 48] \<le> SIZE_MAX"
    by (simp_all add: number_value_def SIZE_MAX_def)
  moreover have "\<nexists>spaces sign digits. number_text (lit ''80x'') spaces sign digits"
  proof
    assume "\<exists>spaces sign digits. number_text (lit ''80x'') spaces sign digits"
    then obtain spaces sign digits where t: "number_text (lit ''80x'') spaces sign digits" by blast
    then have "last digits = last (lit ''80x'')" "digits \<noteq> []" by (auto simp: number_text_def)
    then have "c_isdigit (last (lit ''80x''))" using t by (metis last_in_set number_text_def)
    then show False by (simp add: lit_def c_isdigit_def)
  qed
  ultimately show ?thesis
    using port_text_accepted [of "lit '' +80''" 0] port_text_accepted [of "lit ''-80''" 0] port_text_accepted [of "lit ''80x''" 0]
    by auto
qed

text \<open>A negative number with a space before it is accepted: \<open>h2_parse_u16\<close> only looks for a minus
  sign in the first character, and \<open>strtoul\<close> skips white space and wraps the negated value, so that
  the text below, minus \<open>2 ^ 64 - 8\<close>, sets port 8 instead of being refused.\<close>

theorem negative_port_accepted:
  "h2_parse_u16 (Ptr (lit '' -18446744073709551608'')) out = (0, 8)"
  by (simp add: h2_parse_u16_def strtoul10_def lit_def c_isspace_def c_isdigit_def SIZE_MAX_def Let_def)

end
