(* ===== verification/Connection_Blind.thy ===== *)
theory Connection_Blind
  imports Connection_Protocol
begin

unbundle bit_operations_syntax

section \<open>No handler looks at the input array\<close>

text \<open>
  The input array and the preface flag belong to \<open>h2_connection_feed\<close>. Every function of
  \<open>src/connection.c\<close> that handles a frame commutes with an arbitrary change of both: it neither reads
  nor writes them. The collection \<open>blind\<close> holds these equations, one per function.
\<close>

definition on_conn :: "(h2_connection \<Rightarrow> h2_connection) \<Rightarrow> conn_result \<Rightarrow> conn_result" where
  "on_conn g r = map_option (\<lambda>(ret, c). (ret, g c)) r"

definition with_input :: "bool \<times> byte list \<Rightarrow> h2_connection \<Rightarrow> h2_connection" where
  "with_input x c = c\<lparr>c_preface_seen := fst x, c_input := snd x\<rparr>"

named_theorems blind \<open>operations that neither read nor write the input array\<close>

lemma with_input_fields [simp]:
  "c_preface_seen (with_input x c) = fst x" "c_settings_sent (with_input x c) = c_settings_sent c"
  "c_goaway_sent (with_input x c) = c_goaway_sent c" "c_goaway_error (with_input x c) = c_goaway_error c"
  "c_last_stream_id (with_input x c) = c_last_stream_id c" "c_max_frame_size (with_input x c) = c_max_frame_size c"
  "c_initial_stream_window (with_input x c) = c_initial_stream_window c"
  "c_conn_send_window (with_input x c) = c_conn_send_window c" "c_conn_recv_window (with_input x c) = c_conn_recv_window c"
  "c_responses_sent (with_input x c) = c_responses_sent c" "c_header_block_open (with_input x c) = c_header_block_open c"
  "c_header_block_stream_id (with_input x c) = c_header_block_stream_id c"
  "c_header_block_flags (with_input x c) = c_header_block_flags c" "c_header_block (with_input x c) = c_header_block c"
  "c_streams (with_input x c) = c_streams c" "c_output (with_input x c) = c_output c"
  "c_output_sent (with_input x c) = c_output_sent c" "c_input (with_input x c) = snd x"
  by (simp_all add: with_input_def)

lemma with_input_updates [simp]:
  "c_settings_sent_update f1 (with_input x c) = with_input x (c_settings_sent_update f1 c)"
  "c_goaway_sent_update f1 (with_input x c) = with_input x (c_goaway_sent_update f1 c)"
  "c_goaway_error_update f2 (with_input x c) = with_input x (c_goaway_error_update f2 c)"
  "c_last_stream_id_update f2 (with_input x c) = with_input x (c_last_stream_id_update f2 c)"
  "c_max_frame_size_update f2 (with_input x c) = with_input x (c_max_frame_size_update f2 c)"
  "c_initial_stream_window_update f3 (with_input x c) = with_input x (c_initial_stream_window_update f3 c)"
  "c_conn_send_window_update f3 (with_input x c) = with_input x (c_conn_send_window_update f3 c)"
  "c_conn_recv_window_update f3 (with_input x c) = with_input x (c_conn_recv_window_update f3 c)"
  "c_responses_sent_update f2 (with_input x c) = with_input x (c_responses_sent_update f2 c)"
  "c_header_block_open_update f1 (with_input x c) = with_input x (c_header_block_open_update f1 c)"
  "c_header_block_stream_id_update f2 (with_input x c) = with_input x (c_header_block_stream_id_update f2 c)"
  "c_header_block_flags_update f4 (with_input x c) = with_input x (c_header_block_flags_update f4 c)"
  "c_header_block_update f5 (with_input x c) = with_input x (c_header_block_update f5 c)"
  "c_streams_update f6 (with_input x c) = with_input x (c_streams_update f6 c)"
  "c_output_update f5 (with_input x c) = with_input x (c_output_update f5 c)"
  "c_output_sent_update f7 (with_input x c) = with_input x (c_output_sent_update f7 c)"
  by (simp_all add: with_input_def)

lemma on_conn_simps [simp]:
  "on_conn g (Some y) = Some (fst y, g (snd y))" "on_conn g None = None"
  by (simp_all add: on_conn_def split_beta)

lemma on_conn_bind: "on_conn g (Option.bind m f) = Option.bind m (\<lambda>y. on_conn g (f y))"
  by (cases m) simp_all

lemma bind_on_conn: "Option.bind (on_conn g m) f = Option.bind m (\<lambda>(ret, c). f (ret, g c))"
  by (cases m) (auto simp: on_conn_def)

lemma on_conn_if: "on_conn g (if b then x else y) = (if b then on_conn g x else on_conn g y)"
  by simp

lemma on_conn_case_prod: "on_conn g (case p of (a, b) \<Rightarrow> f a b) = (case p of (a, b) \<Rightarrow> on_conn g (f a b))"
  by (cases p) simp

lemma on_conn_case_ptr: "on_conn g (case p of NULL \<Rightarrow> a | Ptr i \<Rightarrow> f i) = (case p of NULL \<Rightarrow> on_conn g a | Ptr i \<Rightarrow> on_conn g (f i))"
  by (cases p) simp_all

lemmas deep = if_cong prod.case_cong ptr.case_cong Option.bind_cong

lemmas blind_simps = on_conn_bind bind_on_conn on_conn_if on_conn_case_prod on_conn_case_ptr

lemma compact_blind [blind]: "h2_connection_compact_output (with_input x c) = with_input x (h2_connection_compact_output c)"
  by (simp add: h2_connection_compact_output_def)

lemma queue_bytes_blind [blind]:
  "h2_connection_queue_bytes (with_input x c) d n = on_conn (with_input x) (h2_connection_queue_bytes c d n)"
  by (simp add: h2_connection_queue_bytes_def Let_def blind blind_simps cong: if_cong)

lemma queue_blind [blind]:
  "h2_connection_queue_goaway (with_input x c) e = on_conn (with_input x) (h2_connection_queue_goaway c e)"
  "h2_connection_queue_settings (with_input x c) = on_conn (with_input x) (h2_connection_queue_settings c)"
  "h2_connection_queue_settings_ack (with_input x c) = on_conn (with_input x) (h2_connection_queue_settings_ack c)"
  "h2_connection_queue_window_update (with_input x c) sid inc = on_conn (with_input x) (h2_connection_queue_window_update c sid inc)"
  "h2_connection_queue_rst_stream (with_input x c) sid e = on_conn (with_input x) (h2_connection_queue_rst_stream c sid e)"
  by (simp_all add: h2_connection_queue_goaway_def h2_connection_queue_settings_def h2_connection_queue_settings_ack_def
      h2_connection_queue_window_update_def h2_connection_queue_rst_stream_def Let_def blind blind_simps cong: deep)

lemma find_blind [blind]: "h2_connection_find_stream (with_input x c) sid = h2_connection_find_stream c sid"
  by (simp add: h2_connection_find_stream_def)

lemma get_blind [blind]:
  "h2_connection_get_stream (with_input x c) sid = (case h2_connection_get_stream c sid of (p, c) \<Rightarrow> (p, with_input x c))"
  by (simp add: h2_connection_get_stream_def blind split: ptr.splits)

lemma refresh_blind [blind]:
  "h2_connection_refresh_conn_window (with_input x c) = on_conn (with_input x) (h2_connection_refresh_conn_window c)"
  "h2_connection_refresh_stream_window (with_input x c) i = on_conn (with_input x) (h2_connection_refresh_stream_window c i)"
  by (simp_all add: h2_connection_refresh_conn_window_def h2_connection_refresh_stream_window_def Let_def blind blind_simps cong: deep)

lemma refresh_recv_blind [blind]:
  "h2_connection_refresh_recv_windows (with_input x c) s = on_conn (with_input x) (h2_connection_refresh_recv_windows c s)"
  by (simp add: h2_connection_refresh_recv_windows_def blind blind_simps cong: deep)

lemma setting_blind [blind]:
  "h2_connection_apply_setting (with_input x c) s = (case h2_connection_apply_setting c s of (ret, c) \<Rightarrow> (ret, with_input x c))"
  by (simp add: h2_connection_apply_setting_def Let_def split: prod.splits)

lemma settings_loop_blind [blind]:
  "h2_connection_apply_settings_loop (with_input x c) ss =
     (case h2_connection_apply_settings_loop c ss of (ret, c) \<Rightarrow> (ret, with_input x c))"
  by (induction ss arbitrary: c) (simp_all add: blind Let_def split: prod.splits)

lemma settings_blind [blind]:
  "h2_connection_apply_settings (with_input x c) h p = on_conn (with_input x) (h2_connection_apply_settings c h p)"
  by (simp add: h2_connection_apply_settings_def Let_def blind blind_simps prod.case_distrib [of "on_conn (with_input x)"]
      split_beta cong: deep)

lemma deferred_blind [blind]:
  "h2_connection_queue_deferred_data (with_input x c) i b n = on_conn (with_input x) (h2_connection_queue_deferred_data c i b n)"
  by (simp add: h2_connection_queue_deferred_data_def Let_def blind blind_simps cong: deep)

lemma response_headers_blind [blind]:
  "h2_connection_queue_response_headers (with_input x c) i l = on_conn (with_input x) (h2_connection_queue_response_headers c i l)"
  by (simp add: h2_connection_queue_response_headers_def Let_def blind blind_simps cong: deep)

lemma response_blind [blind]:
  "h2_connection_queue_response (with_input x c) i = on_conn (with_input x) (h2_connection_queue_response c i)"
  by (simp add: h2_connection_queue_response_def Let_def blind blind_simps cong: deep)

lemma flush_loop_blind [blind]:
  "h2_connection_flush_deferred_responses_loop (with_input x c) pos n =
     on_conn (with_input x) (h2_connection_flush_deferred_responses_loop c pos n)"
  by (induction n arbitrary: c pos) (simp_all add: blind blind_simps cong: deep)

lemma flush_blind [blind]:
  "h2_connection_flush_deferred_responses (with_input x c) = on_conn (with_input x) (h2_connection_flush_deferred_responses c)"
  by (simp add: h2_connection_flush_deferred_responses_def blind)

lemma finish_blind [blind]:
  "h2_connection_finish_headers (with_input x c) sid fl b n = on_conn (with_input x) (h2_connection_finish_headers c sid fl b n)"
  by (simp add: h2_connection_finish_headers_def Let_def blind blind_simps cong: deep split: prod.split ptr.split)

lemma append_blind [blind]:
  "h2_connection_append_header_block (with_input x c) d n = on_conn (with_input x) (h2_connection_append_header_block c d n)"
  by (simp add: h2_connection_append_header_block_def blind blind_simps cong: deep)

lemma headers_blind [blind]:
  "h2_connection_process_headers (with_input x c) h p = on_conn (with_input x) (h2_connection_process_headers c h p)"
  by (simp add: h2_connection_process_headers_def blind blind_simps cong: deep)

lemma continuation_blind [blind]:
  "h2_connection_process_continuation (with_input x c) h p = on_conn (with_input x) (h2_connection_process_continuation c h p)"
  by (simp add: h2_connection_process_continuation_def blind blind_simps cong: deep)

lemma data_blind [blind]:
  "h2_connection_process_data (with_input x c) h p = on_conn (with_input x) (h2_connection_process_data c h p)"
  by (simp add: h2_connection_process_data_def Let_def blind blind_simps cong: deep)

lemma window_update_blind [blind]:
  "h2_connection_process_window_update (with_input x c) h p = on_conn (with_input x) (h2_connection_process_window_update c h p)"
  by (simp add: h2_connection_process_window_update_def Let_def blind blind_simps cong: deep)

lemma reset_blind [blind]:
  "h2_connection_reset_stream_error (with_input x c) sid e = on_conn (with_input x) (h2_connection_reset_stream_error c sid e)"
  by (simp add: h2_connection_reset_stream_error_def Let_def blind blind_simps cong: deep)

lemma simple_blind [blind]:
  "h2_connection_process_priority (with_input x c) h p = on_conn (with_input x) (h2_connection_process_priority c h p)"
  "h2_connection_process_rst_stream (with_input x c) h p = on_conn (with_input x) (h2_connection_process_rst_stream c h p)"
  "h2_connection_process_ping (with_input x c) h p = on_conn (with_input x) (h2_connection_process_ping c h p)"
  by (simp_all add: h2_connection_process_priority_def h2_connection_process_rst_stream_def h2_connection_process_ping_def
      blind blind_simps cong: deep)

lemma frame_blind [blind]:
  "h2_connection_process_frame (with_input x c) h p = on_conn (with_input x) (h2_connection_process_frame c h p)"
  by (simp add: h2_connection_process_frame_def blind)

end
