(* ===== verification/Connection_Segments.thy ===== *)
theory Connection_Segments
  imports Connection_Blind
begin

section \<open>The segmentation of the input does not matter\<close>

text \<open>
  A handler reads only the bytes of its frame, so that whatever follows the payload in the input
  array has no influence. With the equations of \<open>Connection_Blind\<close> the feed loop processes the
  whole frames of the input one by one whether or not more bytes are already behind them, and two
  \<open>h2_connection_feed\<close> calls do what one call with all the bytes does.
\<close>

subsection \<open>A handler reads the bytes of its frame only\<close>

text \<open>\<open>q\<close> is whatever follows the payload \<open>p\<close> in the input array.\<close>

lemma rd_more: "i < length p \<Longrightarrow> rd (p @ q) i = rd p i"
  by (simp add: rd_def nth_append)

lemma rd_more_0: "Suc 0 \<le> length p \<Longrightarrow> rd (p @ q) 0 = rd p 0"
  using rd_more [of 0 p q] by (auto simp: Suc_le_eq)

lemma rd_block_more: "n \<le> length p \<Longrightarrow> rd_block (p @ q) n = rd_block p n"
  by (simp add: rd_block_def)

lemma read_more:
  "2 \<le> length p \<Longrightarrow> h2_read_u16 (p @ q) = h2_read_u16 p"
  "4 \<le> length p \<Longrightarrow> h2_read_u31 (p @ q) = h2_read_u31 p"
  "4 \<le> length p \<Longrightarrow> h2_read_u32 (p @ q) = h2_read_u32 p"
  by (simp_all add: h2_read_u16_def h2_read_u31_def h2_read_u32_def rd_more rd_more_0)

lemma parse_data_more:
  assumes "unat (fh_length h) \<le> length p"
  shows "map_option fst (h2_frame_parse_data (Ptr h) (Ptr (p @ q)) out) = map_option fst (h2_frame_parse_data (Ptr h) (Ptr p) out)"
  using assms by (auto simp: h2_frame_parse_data_def Let_def rd_def nth_append split: ptr.split)

lemma parse_priority_more: "5 \<le> length p \<Longrightarrow> h2_frame_parse_priority h (Ptr (p @ q)) out = h2_frame_parse_priority h (Ptr p) out"
  by (simp add: h2_frame_parse_priority_def Let_def rd_more rd_more_0 read_more cong: deep)

lemma parse_priority_frame_more:
  assumes "unat (fh_length h) \<le> length p"
  shows "h2_frame_parse_priority (Ptr h) (Ptr (p @ q)) out = h2_frame_parse_priority (Ptr h) (Ptr p) out"
proof (cases "fh_type h = H2_FRAME_PRIORITY \<and> h2_frame_validate_payload (Ptr h) = H2_OK")
  case True
  then have "5 \<le> length p" using assms validate_len(1) [of h] by simp
  then show ?thesis by (rule parse_priority_more)
qed (auto simp: h2_frame_parse_priority_def split: ptr.split)

lemma parse_fixed_more:
  assumes "unat (fh_length h) \<le> length p"
  shows "h2_frame_parse_window_update (Ptr h) (Ptr (p @ q)) out = h2_frame_parse_window_update (Ptr h) (Ptr p) out"
    "h2_frame_parse_rst_stream (Ptr h) (Ptr (p @ q)) out = h2_frame_parse_rst_stream (Ptr h) (Ptr p) out"
    "h2_frame_parse_ping (Ptr h) (Ptr (p @ q)) o8 = h2_frame_parse_ping (Ptr h) (Ptr p) o8"
  using assms validate_len(2,3,4) [of h]
  by (auto simp: h2_frame_parse_window_update_def h2_frame_parse_rst_stream_def h2_frame_parse_ping_def read_more rd_block_more
      split: ptr.split)

lemma parse_settings_loop_more:
  "6 * (i + n) \<le> length p \<Longrightarrow> h2_frame_parse_settings_loop (p @ q) i n ss = h2_frame_parse_settings_loop p i n ss"
proof (induction n arbitrary: i ss)
  case (Suc n)
  then have "h2_read_u16 (drop (i * 6) (p @ q)) = h2_read_u16 (drop (i * 6) p)"
    "h2_read_u32 (drop (i * 6 + 2) (p @ q)) = h2_read_u32 (drop (i * 6 + 2) p)"
    by (simp_all add: read_more)
  with Suc show ?case by (simp cong: Option.bind_cong)
qed simp

lemma parse_settings_more:
  assumes "unat (fh_length h) \<le> length p"
  shows "h2_frame_parse_settings (Ptr h) (Ptr (p @ q)) ss m n = h2_frame_parse_settings (Ptr h) (Ptr p) ss m n"
proof -
  have "6 * (0 + unat (fh_length h div 6)) \<le> length p" using assms by (simp add: unat_div_distrib)
  then show ?thesis
    by (simp add: h2_frame_parse_settings_def parse_settings_loop_more Let_def cong: ptr.case_cong)
qed

lemma headers_priority_more:
  assumes "pos + blen \<le> length p"
  shows "h2_frame_parse_headers_priority h (p @ q) pos blen hp = h2_frame_parse_headers_priority h p pos blen hp"
proof (cases "5 \<le> blen")
  case True
  with assms have "5 \<le> length (drop pos p)" "drop pos (p @ q) = drop pos p @ q" by simp_all
  then have "h2_frame_parse_priority hd (Ptr (drop pos (p @ q))) out = h2_frame_parse_priority hd (Ptr (drop pos p)) out" for hd out
    by (simp only: parse_priority_more)
  then show ?thesis by (simp only: h2_frame_parse_headers_priority_def)
qed (simp add: h2_frame_parse_headers_priority_def Let_def)

text \<open>The output of the HEADERS parser points into the payload, so that only the memory behind the
  block differs.\<close>

definition more_block :: "byte list \<Rightarrow> h2_headers_payload ptr \<Rightarrow> h2_headers_payload ptr" where
  "more_block q o' = (case o' of NULL \<Rightarrow> NULL | Ptr hp \<Rightarrow> Ptr (hp\<lparr>hp_header_block := hp_header_block hp @ q\<rparr>))"

lemma parse_headers_more:
  assumes "unat (fh_length h) \<le> length p"
  shows "h2_frame_parse_headers (Ptr h) (Ptr (p @ q)) (Ptr out) =
    map_option (\<lambda>(ret, o'). (ret, if ret = H2_OK then more_block q o' else o')) (h2_frame_parse_headers (Ptr h) (Ptr p) (Ptr out))"
proof -
  have fin: "(do { (ret, hp, payload_pos, block_len) \<leftarrow> h2_frame_parse_headers_priority h (p @ q) pos blen out;
                  if ret \<noteq> H2_OK then Some (ret, Ptr hp)
                  else Some (H2_OK, Ptr (hp\<lparr>hp_header_block := drop payload_pos (p @ q),
                                            hp_header_block_len := block_len, hp_pad_len := pad\<rparr>)) }) =
     map_option (\<lambda>(ret, o'). (ret, if ret = H2_OK then more_block q o' else o'))
       (do { (ret, hp, payload_pos, block_len) \<leftarrow> h2_frame_parse_headers_priority h p pos blen out;
                  if ret \<noteq> H2_OK then Some (ret, Ptr hp)
                  else Some (H2_OK, Ptr (hp\<lparr>hp_header_block := drop payload_pos p,
                                            hp_header_block_len := block_len, hp_pad_len := pad\<rparr>)) })"
    if fits: "pos + blen \<le> length p" for pos blen pad
  proof -
    obtain ret hp' pos' blen' where r: "h2_frame_parse_headers_priority h p pos blen out = Some (ret, hp', pos', blen')"
      "ret = H2_OK \<longrightarrow> pos' = pos + priority_field hp' \<and> pos' + blen' = pos + blen"
      using parse_headers_priority_run [OF fits, of h out] by blast
    show ?thesis
    proof (cases "ret = H2_OK")
      case True
      then have "pos' \<le> length p" using r(2) fits by linarith
      with True r(1) fits show ?thesis by (simp add: headers_priority_more more_block_def)
    next
      case False
      with r(1) fits show ?thesis by (simp add: headers_priority_more)
    qed
  qed
  show ?thesis
  proof (cases "fh_type h \<noteq> H2_FRAME_HEADERS \<or> h2_frame_validate_payload (Ptr h) \<noteq> H2_OK")
    case True
    then show ?thesis by (auto simp: h2_frame_parse_headers_def)
  next
    case ok: False
    show ?thesis
    proof (cases "fh_flags h AND H2_FLAG_PADDED \<noteq> 0")
      case False
      with ok fin [of 0 "unat (fh_length h)" 0] assms show ?thesis by (simp add: h2_frame_parse_headers_def Let_def)
    next
      case pad: True
      show ?thesis
      proof (cases "unat (fh_length h) = 0 \<or> unat (p ! 0) > unat (fh_length h) - 1")
        case True
        with ok pad assms show ?thesis by (cases "unat (fh_length h) = 0") (auto simp: h2_frame_parse_headers_def Let_def rd_def nth_append)
      next
        case False
        then have l: "1 + (unat (fh_length h) - 1 - unat (p ! 0)) \<le> length p" "0 < length p" using assms by linarith+
        with ok pad False fin [OF l(1), of "p ! 0"] show ?thesis
          by (simp add: h2_frame_parse_headers_def Let_def rd_def nth_append)
      qed
    qed
  qed
qed

subsection \<open>The handlers\<close>

lemma path_loop_more:
  assumes "path_ok (w, len, cap) path"
  shows "h2_hpack_extract_path_loop (w @ q) len cap (pos, path) = h2_hpack_extract_path_loop w len cap (pos, path)"
  using assms
proof (induction "len - pos" arbitrary: pos path rule: less_induct)
  case less
  note loop = h2_hpack_extract_path_loop.simps [of _ len cap "(pos, path)"]
  show ?case
  proof (cases "pos < len")
    case True
    let ?item = "wire_item is_path (drop pos (take len w))"
    have w: "extracts_item w len cap pos path ?item" using less.prems True by (intro extracts_wire_item) auto
    have "extracts_item (w @ q) len cap pos path (wire_item is_path (drop pos (take len (w @ q))))"
      using less.prems True by (intro extracts_wire_item) auto
    moreover have "take len (w @ q) = take len w" using less.prems by simp
    ultimately have "extracts_item (w @ q) len cap pos path ?item" by (simp only:)
    with w have same: "h2_hpack_extract_path_step (w @ q) len cap (pos, path) = h2_hpack_extract_path_step w len cap (pos, path)"
      by (simp only: extracts_item_def)
    from path_run.step_defined [of pos "(w, len, cap)" path] True less.prems
    consider x where "h2_hpack_extract_path_step w len cap (pos, path) = Some (Inl x)"
      | pos' path' where "h2_hpack_extract_path_step w len cap (pos, path) = Some (Inr (pos', path'))" "pos < pos'"
          "path_ok (w, len, cap) path'"
      by auto
    then show ?thesis
    proof cases
      case 1
      with same show ?thesis by (simp add: loop)
    next
      case 2
      with same True show ?thesis using less.hyps [of pos' path'] by (simp add: loop)
    qed
  qed (simp add: loop)
qed

lemma extract_path_more:
  "len \<le> length w \<Longrightarrow> len < 2 ^ 63 \<Longrightarrow>
     h2_hpack_extract_path (Ptr (w @ q)) len p H2_STREAM_PATH_CAP = h2_hpack_extract_path (Ptr w) len p H2_STREAM_PATH_CAP"
  by (cases p) (simp_all add: h2_hpack_extract_path_def H2_STREAM_PATH_CAP_def path_loop_more)

lemma finish_more:
  "n \<le> length b \<Longrightarrow> n < 2 ^ 63 \<Longrightarrow> h2_connection_finish_headers c sid fl (b @ q) n = h2_connection_finish_headers c sid fl b n"
  by (simp add: h2_connection_finish_headers_def extract_path_more cong: deep)

lemma append_more:
  "n \<le> length b \<Longrightarrow> h2_connection_append_header_block c (b @ q) n = h2_connection_append_header_block c b n"
  by (simp add: h2_connection_append_header_block_def rd_block_more cong: deep)

lemma headers_more:
  assumes "unat (fh_length h) \<le> length p"
  shows "h2_connection_process_headers c h (p @ q) = h2_connection_process_headers c h p"
proof -
  obtain ret hp where r: "h2_frame_parse_headers (Ptr h) (Ptr p) (Ptr local_headers_payload) = Some (ret, Ptr hp)"
     "ret = H2_OK \<Longrightarrow> hp_header_block_len hp \<le> length (hp_header_block hp)"
     "ret = H2_OK \<Longrightarrow> hp_header_block_len hp < 2 ^ 63"
    using parsed_block [OF assms] by blast
  then show ?thesis
    by (cases "ret = H2_OK")
      (simp_all add: h2_connection_process_headers_def parse_headers_more [OF assms] more_block_def append_more finish_more)
qed

lemma continuation_more:
  assumes "unat (fh_length h) \<le> length p"
  shows "h2_connection_process_continuation c h (p @ q) = h2_connection_process_continuation c h p"
  using assms by (simp add: h2_connection_process_continuation_def h2_frame_parse_continuation_def append_more)

lemma bind_fst: "Option.bind r (\<lambda>(ret, x). f ret) = Option.bind (map_option fst r) f"
  by (cases r) auto

lemma data_more:
  assumes "unat (fh_length h) \<le> length p"
  shows "h2_connection_process_data c h (p @ q) = h2_connection_process_data c h p"
  by (simp add: h2_connection_process_data_def bind_fst parse_data_more [OF assms])

lemma small_frames_more:
  assumes "unat (fh_length h) \<le> length p"
  shows "h2_connection_process_priority c h (p @ q) = h2_connection_process_priority c h p"
    "h2_connection_process_rst_stream c h (p @ q) = h2_connection_process_rst_stream c h p"
    "h2_connection_process_ping c h (p @ q) = h2_connection_process_ping c h p"
    "h2_connection_process_window_update c h (p @ q) = h2_connection_process_window_update c h p"
    "h2_connection_apply_settings c h (p @ q) = h2_connection_apply_settings c h p"
  by (simp_all add: h2_connection_process_priority_def h2_connection_process_rst_stream_def h2_connection_process_ping_def
      h2_connection_process_window_update_def h2_connection_apply_settings_def parse_priority_frame_more [OF assms]
      parse_fixed_more [OF assms] parse_settings_more [OF assms])

lemma frame_more:
  assumes "unat (fh_length h) \<le> length p"
  shows "h2_connection_process_frame c h (p @ q) = h2_connection_process_frame c h p"
  by (simp add: h2_connection_process_frame_def headers_more [OF assms] continuation_more [OF assms] data_more [OF assms]
      small_frames_more [OF assms])

subsection \<open>More input behind the frames\<close>

definition behind :: "byte list \<Rightarrow> h2_connection \<Rightarrow> h2_connection" where
  "behind q c = c\<lparr>c_input := c_input c @ q\<rparr>"

lemma behind_with_input: "behind q c = with_input (c_preface_seen c, c_input c @ q) c"
  by (simp add: behind_def with_input_def)

lemma with_own_input [simp]: "with_input (c_preface_seen c, c_input c) c = c"
  by (simp add: with_input_def)

lemma on_conn_result: "on_conn g r = Some (ret, c') \<longleftrightarrow> (\<exists>c. r = Some (ret, c) \<and> c' = g c)"
  by (cases r) (auto simp: on_conn_def)

lemma handler_keeps_input:
  assumes "\<And>x c. f (with_input x c) = on_conn (with_input x) (f c)" and "f c = Some (ret, c')"
  shows "c_input c' = c_input c" "c_preface_seen c' = c_preface_seen c" "f (behind q c) = Some (ret, behind q c')"
proof -
  let ?x = "(c_preface_seen c, c_input c)"
  from assms(1) [of ?x c] assms(2) have "c' = with_input ?x c'" by simp
  then show *: "c_input c' = c_input c" "c_preface_seen c' = c_preface_seen c"
    by (metis with_input_fields snd_conv, metis with_input_fields fst_conv)
  with assms(1) [of "(c_preface_seen c, c_input c @ q)" c] assms(2) show "f (behind q c) = Some (ret, behind q c')"
    by (simp add: behind_with_input)
qed

lemma feed_step_behind:
  assumes "conn_ok c" "9 \<le> length (c_input c)" "h2_connection_feed_step c = Some (Inr c')"
  shows "h2_connection_feed_step (behind q c) = Some (Inr (behind q c')) \<and> c_preface_seen c' = c_preface_seen c"
proof -
  let ?fr = "\<lambda>c h. h2_connection_process_frame c h (drop 9 (c_input c))"
  obtain h where h: "h2_frame_parse_header (Ptr (c_input c)) (length (c_input c)) (Ptr local_frame_header) = Some (H2_OK, Ptr h)"
    using parse_header_run [OF assms(2) order_refl] by blast
  have hq: "h2_frame_parse_header (Ptr (c_input c @ q)) (length (c_input c @ q)) (Ptr local_frame_header) = Some (H2_OK, Ptr h)"
    using h parse_header_append [of "c_input c" "length (c_input c @ q)" "length (c_input c)" q] assms(2) by simp
  let ?n = "unat (fh_length h)" and ?p = "drop 9 (c_input c)"
  have n: "size_add 9 ?n = 9 + ?n" using unat_u32_less [of "fh_length h"] by simp
  note run = h2_connection_feed_step_def H2_FRAME_HEADER_LEN_def Let_def
  have whole: "9 + ?n \<le> length (c_input c)"
    using assms(3) h n by (auto simp: run not_less split: if_splits)
  then have p: "?n \<le> length ?p" by simp
  have dq: "drop 9 (c_input c @ q) = ?p @ q" using assms(2) by simp
  from process_frame_keeps [OF assms(1) p] obtain ret c1 where
    c1: "h2_connection_process_frame c h ?p = Some (ret, c1)" "conn_ok c1" "c_input c1 = c_input c"
    by (auto simp: keeps_def)
  note fr = handler_keeps_input(2,3) [where f = "\<lambda>c'. h2_connection_process_frame c' h ?p", OF frame_blind c1(1)]
  from fr(2) [of q] have fq: "h2_connection_process_frame (behind q c) h (drop 9 (c_input c @ q)) = Some (ret, behind q c1)"
    by (simp only: dq frame_more [OF p])
  show ?thesis
  proof (cases "ret = H2_OK")
    case True
    with fr(1) assms h n whole c1 fq hq show ?thesis by (auto simp: run behind_def)
  next
    case err: False
    then have reset: "h2_connection_is_stream_error ret \<and> fh_stream_id h \<noteq> 0"
      using assms(3) h n whole c1 by (auto simp: run bind_run_iff split: if_splits prod.splits)
    then obtain e3 c3 where c3: "h2_connection_reset_stream_error c1 (fh_stream_id h) (h2_error_value ret) = Some (e3, c3)"
      "c_input c3 = c_input c1"
      using reset_stream_error_keeps [OF c1(2), of "fh_stream_id h" "h2_error_value ret"] by (auto simp: keeps_def)
    note rs = handler_keeps_input(2,3) [where f = "\<lambda>c. h2_connection_reset_stream_error c (fh_stream_id h) (h2_error_value ret)",
        OF reset_blind c3(1)]
    from rs(1) rs(2) [of q] fr(1) assms h n whole c1 fq hq c3 err reset show ?thesis
      by (cases "e3 = H2_OK") (auto simp: run behind_def)
  qed
qed

lemma feed_step_stops_ok:
  assumes "h2_connection_feed_step c = Some (Inl (H2_OK, c'))"
  shows "c' = c"
  using assms by (auto simp: h2_connection_feed_step_def Let_def bind_run_iff split: if_splits prod.splits)

lemma feed_loop_behind:
  assumes "conn_ok c" "h2_connection_feed_loop c = Some (H2_OK, c1)"
  shows "h2_connection_feed_loop (behind q c) = h2_connection_feed_loop (behind q c1) \<and> c_preface_seen c1 = c_preface_seen c \<and>
    length (c_input c1) \<le> length (c_input c)"
  using assms
proof (induction "length (c_input c)" arbitrary: c rule: less_induct)
  case less
  note loop = h2_connection_feed_loop.simps
  show ?case
  proof (cases "9 \<le> length (c_input c)")
    case True
    from feed_step_run [OF less.prems(1) True] show ?thesis
    proof (elim disjE exE conjE)
      fix ret c'
      assume s: "h2_connection_feed_step c = Some (Inl (ret, c'))"
      with less.prems(2) True have "ret = H2_OK" "c' = c1" by (simp_all add: loop [of c] H2_FRAME_HEADER_LEN_def)
      with feed_step_stops_ok s show ?thesis by blast
    next
      fix c'
      assume s: "h2_connection_feed_step c = Some (Inr c')" "conn_ok c'" "length (c_input c') < length (c_input c)"
      then have "h2_connection_feed_loop c' = Some (H2_OK, c1)"
        using less.prems(2) True by (simp add: loop [of c] H2_FRAME_HEADER_LEN_def)
      moreover have "h2_connection_feed_loop (behind q c) = h2_connection_feed_loop (behind q c')"
        "c_preface_seen c' = c_preface_seen c"
        using feed_step_behind [OF less.prems(1) True s(1), of q] True
        by (auto simp: loop [of "behind q c"] H2_FRAME_HEADER_LEN_def) (simp_all add: behind_def)
      ultimately show ?thesis using less.hyps [OF s(3,2)] s(3) by simp
    qed
  next
    case False
    then show ?thesis using less.prems(2) by (simp add: loop [of c] H2_FRAME_HEADER_LEN_def)
  qed
qed

subsection \<open>Two calls and one\<close>

definition run_input :: "h2_connection \<Rightarrow> conn_result" where
  "run_input c = do {
     r \<leftarrow> h2_connection_feed_preface c;
     (case r of Inl result \<Rightarrow> Some result | Inr c \<Rightarrow> h2_connection_feed_loop c)
   }"

lemma feed_eq:
  assumes "conn_ok c" "length (c_input c) + length a \<le> H2_CONN_INPUT_CAP"
  shows "h2_connection_feed (Ptr c) (Ptr a) (length a) =
    map_option (\<lambda>(ret, c). (ret, Ptr c)) (run_input (behind a c))"
proof -
  have "append_within H2_CONN_INPUT_CAP (c_input c) a = Some (c_input c @ a)"
    using assms(2) by (intro append_within_in)
  moreover have "size_sub H2_CONN_INPUT_CAP (length (c_input c)) = H2_CONN_INPUT_CAP - length (c_input c)"
    using assms(2) by (simp add: H2_CONN_INPUT_CAP_def)
  moreover have "map_option (\<lambda>(ret, c). (ret, Ptr c)) m = Option.bind m (\<lambda>(ret, c). Some (ret, Ptr c))" for m :: conn_result
    by (cases m) auto
  ultimately show ?thesis using assms(2)
    by (cases "a = []") (auto simp: h2_connection_feed_def run_input_def behind_def rd_block_in)
qed

lemma feed_preface_behind:
  assumes "h2_connection_feed_preface c = Some (Inr c')"
  shows "h2_connection_feed_preface (behind q c) = Some (Inr (behind q c')) \<and> c_preface_seen c' \<and>
    length (c_input c') \<le> length (c_input c)"
proof (cases "c_preface_seen c")
  case True
  with assms show ?thesis by (simp add: h2_connection_feed_preface_def behind_def)
next
  case False
  let ?c = "c\<lparr>c_input := drop 24 (c_input c), c_preface_seen := True\<rparr>"
  note run = h2_connection_feed_preface_def H2_CLIENT_PREFACE_LEN_def Let_def
  have len: "24 \<le> length (c_input c)" and pre: "take 24 (c_input c) = H2_CLIENT_PREFACE"
    using False assms by (auto simp: run rd_block_in not_less bind_run_iff split: if_splits prod.splits)
  have q: "behind q c\<lparr>c_input := drop 24 (c_input (behind q c)), c_preface_seen := True\<rparr> = behind q ?c"
    using len by (simp add: behind_def)
  show ?thesis
  proof (cases "c_settings_sent c")
    case True
    then show ?thesis using False assms len pre by (auto simp: run rd_block_in behind_def)
  next
    case unsent: False
    then obtain c1 where c1: "h2_connection_queue_settings ?c = Some (H2_OK, c1)" "c' = c1\<lparr>c_settings_sent := True\<rparr>"
      using False assms len pre by (auto simp: run rd_block_in not_less bind_run_iff split: if_splits prod.splits)
    note s = handler_keeps_input(2,3) [where f = h2_connection_queue_settings, OF queue_blind(2) c1(1)]
    have "behind q ?c = c\<lparr>c_input := drop 24 (c_input c) @ q, c_preface_seen := True\<rparr>" by (simp add: behind_def)
    with s(2) [of q] have "h2_connection_queue_settings (c\<lparr>c_input := drop 24 (c_input c) @ q, c_preface_seen := True\<rparr>) =
      Some (H2_OK, behind q c1)" by (simp only:)
    with s(1) c1 False unsent len pre handler_keeps_input(1) [where f = h2_connection_queue_settings, OF queue_blind(2) c1(1)]
    show ?thesis by (simp add: run rd_block_in behind_def)
  qed
qed

lemma feed_preface_waits:
  assumes "h2_connection_feed_preface c = Some (Inl (H2_OK, c'))"
  shows "c' = c"
  using assms by (auto simp: h2_connection_feed_preface_def Let_def bind_run_iff split: if_splits prod.splits)

lemma run_input_behind:
  assumes "conn_ok c" "run_input c = Some (H2_OK, c1)"
  shows "run_input (behind q c) = run_input (behind q c1) \<and> conn_ok c1 \<and> length (c_input c1) \<le> length (c_input c)"
proof -
  from feed_preface_run [OF assms(1)] show ?thesis
  proof (elim disjE exE conjE)
    fix ret c'
    assume "h2_connection_feed_preface c = Some (Inl (ret, c'))"
    with assms(2) feed_preface_waits have "c1 = c" by (simp add: run_input_def)
    with assms(1) show ?thesis by simp
  next
    fix c'
    assume p: "h2_connection_feed_preface c = Some (Inr c')" "conn_ok c'"
    with assms(2) have l: "h2_connection_feed_loop c' = Some (H2_OK, c1)" by (simp add: run_input_def)
    then have "conn_ok c1" using feed_loop_run [OF p(2)] by simp
    with feed_loop_behind [OF p(2) l, of q] feed_preface_behind [OF p(1), of q] show ?thesis
      by (auto simp add: run_input_def h2_connection_feed_preface_def behind_def)
  qed
qed

text \<open>C5: how TCP cuts the input into pieces does not matter. When the connection accepts the bytes \<open>a\<close>
  with \<open>H2_OK\<close>, feeding \<open>b\<close> next has the same result, the same queued output and the same state as
  feeding \<open>a @ b\<close> in one call, as long as the input array has room for both: a frame cut anywhere,
  even inside the preface or a frame header, is processed exactly as the whole frame would be.\<close>

theorem segmentation_irrelevant:
  assumes "conn_ok c" "length (c_input c) + length a + length b \<le> H2_CONN_INPUT_CAP"
    and "h2_connection_feed (Ptr c) (Ptr a) (length a) = Some (H2_OK, Ptr c1)"
  shows "h2_connection_feed (Ptr c1) (Ptr b) (length b) = h2_connection_feed (Ptr c) (Ptr (a @ b)) (length (a @ b))"
proof -
  have a: "run_input (behind a c) = Some (H2_OK, c1)" "conn_ok (behind a c)"
    using assms by (auto simp: feed_eq behind_def intro!: conn_ok_input simp: H2_CONN_INPUT_CAP_def)
  from run_input_behind [OF a(2,1), of b] show ?thesis
    using feed_eq [of c "a @ b"] feed_eq [of c1 b] assms(1,2)
    by (simp add: behind_def)
qed

lemma segmentation_irrelevant_witness:
  "h2_connection_feed (Ptr (fresh_connection\<lparr>c_input := [0, 0]\<rparr>)) (Ptr [8, 6, 0, 0, 0, 0, 0, 1, 2, 3, 4, 5, 6, 7, 8, 9]) 16 =
   h2_connection_feed (Ptr fresh_connection) (Ptr [0, 0, 8, 6, 0, 0, 0, 0, 0, 1, 2, 3, 4, 5, 6, 7, 8, 9]) 18"
proof -
  let ?b = "[8, 6, 0, 0, 0, 0, 0, 1, 2, 3, 4, 5, 6, 7, 8, 9] :: byte list"
  have "h2_connection_feed (Ptr fresh_connection) (Ptr [0, 0]) 2 = Some (H2_OK, Ptr (fresh_connection\<lparr>c_input := [0, 0]\<rparr>))"
    by (simp add: h2_connection_feed_def h2_connection_feed_preface_def h2_connection_feed_loop.simps fresh_simps
        append_within_def rd_block_def H2_CONN_INPUT_CAP_def H2_FRAME_HEADER_LEN_def)
  then have "h2_connection_feed (Ptr fresh_connection) (Ptr [0, 0]) (length [0, 0 :: byte]) =
      Some (H2_OK, Ptr (fresh_connection\<lparr>c_input := [0, 0]\<rparr>))" by (simp add: numeral_2_eq_2)
  moreover have "length (c_input fresh_connection) + length [0, 0 :: byte] + length ?b \<le> H2_CONN_INPUT_CAP"
    by (simp add: fresh_simps H2_CONN_INPUT_CAP_def)
  ultimately have "h2_connection_feed (Ptr (fresh_connection\<lparr>c_input := [0, 0]\<rparr>)) (Ptr ?b) (length ?b) =
      h2_connection_feed (Ptr fresh_connection) (Ptr ([0, 0] @ ?b)) (length ([0, 0] @ ?b))"
    by (intro segmentation_irrelevant fresh_ok)
  moreover have "length ?b = 16" "length ([0, 0] @ ?b) = 18" by simp_all
  ultimately show ?thesis by (simp only: append.simps)
qed

end
