(* ===== verification/Connection_Session.thy ===== *)
theory Connection_Session
  imports Connection_Segments
begin

unbundle bit_operations_syntax

section \<open>A whole session, however it is cut\<close>

text \<open>
  An input is accepted in one piece exactly when it is accepted in any pieces: an error that the feed
  loop finds is found whatever follows (\<open>feed_step_error_behind\<close> and its likes), so that every prefix
  of an accepted input is accepted, and \<open>pieces_as_one\<close> reduces any sequence of calls to one. On that
  rests the property of a client's first request.
\<close>

subsection \<open>Errors are found in any segmentation\<close>

lemma feed_step_error_behind:
  assumes "conn_ok c" "9 \<le> length (c_input c)" "h2_connection_feed_step c = Some (Inl (ret, c'))" "ret \<noteq> H2_OK"
  shows "h2_connection_feed_step (behind q c) = Some (Inl (ret, behind q c'))"
proof -
  obtain h where h: "h2_frame_parse_header (Ptr (c_input c)) (length (c_input c)) (Ptr local_frame_header) = Some (H2_OK, Ptr h)"
    using parse_header_run [OF assms(2) order_refl] by blast
  have hq: "h2_frame_parse_header (Ptr (c_input c @ q)) (length (c_input c @ q)) (Ptr local_frame_header) = Some (H2_OK, Ptr h)"
    using h parse_header_append [of "c_input c" "length (c_input c @ q)" "length (c_input c)" q] assms(2) by simp
  let ?n = "unat (fh_length h)" and ?p = "drop 9 (c_input c)"
  have n: "size_add 9 ?n = 9 + ?n" using unat_u32_less [of "fh_length h"] by simp
  note run = h2_connection_feed_step_def H2_FRAME_HEADER_LEN_def Let_def
  have whole: "9 + ?n \<le> length (c_input c)"
    using assms(3,4) h n by (auto simp: run not_less split: if_splits)
  then have p: "?n \<le> length ?p" by simp
  have dq: "drop 9 (c_input c @ q) = ?p @ q" using assms(2) by simp
  from process_frame_keeps [OF assms(1) p] obtain r1 c1 where
    c1: "h2_connection_process_frame c h ?p = Some (r1, c1)" "conn_ok c1" by (auto simp: keeps_def)
  note fr = handler_keeps_input(3) [where f = "\<lambda>c'. h2_connection_process_frame c' h ?p", OF frame_blind c1(1)]
  from fr [of q] have fq: "h2_connection_process_frame (behind q c) h (drop 9 (c_input c @ q)) = Some (r1, behind q c1)"
    by (simp only: dq frame_more [OF p])
  have err: "r1 \<noteq> H2_OK" using assms(3) h n whole c1 by (auto simp: run split: if_splits)
  show ?thesis
  proof (cases "h2_connection_is_stream_error r1 \<and> fh_stream_id h \<noteq> 0")
    case True
    then obtain e3 c3 where c3: "h2_connection_reset_stream_error c1 (fh_stream_id h) (h2_error_value r1) = Some (e3, c3)"
      using reset_stream_error_keeps [OF c1(2), of "fh_stream_id h" "h2_error_value r1"] by (auto simp: keeps_def)
    note rs = handler_keeps_input(3) [where f = "\<lambda>c. h2_connection_reset_stream_error c (fh_stream_id h) (h2_error_value r1)",
        OF reset_blind c3]
    from rs [of q] assms h n whole c1 fq hq c3 err True show ?thesis
      by (cases "e3 = H2_OK") (auto simp: run behind_def)
  next
    case False
    obtain e2 c2 where c2: "h2_connection_queue_goaway c1 (h2_error_value r1) = Some (e2, c2)"
      using queue_goaway_keeps [OF c1(2), of "h2_error_value r1"] by (auto simp: keeps_def)
    note gs = handler_keeps_input(3) [where f = "\<lambda>c. h2_connection_queue_goaway c (h2_error_value r1)", OF queue_blind(1) c2]
    from gs [of q] assms h n whole c1 fq hq c2 err False show ?thesis by (auto simp: run behind_def)
  qed
qed

lemma feed_loop_error_behind:
  assumes "conn_ok c" "h2_connection_feed_loop c = Some (ret, c1)" "ret \<noteq> H2_OK"
  shows "\<exists>c2. h2_connection_feed_loop (behind q c) = Some (ret, c2)"
  using assms
proof (induction "length (c_input c)" arbitrary: c rule: less_induct)
  case less
  note loop = h2_connection_feed_loop.simps
  have len: "9 \<le> length (c_input c)"
    using less.prems(2,3) by (auto simp: loop [of c] H2_FRAME_HEADER_LEN_def split: if_splits)
  from feed_step_run [OF less.prems(1) len] show ?case
  proof (elim disjE exE conjE)
    fix r c'
    assume s: "h2_connection_feed_step c = Some (Inl (r, c'))"
    with less.prems(2) len have "r = ret" by (simp add: loop [of c] H2_FRAME_HEADER_LEN_def)
    with feed_step_error_behind [OF less.prems(1) len, of ret c' q] s less.prems(3) len show ?thesis
      by (simp add: loop [of "behind q c"] H2_FRAME_HEADER_LEN_def) (simp add: behind_def)
  next
    fix c'
    assume s: "h2_connection_feed_step c = Some (Inr c')" "conn_ok c'" "length (c_input c') < length (c_input c)"
    then have "h2_connection_feed_loop c' = Some (ret, c1)"
      using less.prems(2) len by (simp add: loop [of c] H2_FRAME_HEADER_LEN_def)
    moreover have "h2_connection_feed_loop (behind q c) = h2_connection_feed_loop (behind q c')"
      using feed_step_behind [OF less.prems(1) len s(1), of q] len
      by (auto simp: loop [of "behind q c"] H2_FRAME_HEADER_LEN_def) (simp_all add: behind_def)
    ultimately show ?thesis using less.hyps [OF s(3,2)] less.prems(3) by simp
  qed
qed

lemma feed_preface_error_behind:
  assumes "conn_ok c" "h2_connection_feed_preface c = Some (Inl (ret, c'))" "ret \<noteq> H2_OK"
  shows "\<exists>c2. h2_connection_feed_preface (behind q c) = Some (Inl (ret, c2))"
proof -
  let ?c = "c\<lparr>c_input := drop 24 (c_input c), c_preface_seen := True\<rparr>"
  note run = h2_connection_feed_preface_def H2_CLIENT_PREFACE_LEN_def Let_def
  have pre: "\<not> c_preface_seen c" "24 \<le> length (c_input c)"
    using assms(2,3) by (auto simp: run not_less split: if_splits)
  show ?thesis
  proof (cases "take 24 (c_input c) = H2_CLIENT_PREFACE")
    case True
    with assms(2,3) pre obtain c1 where c1: "h2_connection_queue_settings ?c = Some (ret, c1)" and unsent: "\<not> c_settings_sent c"
      by (auto simp: run rd_block_in bind_run_iff split: if_splits prod.splits)
    note s = handler_keeps_input(3) [where f = h2_connection_queue_settings, OF queue_blind(2) c1]
    have "behind q ?c = c\<lparr>c_input := drop 24 (c_input c) @ q, c_preface_seen := True\<rparr>" by (simp add: behind_def)
    with s [of q] have "h2_connection_queue_settings (c\<lparr>c_input := drop 24 (c_input c) @ q, c_preface_seen := True\<rparr>) =
      Some (ret, behind q c1)" by (simp only:)
    with True pre unsent assms(3) show ?thesis by (simp add: run rd_block_in behind_def)
  next
    case False
    obtain e2 c2 where c2: "h2_connection_queue_goaway c (h2_error_value H2_PROTOCOL_ERROR) = Some (e2, c2)"
      using queue_goaway_keeps [OF assms(1), of "h2_error_value H2_PROTOCOL_ERROR"] by (auto simp: keeps_def)
    note g = handler_keeps_input(3) [where f = "\<lambda>c. h2_connection_queue_goaway c (h2_error_value H2_PROTOCOL_ERROR)",
        OF queue_blind(1) c2]
    from g [of q] c2 False pre assms(2) show ?thesis by (auto simp: run rd_block_in behind_def)
  qed
qed

text \<open>When a longer input is accepted, so is every shorter one.\<close>

lemma run_input_prefix:
  assumes "conn_ok c" "run_input (behind q c) = Some (H2_OK, c2)"
  shows "\<exists>c1. run_input c = Some (H2_OK, c1)"
proof -
  from feed_preface_run [OF assms(1)] show ?thesis
  proof (elim disjE exE conjE)
    fix ret c'
    assume p: "h2_connection_feed_preface c = Some (Inl (ret, c'))"
    have "ret = H2_OK"
    proof (rule ccontr)
      assume e: "ret \<noteq> H2_OK"
      then show False using feed_preface_error_behind [OF assms(1) p e, of q] assms(2) by (auto simp: run_input_def)
    qed
    with p show ?thesis by (simp add: run_input_def)
  next
    fix c'
    assume p: "h2_connection_feed_preface c = Some (Inr c')" "conn_ok c'"
    obtain ret c1 where l: "h2_connection_feed_loop c' = Some (ret, c1)" using feed_loop_run [OF p(2)] by blast
    have "ret = H2_OK"
    proof (rule ccontr)
      assume e: "ret \<noteq> H2_OK"
      then show False
        using feed_loop_error_behind [OF p(2) l e, of q] feed_preface_behind [OF p(1), of q] assms(2)
        by (auto simp: run_input_def)
    qed
    with p l show ?thesis by (simp add: run_input_def)
  qed
qed

subsection \<open>Any number of pieces\<close>

lemma behind_behind: "behind b (behind a c) = behind (a @ b) c"
  by (simp add: behind_def)

lemma pieces_as_one:
  assumes "conn_ok c" "run_input c = Some (H2_OK, c)" "run_input (behind (concat pieces) c) = Some (H2_OK, c2)"
    "length (c_input c) + length (concat pieces) \<le> H2_CONN_INPUT_CAP"
  shows "conn_run (map Feed pieces) (Ptr c) = Some (Ptr c2)"
  using assms
proof (induction pieces arbitrary: c)
  case Nil
  then show ?case by (simp add: behind_def)
next
  case (Cons a pieces)
  let ?b = "concat pieces"
  have ok: "conn_ok (behind a c)"
    using Cons.prems(1,4) by (auto simp: behind_def H2_CONN_INPUT_CAP_def intro!: conn_ok_input)
  have all: "run_input (behind ?b (behind a c)) = Some (H2_OK, c2)" using Cons.prems(3) by (simp add: behind_behind)
  from run_input_prefix [OF ok all] obtain c1 where c1: "run_input (behind a c) = Some (H2_OK, c1)" by blast
  note r = run_input_behind [OF ok c1]
  have settled: "run_input c1 = Some (H2_OK, c1)" using r [of "[]"] c1 by (simp add: behind_def)
  have "conn_run (map Feed pieces) (Ptr c1) = Some (Ptr c2)"
    using r [of ?b] all settled Cons.prems(4) by (intro Cons.IH) (auto simp: behind_def)
  moreover have "h2_connection_feed (Ptr c) (Ptr a) (length a) = Some (H2_OK, Ptr c1)"
    using feed_eq [OF Cons.prems(1), of a] Cons.prems(4) c1 by simp
  ultimately show ?case by simp
qed

subsection \<open>A request on the wire\<close>

lemma feed_loop_frame:
  assumes "c_input c = frame_bytes t f sid p @ rest" "length p \<le> H2_MAX_FRAME_SIZE"
    and "h2_connection_process_frame c
      \<lparr>fh_length = of_nat (length p), fh_type = t, fh_flags = f, fh_stream_id = sid AND 0x7fffffff\<rparr> (p @ rest) = Some (H2_OK, c1)"
    and "c_input c1 = c_input c"
  shows "h2_connection_feed_loop c = h2_connection_feed_loop (c1\<lparr>c_input := rest\<rparr>)"
proof -
  have u: "unat (of_nat (length p) :: u32) = length p" using assms(2) by (rule unat_payload_len)
  let ?h = "\<lparr>fh_length = of_nat (length p), fh_type = t, fh_flags = f, fh_stream_id = sid AND 0x7fffffff\<rparr>"
  have h: "h2_frame_parse_header (Ptr (c_input c)) (length (c_input c)) (Ptr local_frame_header) = Some (H2_OK, Ptr ?h)"
    using assms(2) by (simp add: assms(1) frame_bytes_def parse_header_bytes u)
  have d: "drop 9 (c_input c) = p @ rest" "drop (9 + length p) (c_input c) = rest"
    by (simp_all add: assms(1) frame_bytes_def)
  have "size_add 9 (length p) = 9 + length p" using assms(2) by (simp add: H2_MAX_FRAME_SIZE_def)
  then have "h2_connection_feed_step c = Some (Inr (c1\<lparr>c_input := rest\<rparr>))"
    using h u d assms by (simp add: h2_connection_feed_step_def H2_FRAME_HEADER_LEN_def)
  then show ?thesis
    by (simp add: h2_connection_feed_loop.simps [of c] H2_FRAME_HEADER_LEN_def assms(1))
qed

lemma empty_settings:
  assumes "conn_ok c" "\<not> c_header_block_open c" "length (pending c) + 9 \<le> H2_CONN_OUTPUT_CAP"
  shows "h2_connection_process_frame c \<lparr>fh_length = 0, fh_type = H2_FRAME_SETTINGS, fh_flags = 0, fh_stream_id = 0\<rparr> p =
    Some (H2_OK, queued c settings_ack_frame)"
  using assms queue_settings_ack_eq [OF conn_okD(1) [OF assms(1)]]
  by (simp add: h2_connection_process_frame_def h2_connection_apply_settings_def h2_frame_parse_settings_def
      h2_frame_validate_payload_def rd_block_in settings_ack_frame_def push_fits Let_def)

lemma whole_block:
  assumes "conn_ok c" "\<not> c_header_block_open c" "length b \<le> unat (c_max_frame_size c)" "length b \<le> H2_MAX_FRAME_SIZE"
    and "fl AND H2_FLAG_END_HEADERS \<noteq> 0" "fl AND H2_FLAG_PADDED = 0" "fl AND H2_FLAG_PRIORITY = 0" "sid \<noteq> 0"
  shows "h2_connection_process_frame c
      \<lparr>fh_length = of_nat (length b), fh_type = H2_FRAME_HEADERS, fh_flags = fl, fh_stream_id = sid\<rparr> (b @ rest) =
    h2_connection_finish_headers c sid fl b (length b)"
proof -
  have u: "unat (of_nat (length b) :: u32) = length b" using assms(4) by (rule unat_payload_len)
  have "\<not> of_nat (length b) > c_max_frame_size c" using assms(3) u by (simp add: word_less_nat_alt)
  then show ?thesis
    using assms u finish_more [of "length b" b c sid fl rest]
    by (simp add: h2_connection_process_frame_def h2_connection_process_headers_def h2_frame_parse_headers_def
        h2_frame_parse_headers_priority_def h2_frame_validate_payload_def h2_validate_stream_nonzero_def local_headers_payload_def Let_def H2_MAX_FRAME_SIZE_def)
qed

lemma first_request:
  fixes z :: h2_connection
  assumes "sid AND 1 \<noteq> 0" "sid AND 0x7fffffff = sid" "length b \<le> 16384"
    and flags: "fl AND H2_FLAG_END_HEADERS \<noteq> 0" "fl AND H2_FLAG_PADDED = 0" "fl AND H2_FLAG_PRIORITY = 0"
    and path: "h2_hpack_extract_path (Ptr b) (length b) (Ptr []) H2_STREAM_PATH_CAP = Some (H2_OK, Ptr path)"
    and input: "input = H2_CLIENT_PREFACE @ frame_bytes H2_FRAME_SETTINGS 0 0 [] @ frame_bytes H2_FRAME_HEADERS fl sid b"
  shows "\<exists>c. run_input (behind input (h2_connection_init z)) = Some (H2_OK, c) \<and>
     pending c = settings_frame @ settings_ack_frame @ response_frames sid path \<and>
     c_input c = [] \<and> c_responses_sent c = 1 \<and> c_last_stream_id c = sid"
proof -
  let ?i = "h2_connection_init z" and ?S = "frame_bytes H2_FRAME_SETTINGS 0 0 []" and ?H = "frame_bytes H2_FRAME_HEADERS fl sid b"
  have nz: "sid \<noteq> 0" using assms(1) by auto
  have len: "length path < 256" using path_run [of "length b" b "[]"] path assms(3) by auto
  note body = response_body [OF len]
  have fields: "c_max_frame_size ?i = 16384" "\<not> c_preface_seen ?i" "\<not> c_settings_sent ?i" "\<not> c_header_block_open ?i"
    "c_last_stream_id ?i = 0" "c_responses_sent ?i = 0" "c_conn_send_window ?i = 65535" "c_initial_stream_window ?i = 65535"
    "c_input ?i = []" "pending ?i = []" "\<forall>k < 128. s_id (c_streams ?i ! k) = 0"
    by (simp_all add: h2_connection_init_def zero_connection_def pending_def h2_consts zero_stream_def)
  let ?c1 = "?i\<lparr>c_input := ?S @ ?H, c_preface_seen := True\<rparr>"
  define c2 where "c2 = (queued ?c1 settings_frame)\<lparr>c_settings_sent := True\<rparr>"
  define c3 where "c3 = (queued c2 settings_ack_frame)\<lparr>c_input := ?H\<rparr>"
  have pre24: "length H2_CLIENT_PREFACE = 24" by (simp add: H2_CLIENT_PREFACE_def)
  have sizes: "length settings_frame = 15" "length settings_ack_frame = 9"
    by (simp_all add: settings_frame_def settings_ack_frame_def setting_bytes_def be16_def be32_def)
  have hlen: "length ?H = 9 + length b" "length ?S = 9" by simp_all
  have p1: "pending ?c1 = []" using fields(10) by (simp add: pending_def)
  have ok1: "conn_ok ?c1" using init_conn_ok [of z] assms(3) by (simp add: conn_ok_def queue_ok_def H2_CONN_INPUT_CAP_def)
  have q1: "h2_connection_queue_settings ?c1 = Some (H2_OK, queued ?c1 settings_frame)"
    using queue_settings_eq [OF conn_okD(1) [OF ok1]] p1 sizes by (simp add: push_fits h2_consts)
  have ok2: "conn_ok c2"
    using conn_ok_queued [OF ok1, of settings_frame] p1 sizes by (simp add: c2_def conn_ok_def queue_ok_def h2_consts)
  have p2: "pending c2 = settings_frame" using p1 by (simp add: c2_def pending_def)
  have f2: "c_input c2 = ?S @ ?H" "\<not> c_header_block_open c2" "c_max_frame_size c2 = 16384"
    using fields by (simp_all add: c2_def)
  have ok3: "conn_ok c3"
    using conn_ok_queued [OF ok2, of settings_ack_frame] p2 sizes assms(3) f2
    by (simp add: c3_def conn_ok_def queue_ok_def h2_consts)
  have p3: "pending c3 = settings_frame @ settings_ack_frame" using p2 by (simp add: c3_def pending_def)
  have f3: "c_input c3 = ?H @ []" "\<not> c_header_block_open c3" "c_max_frame_size c3 = 16384" "c_last_stream_id c3 = 0"
    "c_responses_sent c3 = 0" "c_conn_send_window c3 = 65535" "c_initial_stream_window c3 = 65535"
    "s_id (c_streams c3 ! 0) = 0"
    using fields by (simp_all add: c3_def c2_def)
  have start: "h2_connection_feed_preface (behind input ?i) = Some (Inr c2)"
  proof -
    have "behind input ?i = ?i\<lparr>c_input := input\<rparr>" using fields(9) by (simp add: behind_def)
    moreover have "?i\<lparr>c_input := ?S @ ?H, c_preface_seen := True\<rparr> = (?i\<lparr>c_input := input\<rparr>)\<lparr>c_input := drop 24 input, c_preface_seen := True\<rparr>"
      using pre24 by (simp add: input)
    ultimately show ?thesis
      using q1 fields(2,3) pre24 by (simp add: h2_connection_feed_preface_def H2_CLIENT_PREFACE_LEN_def rd_block_in input c2_def Let_def)
  qed
  have "h2_connection_process_frame c2 \<lparr>fh_length = of_nat (length ([] :: byte list)), fh_type = H2_FRAME_SETTINGS,
      fh_flags = 0, fh_stream_id = 0 AND 0x7fffffff\<rparr> ([] @ ?H) = Some (H2_OK, queued c2 settings_ack_frame)"
    using empty_settings [OF ok2 f2(2), of ?H] p2 sizes by (simp add: h2_consts)
  from feed_loop_frame [OF f2(1) _ this] have l2: "h2_connection_feed_loop c2 = h2_connection_feed_loop c3"
    by (simp add: c3_def)
  have room: "length (pending c3) + length (response_frames sid path) \<le> H2_CONN_OUTPUT_CAP"
    using body(2,3) p3 sizes len by (simp add: length_response_frames h2_consts)
  have free: "\<exists>k < 128. s_id (c_streams c3 ! k) = 0 \<or> s_state (c_streams c3 ! k) = H2_STREAM_STATE_CLOSED"
    using f3(8) by (intro exI [of _ 0]) simp
  obtain c4 where c4: "h2_connection_finish_headers c3 sid fl b (length b) = Some (H2_OK, c4)"
     "pending c4 = pending c3 @ response_frames sid path" "c_responses_sent c4 = 1" "c_last_stream_id c4 = sid"
    using finish_headers_answers [OF ok3 _ assms(1) free path len _ _ room, of fl] f3 nz body(2)
    by (auto simp: word_neq_0_conv)
  have in4: "c_input c4 = c_input c3"
    using finish_headers_keeps [OF ok3, of "length b" b sid fl] c4(1) assms(3) by (simp add: keeps_def)
  have "h2_connection_process_frame c3 \<lparr>fh_length = of_nat (length b), fh_type = H2_FRAME_HEADERS, fh_flags = fl,
      fh_stream_id = sid AND 0x7fffffff\<rparr> (b @ []) = Some (H2_OK, c4)"
    using whole_block [OF ok3 f3(2) _ _ flags nz, of b "[]"] c4(1) assms(2,3) f3(3) by (simp add: H2_MAX_FRAME_SIZE_def)
  from feed_loop_frame [OF f3(1) _ this in4] have "h2_connection_feed_loop c3 = Some (H2_OK, c4\<lparr>c_input := []\<rparr>)"
    using assms(3) by (simp add: H2_MAX_FRAME_SIZE_def h2_connection_feed_loop.simps [of "c4\<lparr>c_input := []\<rparr>"] H2_FRAME_HEADER_LEN_def)
  with start l2 c4 p3 show ?thesis by (simp add: run_input_def pending_def)
qed

text \<open>C3: a client that opens a connection gets its answer, however TCP cuts what it sends. When the bytes
  that arrive, in any number of pieces of any lengths, are the client preface, an empty SETTINGS
  frame and a HEADERS frame with a complete header block of an odd stream that decodes to a path,
  then after the last piece the output holds exactly the server's SETTINGS frame, the SETTINGS
  acknowledgement, and the response: its HEADERS frame and one DATA frame with END_STREAM that holds
  the path and a newline. Nothing of the input is left.\<close>

theorem request_on_the_wire:
  assumes "concat pieces = H2_CLIENT_PREFACE @ frame_bytes H2_FRAME_SETTINGS 0 0 [] @ frame_bytes H2_FRAME_HEADERS fl sid b"
    and "sid AND 1 \<noteq> 0" "sid AND 0x7fffffff = sid" "length b \<le> 16384"
    and "fl AND H2_FLAG_END_HEADERS \<noteq> 0" "fl AND H2_FLAG_PADDED = 0" "fl AND H2_FLAG_PRIORITY = 0"
    and "h2_hpack_extract_path (Ptr b) (length b) (Ptr []) H2_STREAM_PATH_CAP = Some (H2_OK, Ptr path)"
  shows "\<exists>c. conn_run (map Feed pieces) (Ptr (h2_connection_init z)) = Some (Ptr c) \<and>
     h2_connection_output (Ptr c) = Ptr (settings_frame @ settings_ack_frame @ response_frames sid path) \<and>
     c_input c = [] \<and> c_responses_sent c = 1 \<and> c_last_stream_id c = sid"
proof -
  from first_request [OF assms(2-8) assms(1), of z] obtain c where
    c: "run_input (behind (concat pieces) (h2_connection_init z)) = Some (H2_OK, c)"
    "pending c = settings_frame @ settings_ack_frame @ response_frames sid path"
    "c_input c = []" "c_responses_sent c = 1" "c_last_stream_id c = sid" by blast
  have i: "c_input (h2_connection_init z) = []" "\<not> c_preface_seen (h2_connection_init z)"
    by (simp_all add: h2_connection_init_def zero_connection_def)
  have "run_input (h2_connection_init z) = Some (H2_OK, h2_connection_init z)"
    using i by (simp add: run_input_def h2_connection_feed_preface_def H2_CLIENT_PREFACE_LEN_def)
  moreover have "length (concat pieces) \<le> H2_CONN_INPUT_CAP"
    using assms(4) by (simp add: assms(1) H2_CLIENT_PREFACE_def H2_CONN_INPUT_CAP_def)
  ultimately have "conn_run (map Feed pieces) (Ptr (h2_connection_init z)) = Some (Ptr c)"
    using pieces_as_one [OF init_conn_ok _ c(1)] i by simp
  moreover have "h2_connection_output (Ptr c) = Ptr (pending c)"
  proof -
    have "length (pending c) \<noteq> 0" by (simp only: c(2) settings_frame_def length_append length_frame_bytes)
    then show ?thesis by (simp add: h2_connection_output_def pending_def)
  qed
  ultimately show ?thesis using c by auto
qed

text \<open>The request of \<open>GET /\<close>, sent one byte at a time.\<close>

lemma request_on_the_wire_witness:
  "\<exists>c. conn_run (map Feed (map (\<lambda>x. [x]) (H2_CLIENT_PREFACE @ frame_bytes H2_FRAME_SETTINGS 0 0 [] @
        frame_bytes H2_FRAME_HEADERS (H2_FLAG_END_HEADERS OR H2_FLAG_END_STREAM) 1 [0x84]))) (Ptr (h2_connection_init zero_connection)) =
      Some (Ptr c) \<and>
     h2_connection_output (Ptr c) = Ptr (settings_frame @ settings_ack_frame @ response_frames 1 (lit ''/'')) \<and>
     c_input c = [] \<and> c_responses_sent c = 1 \<and> c_last_stream_id c = 1"
proof -
  let ?w = "H2_CLIENT_PREFACE @ frame_bytes H2_FRAME_SETTINGS 0 0 [] @
        frame_bytes H2_FRAME_HEADERS (H2_FLAG_END_HEADERS OR H2_FLAG_END_STREAM) 1 [0x84]"
  have "concat (map (\<lambda>x. [x]) w) = w" for w :: "byte list" by (induction w) simp_all
  then have "concat (map (\<lambda>x. [x]) ?w) = ?w" by blast
  moreover have "length [0x84 :: byte] \<le> 16384" by simp
  moreover have "(H2_FLAG_END_HEADERS OR H2_FLAG_END_STREAM) AND H2_FLAG_END_HEADERS \<noteq> 0"
    "(H2_FLAG_END_HEADERS OR H2_FLAG_END_STREAM) AND H2_FLAG_PADDED = 0"
    "(H2_FLAG_END_HEADERS OR H2_FLAG_END_STREAM) AND H2_FLAG_PRIORITY = 0" by simp_all
  moreover have "h2_hpack_extract_path (Ptr [0x84]) (length [0x84 :: byte]) (Ptr []) H2_STREAM_PATH_CAP = Some (H2_OK, Ptr (lit ''/''))"
    using extract_root_path by simp
  moreover have "(1 :: u32) AND 1 \<noteq> 0" "(1 :: u32) AND 0x7fffffff = 1" by simp_all
  ultimately show ?thesis by (intro request_on_the_wire)
qed

end
