(* ===== verification/Connection_Deferred.thy ===== *)
theory Connection_Deferred
  imports Connection_Protocol
begin

unbundle bit_operations_syntax

section \<open>Responses that wait for a window\<close>

text \<open>
  A response whose body does not fit in the send windows is deferred: its HEADERS frame is sent, its
  DATA frame waits. This theory describes what \<open>h2_connection_flush_deferred_responses\<close>, which runs
  for every WINDOW_UPDATE, sends and leaves, and what a SETTINGS frame that changes the
  initial window does to the table.
\<close>

subsection \<open>The flush\<close>

definition live_deferred :: "h2_stream \<Rightarrow> bool" where
  "live_deferred s \<longleftrightarrow> s_id s \<noteq> 0 \<and> s_state s \<noteq> H2_STREAM_STATE_CLOSED \<and> s_response_body_deferred s \<and> \<not> s_response_sent s"

definition body_length :: "h2_stream \<Rightarrow> int" where
  "body_length s = int (length (response_body (s_path s)))"

lemma live_deferred_after [simp]: "\<not> live_deferred (responded s)" "live_deferred s \<Longrightarrow> live_deferred (postponed s)"
  by (auto simp: live_deferred_def responded_def postponed_def)

lemma response_body_named: "response_body (s_path (named_path s)) = response_body (s_path s)"
  by (simp add: named_path_def response_body_def cstr_id lit_def)

lemma postponed_same [simp]: "body_fits w (postponed s) = body_fits w s" "body_length (postponed s) = body_length s"
  using response_body_named [of s] by (simp_all add: body_fits_def postponed_def body_length_def)

lemma body_fits_mono: "body_fits w s \<Longrightarrow> w \<le> v \<Longrightarrow> body_fits v s"
  by (auto simp: body_fits_def)

lemma remaining_le: "length (remaining_frames s fits) \<le> length (remaining_frames s True)"
  by (simp add: remaining_frames_def)

lemma awaiting_deferred: "conn_ok c \<Longrightarrow> k < 128 \<Longrightarrow> live_deferred (c_streams c ! k) \<Longrightarrow> awaiting (c_streams c ! k)"
  using conn_okD(3) [of c k] by (auto simp: live_deferred_def slot_ok_def deferred_ok_def awaiting_def)

text \<open>The slots of a range whose response waits, and what a flush of them does: \<open>answered\<close> are those it
  finishes.\<close>

definition waiting :: "h2_connection \<Rightarrow> nat list \<Rightarrow> nat list" where
  "waiting c slots = filter (\<lambda>k. live_deferred (c_streams c ! k)) slots"

definition flushed :: "h2_connection \<Rightarrow> nat list \<Rightarrow> h2_connection \<Rightarrow> bool" where
  "flushed c slots c' \<longleftrightarrow>
     (let sent = (\<lambda>k. \<not> live_deferred (c_streams c' ! k)) in
      pending c' = pending c @ concat (map (\<lambda>k. remaining_frames (c_streams c ! k) (sent k)) slots) \<and>
      c_conn_send_window c' = c_conn_send_window c - (\<Sum>k\<leftarrow>slots. if sent k then body_length (c_streams c ! k) else 0) \<and>
      c_responses_sent c' = c_responses_sent c + of_nat (length (filter sent slots)) \<and>
      (\<forall>k < 128. c_streams c' ! k =
         (if k \<notin> set slots then c_streams c ! k
          else if sent k then responded (c_streams c ! k) else postponed (c_streams c ! k))) \<and>
      (\<forall>k \<in> set slots. \<not> sent k \<longrightarrow> \<not> body_fits (c_conn_send_window c') (c_streams c' ! k)))"

lemma flush_loop:
  "conn_ok c \<Longrightarrow> pos + n \<le> 128 \<Longrightarrow>
     length (pending c) + length (concat (map (\<lambda>k. remaining_frames (c_streams c ! k) True) (waiting c [pos..<pos + n]))) \<le> H2_CONN_OUTPUT_CAP \<Longrightarrow>
     \<exists>c'. h2_connection_flush_deferred_responses_loop c pos n = Some (H2_OK, c') \<and> flushed c (waiting c [pos..<pos + n]) c'"
proof (induction n arbitrary: pos c)
  case 0
  then show ?case by (simp add: waiting_def flushed_def)
next
  case (Suc n)
  let ?s = "c_streams c ! pos"
  define W where "W = waiting c [Suc pos..<Suc pos + n]"
  have len: "length (c_streams c) = 128" using conn_okD(2) [OF Suc.prems(1)] .
  have s: "rd (c_streams c) pos = Some ?s" using len Suc.prems(2) by (simp add: rd_in)
  have range: "[pos..<pos + Suc n] = pos # [Suc pos..<Suc pos + n]" by (simp add: upt_conv_Cons)
  show ?case
  proof (cases "live_deferred ?s")
    case False
    then have W: "waiting c [pos..<pos + Suc n] = W" unfolding W_def waiting_def range by simp
    have "h2_connection_queue_response c pos = Some (H2_OK, c)" if "s_response_sent ?s"
      using queue_response_eq [OF Suc.prems(1), of pos ?s] Suc.prems(2) that by simp
    then have "h2_connection_flush_deferred_responses_loop c pos (Suc n) = h2_connection_flush_deferred_responses_loop c (Suc pos) n"
      using s False by (auto simp: live_deferred_def)
    then show ?thesis using Suc.IH [of c "Suc pos"] Suc.prems unfolding W W_def by simp
  next
    case True
    define fits where "fits = body_fits (c_conn_send_window c) ?s"
    have W: "waiting c [pos..<pos + Suc n] = pos # W" using True unfolding W_def waiting_def range by simp
    have aw: "awaiting ?s" "\<not> s_response_sent ?s"
      using awaiting_deferred [OF Suc.prems(1) _ True] Suc.prems(2) True by (simp_all add: live_deferred_def)
    have room: "length (pending c) + length (remaining_frames ?s fits) \<le> H2_CONN_OUTPUT_CAP"
      using Suc.prems(3) remaining_le [of ?s fits] unfolding W by simp
    obtain c1 where c1: "h2_connection_queue_response c pos = Some (H2_OK, c1)" "pending c1 = pending c @ remaining_frames ?s fits"
      "c_streams c1 = (c_streams c)[pos := if fits then responded ?s else postponed ?s]"
      "c_conn_send_window c1 = c_conn_send_window c - (if fits then body_length ?s else 0)"
      "c_responses_sent c1 = c_responses_sent c + (if fits then 1 else 0)"
      using queue_response_outcome [OF Suc.prems(1) _ refl aw fits_def room] Suc.prems(2) by (auto simp: body_length_def)
    have ok1: "conn_ok c1" using queue_response_keeps [OF Suc.prems(1) _ aw(1)] Suc.prems(2) c1(1) by simp
    have other: "c_streams c1 ! k = c_streams c ! k" if "k \<noteq> pos" for k using that by (simp add: c1(3))
    have W1: "waiting c1 [Suc pos..<Suc pos + n] = W" unfolding W_def waiting_def by (rule filter_cong) (auto simp: other)
    have notin: "pos \<notin> set W" by (simp add: W_def waiting_def)
    have same: "c_streams c1 ! k = c_streams c ! k" if "k \<in> set W" for k using that notin other [of k] by blast
    have frames: "map (\<lambda>k. remaining_frames (c_streams c1 ! k) (b k)) W = map (\<lambda>k. remaining_frames (c_streams c ! k) (b k)) W" for b
      by (intro map_cong) (simp_all add: same)
    have lens: "map (\<lambda>k. if b k then body_length (c_streams c1 ! k) else 0) W = map (\<lambda>k. if b k then body_length (c_streams c ! k) else 0) W" for b
      by (intro map_cong) (simp_all add: same)
    have "length (pending c1) + length (concat (map (\<lambda>k. remaining_frames (c_streams c1 ! k) True) W)) \<le> H2_CONN_OUTPUT_CAP"
      using Suc.prems(3) remaining_le [of ?s fits] unfolding W c1(2) frames by simp
    then obtain c' where c': "h2_connection_flush_deferred_responses_loop c1 (Suc pos) n = Some (H2_OK, c')" "flushed c1 W c'"
      using Suc.IH [OF ok1, of "Suc pos"] Suc.prems(2) unfolding W1 by auto
    note f = c'(2) [unfolded flushed_def Let_def frames lens c1(2,4,5)]
    have slots: "c_streams c' ! k =
        (if k \<notin> set W then c_streams c1 ! k
         else if \<not> live_deferred (c_streams c' ! k) then responded (c_streams c1 ! k) else postponed (c_streams c1 ! k))"
      if "k < 128" for k
      using f that by blast
    have pos: "pos < 128" using Suc.prems(2) by simp
    have at: "c_streams c' ! pos = (if fits then responded ?s else postponed ?s)"
      using slots [OF pos] notin len pos by (simp add: c1(3))
    have sent: "live_deferred (c_streams c' ! pos) \<longleftrightarrow> \<not> fits" using True by (simp add: at)
    have "c_conn_send_window c' \<le> c_conn_send_window c"
    proof -
      have "0 \<le> (\<Sum>k\<leftarrow>W. if \<not> live_deferred (c_streams c' ! k) then body_length (c_streams c ! k) else 0)"
        by (intro sum_list_nonneg) (auto simp: body_length_def)
      then show ?thesis using f by (simp add: body_length_def)
    qed
    then have stuck: "\<not> fits \<Longrightarrow> \<not> body_fits (c_conn_send_window c') (c_streams c' ! pos)"
      using body_fits_mono by (auto simp: at fits_def)
    have "flushed c (pos # W) c'"
      unfolding flushed_def Let_def
    proof (intro conjI allI impI ballI)
      fix k :: nat assume k: "k < 128"
      show "c_streams c' ! k =
         (if k \<notin> set (pos # W) then c_streams c ! k
          else if \<not> live_deferred (c_streams c' ! k) then responded (c_streams c ! k) else postponed (c_streams c ! k))"
      proof (cases "k = pos")
        case True
        then show ?thesis using at sent by simp
      next
        case False
        then have member: "k \<notin> set (pos # W) \<longleftrightarrow> k \<notin> set W" by simp
        show ?thesis unfolding member using slots [OF k] unfolding other [OF False] .
      qed
    next
      fix k assume "k \<in> set (pos # W)" "\<not> \<not> live_deferred (c_streams c' ! k)"
      then show "\<not> body_fits (c_conn_send_window c') (c_streams c' ! k)"
        using f stuck sent by (cases "k = pos") auto
    qed (use f sent in simp_all)
    moreover have "h2_connection_flush_deferred_responses_loop c pos (Suc n) = Some (H2_OK, c')"
      using s True c1(1) c'(1) by (simp add: live_deferred_def)
    ultimately show ?thesis unfolding W by blast
  qed
qed


subsection \<open>WINDOW_UPDATE\<close>

text \<open>The connection with the increment of a WINDOW_UPDATE frame added to the window it names.\<close>

definition credited :: "h2_connection \<Rightarrow> u32 \<Rightarrow> u32 \<Rightarrow> h2_connection option" where
  "credited c sid inc =
     (if sid = 0 then
        (if c_conn_send_window c + uint inc \<le> INT32_MAX
         then Some (c\<lparr>c_conn_send_window := c_conn_send_window c + uint inc\<rparr>) else None)
      else
        (case h2_connection_find_stream c sid of
           NULL \<Rightarrow> None
         | Ptr i \<Rightarrow>
             let s = c_streams c ! i in
             if s_send_window s + uint inc \<le> INT32_MAX
             then Some (set_stream c i (s\<lparr>s_send_window := s_send_window s + uint inc\<rparr>)) else None))"

lemma credited_step:
  assumes "conn_ok c" "unat (fh_length h) \<le> length p"
    and "h2_frame_parse_window_update (Ptr h) (Ptr p) (Ptr 0) = Some (H2_OK, Ptr inc)"
    and "credited c (fh_stream_id h) inc = Some c1"
  shows "conn_ok c1 \<and> h2_connection_process_window_update c h p = h2_connection_flush_deferred_responses c1"
proof -
  have inc: "inc \<noteq> 0" "uint inc \<le> INT32_MAX" using parsed_increment [OF assms(2)] assms(3) by auto
  then have cast: "cast_i32 (uint inc) = uint inc" by (intro cast_i32_nonneg) simp_all
  show ?thesis
  proof (cases "fh_stream_id h = 0")
    case True
    have w: "0 \<le> c_conn_send_window c + uint inc" using conn_okD(9) [OF assms(1)] by simp
    with True assms(1,4) have "conn_ok c1" by (auto simp: credited_def intro!: conn_ok_send_window split: if_splits)
    moreover have "i32 (c_conn_send_window c + uint inc) = Some (c_conn_send_window c + uint inc)"
      using w True assms(4) by (auto simp: credited_def i32_def INT32_MIN_def split: if_splits)
    ultimately show ?thesis
      using True assms(3,4) cast by (auto simp: credited_def h2_connection_process_window_update_def split: if_splits)
  next
    case False
    then obtain i where i: "h2_connection_find_stream c (fh_stream_id h) = Ptr i"
      using assms(4) by (auto simp: credited_def split: ptr.splits)
    note s = find_stream_Ptr [OF assms(1) i]
    let ?s = "c_streams c ! i" and ?t = "(c_streams c ! i)\<lparr>s_send_window := s_send_window (c_streams c ! i) + uint inc\<rparr>"
    have c1: "s_send_window ?s + uint inc \<le> INT32_MAX" "c1 = set_stream c i ?t"
      using False i assms(4) by (auto simp: credited_def Let_def split: if_splits)
    have "stream_ok ?s" using s(3) by (simp add: slot_ok_def)
    then have add: "h2_stream_add_send_window (Ptr ?s) inc = Some (H2_OK, Ptr ?t)"
      using add_send_window_cases [of ?s inc] inc c1(1) by simp
    have "slot_ok ?t" using s(3) c1(1) by (auto simp: slot_ok_def stream_ok_def deferred_ok_def window_grows)
    then have "conn_ok c1" using assms(1) s(1) by (auto simp: c1(2) intro: conn_ok_set_stream)
    then show ?thesis
      using False i s(4) add assms(3) by (simp add: h2_connection_process_window_update_def c1(2) Let_def)
  qed
qed


subsection \<open>A connection with a deferred response\<close>

text \<open>Stream 1 has got its headers; the body, a slash and a newline, does not fit in its send window.\<close>

definition deferred_stream :: "int \<Rightarrow> h2_stream" where
  "deferred_stream window = \<lparr>s_id = 1, s_state = H2_STREAM_STATE_HALF_CLOSED_REMOTE, s_send_window = window,
     s_recv_window = 65535, s_response_headers_sent = True, s_response_body_deferred = True,
     s_response_sent = False, s_path = lit ''/''\<rparr>"

definition deferred_connection :: h2_connection where
  "deferred_connection = (set_stream fresh_connection 0 (deferred_stream 1))\<lparr>c_last_stream_id := 1, c_initial_stream_window := 1\<rparr>"

lemma slots_128: "replicate 128 z = z # replicate 127 z"
proof -
  have "(128 :: nat) = Suc 127" by simp
  then show ?thesis by (simp only: replicate_Suc)
qed

lemma deferred_simps:
  "c_streams deferred_connection = deferred_stream 1 # replicate 127 zero_stream" "c_conn_send_window deferred_connection = 65535"
  "pending deferred_connection = []" "c_initial_stream_window deferred_connection = 1" "\<not> c_header_block_open deferred_connection"
  "c_responses_sent deferred_connection = 0"
  by (simp_all add: deferred_connection_def fresh_simps slots_128)

lemma deferred_ok: "conn_ok deferred_connection"
proof -
  have fresh: "c_last_stream_id fresh_connection < 1" "(1 :: u32) AND 1 \<noteq> 0" "c_initial_stream_window fresh_connection = 65535"
    by (simp_all add: fresh_simps)
  have "h2_connection_get_stream fresh_connection 1 = (Ptr 0, set_stream fresh_connection 0 (h2_stream_init zero_stream 1 65535))"
  proof -
    have z: "s_id zero_stream = 0" by (simp add: zero_stream_def)
    have slots: "c_streams fresh_connection = zero_stream # replicate 127 zero_stream" by (simp add: fresh_simps slots_128)
    have "h2_connection_find_stream fresh_connection 1 = NULL"
      unfolding h2_connection_find_stream_def slots by (simp add: scan_NULL_iff z)
    then show ?thesis by (simp add: h2_connection_get_stream_def slots z fresh(3))
  qed
  from get_stream_keeps(2) [OF fresh_ok fresh(1,2) this]
  have "conn_ok ((set_stream fresh_connection 0 (h2_stream_init zero_stream 1 65535))\<lparr>c_last_stream_id := 1\<rparr>)" .
  from conn_ok_set_stream [OF this, of 0 "deferred_stream 1"]
  have "conn_ok (set_stream ((set_stream fresh_connection 0 (h2_stream_init zero_stream 1 65535))\<lparr>c_last_stream_id := 1\<rparr>) 0 (deferred_stream 1))"
    by (simp add: deferred_stream_def slot_ok_def stream_ok_def deferred_ok_def h2_stream_init_def zero_stream_def fresh_simps c_limits lit_def)
  then show ?thesis by (simp add: deferred_connection_def conn_ok_def queue_ok_def c_limits)
qed


lemma deferred_facts:
  "live_deferred (deferred_stream w)" "\<not> live_deferred zero_stream" "body_length (deferred_stream w) = 2"
  "body_fits v (deferred_stream w) \<longleftrightarrow> 2 \<le> v \<and> 2 \<le> w"
  "remaining_frames (deferred_stream w) True = response_data_frame 1 (lit ''/'' @ [10])"
  "responded (deferred_stream w) = zero_stream\<lparr>s_id := 1, s_state := H2_STREAM_STATE_CLOSED\<rparr>"
  by (simp_all add: live_deferred_def body_length_def body_fits_def remaining_frames_def responded_def
      deferred_stream_def zero_stream_def root_body)


subsection \<open>SETTINGS\<close>

definition live_stream :: "h2_stream \<Rightarrow> bool" where
  "live_stream s \<longleftrightarrow> s_id s \<noteq> 0 \<and> s_state s \<noteq> H2_STREAM_STATE_CLOSED"

lemma shift_all:
  "\<forall>s \<in> set ss. live_stream s \<longrightarrow> INT32_MIN \<le> s_send_window s + d \<and> s_send_window s + d \<le> INT32_MAX \<Longrightarrow>
     h2_connection_shift_send_windows d ss =
       (H2_OK, map (\<lambda>s. if live_stream s then s\<lparr>s_send_window := s_send_window s + d\<rparr> else s) ss)"
  by (induction ss) (auto simp: live_stream_def Let_def)

text \<open>C38: a SETTINGS frame with an initial window size moves the send window of every live stream by the
  difference to the old one, leaves closed and unused slots alone, and is
  acknowledged. But that is all it does: the output grows by the acknowledgement only, and every deferred response
  stays deferred, even when its body now fits in both windows, as in the witness below. A client that
  opens a stream's window with SETTINGS gets nothing more until some WINDOW_UPDATE arrives.\<close>

theorem initial_window_moves_streams:
  fixes v :: u32
  assumes "conn_ok c" "\<not> c_header_block_open c" "length (pending c) + 9 \<le> H2_CONN_OUTPUT_CAP" "uint v \<le> INT32_MAX"
    and "d = uint v - c_initial_stream_window c"
    and "\<forall>k < 128. live_stream (c_streams c ! k) \<longrightarrow>
      INT32_MIN \<le> s_send_window (c_streams c ! k) + d \<and> s_send_window (c_streams c ! k) + d \<le> INT32_MAX"
  shows "\<exists>c'. h2_connection_process_frame c \<lparr>fh_length = 6, fh_type = H2_FRAME_SETTINGS, fh_flags = 0, fh_stream_id = 0\<rparr>
        (setting_bytes \<lparr>st_id = H2_SETTINGS_INITIAL_WINDOW_SIZE, st_value = v\<rparr> @ rest) = Some (H2_OK, c') \<and>
     c_initial_stream_window c' = uint v \<and> c_conn_send_window c' = c_conn_send_window c \<and>
     pending c' = pending c @ settings_ack_frame \<and>
     (\<forall>k < 128. c_streams c' ! k =
        (if live_stream (c_streams c ! k)
         then (c_streams c ! k)\<lparr>s_send_window := s_send_window (c_streams c ! k) + d\<rparr> else c_streams c ! k)) \<and>
     (\<forall>k < 128. live_deferred (c_streams c ! k) \<longrightarrow> live_deferred (c_streams c' ! k))"
proof -
  let ?h = "\<lparr>fh_length = 6, fh_type = H2_FRAME_SETTINGS, fh_flags = 0, fh_stream_id = 0\<rparr> :: h2_frame_header"
  let ?s = "\<lparr>st_id = H2_SETTINGS_INITIAL_WINDOW_SIZE, st_value = v\<rparr>"
  let ?f = "\<lambda>s. if live_stream s then s\<lparr>s_send_window := s_send_window s + d\<rparr> else s"
  let ?c = "c\<lparr>c_streams := map ?f (c_streams c), c_initial_stream_window := uint v\<rparr>"
  have len: "length (c_streams c) = 128" using conn_okD(2) [OF assms(1)] .
  have "h2_frame_parse_settings (Ptr ?h) (Ptr (settings_bytes [?s] @ rest)) (Ptr (replicate 32 local_setting)) 32 (Ptr 0)
      = Some (H2_OK, Ptr (patch (replicate 32 local_setting) 0 [?s]), Ptr (length [?s]))"
    by (rule parse_settings_bytes) (simp_all add: H2_MAX_FRAME_SIZE_def)
  moreover have "rd_block (patch (replicate 32 local_setting) 0 [?s]) 1 = Some [?s]"
    by (simp add: rd_block_def patch_def)
  ultimately have parse: "h2_frame_parse_settings (Ptr ?h) (Ptr (setting_bytes ?s @ rest)) (Ptr (replicate 32 local_setting)) 32 (Ptr 0)
      = Some (H2_OK, Ptr (patch (replicate 32 local_setting) 0 [?s]), Ptr 1)"
    "rd_block (patch (replicate 32 local_setting) 0 [?s]) 1 = Some [?s]" by simp_all
  have "\<forall>s \<in> set (c_streams c). live_stream s \<longrightarrow> INT32_MIN \<le> s_send_window s + d \<and> s_send_window s + d \<le> INT32_MAX"
    using assms(6) len by (auto simp: in_set_conv_nth)
  then have "h2_connection_shift_send_windows d (c_streams c) = (H2_OK, map ?f (c_streams c))" by (rule shift_all)
  then have "h2_connection_apply_settings_loop c [?s] = (H2_OK, ?c)"
    using assms(4,5) by (simp add: h2_connection_apply_setting_def Let_def)
  moreover have "queue_ok ?c" using conn_okD(1) [OF assms(1)] by (simp add: queue_ok_def)
  moreover have "push ?c settings_ack_frame = (H2_OK, queued ?c settings_ack_frame)"
    using assms(3) by (simp add: push_def pending_def settings_ack_frame_def)
  ultimately have "h2_connection_apply_settings c ?h (setting_bytes ?s @ rest) = Some (H2_OK, queued ?c settings_ack_frame)"
    using parse queue_settings_ack_eq [of ?c] by (simp add: h2_connection_apply_settings_def)
  moreover have "\<not> 6 > c_max_frame_size c"
    using assms(1) by (auto simp: conn_ok_def H2_DEFAULT_MAX_FRAME_SIZE_def word_less_nat_alt)
  ultimately have "h2_connection_process_frame c ?h (setting_bytes ?s @ rest) = Some (H2_OK, queued ?c settings_ack_frame)"
    using assms(2) by (simp add: h2_connection_process_frame_def)
  then show ?thesis
    using len by (intro exI [of _ "queued ?c settings_ack_frame"]) (auto simp: queued_def pending_def live_deferred_def)
qed

lemma initial_window_moves_streams_witness:
  "\<exists>c'. h2_connection_process_frame deferred_connection \<lparr>fh_length = 6, fh_type = H2_FRAME_SETTINGS, fh_flags = 0, fh_stream_id = 0\<rparr>
        (setting_bytes \<lparr>st_id = H2_SETTINGS_INITIAL_WINDOW_SIZE, st_value = 100\<rparr> @ []) = Some (H2_OK, c') \<and>
     pending c' = settings_ack_frame \<and> live_deferred (c_streams c' ! 0) \<and>
     body_fits (c_conn_send_window c') (c_streams c' ! 0)"
proof -
  have slots: "c_streams deferred_connection ! k = (if k = 0 then deferred_stream 1 else zero_stream)" if "k < 128" for k
    using that by (cases k) (simp_all add: deferred_simps)
  have live_stream: "live_stream (deferred_stream w)" "\<not> live_stream zero_stream" "s_send_window (deferred_stream 1) = 1"
    "(deferred_stream 1)\<lparr>s_send_window := 100\<rparr> = deferred_stream 100" for w
    by (simp_all add: live_stream_def deferred_stream_def zero_stream_def)
  have room: "length (pending deferred_connection) + 9 \<le> H2_CONN_OUTPUT_CAP" "uint (100 :: u32) \<le> INT32_MAX"
    by (simp_all add: deferred_simps H2_CONN_OUTPUT_CAP_def INT32_MAX_def)
  have d: "(99 :: int) = uint (100 :: u32) - c_initial_stream_window deferred_connection" by (simp add: deferred_simps)
  have range: "\<forall>k < 128. live_stream (c_streams deferred_connection ! k) \<longrightarrow>
      INT32_MIN \<le> s_send_window (c_streams deferred_connection ! k) + 99 \<and> s_send_window (c_streams deferred_connection ! k) + 99 \<le> INT32_MAX"
    by (simp add: slots live_stream c_limits)
  obtain c' where c': "h2_connection_process_frame deferred_connection \<lparr>fh_length = 6, fh_type = H2_FRAME_SETTINGS, fh_flags = 0, fh_stream_id = 0\<rparr>
        (setting_bytes \<lparr>st_id = H2_SETTINGS_INITIAL_WINDOW_SIZE, st_value = 100\<rparr> @ []) = Some (H2_OK, c')"
     "c_conn_send_window c' = 65535" "pending c' = settings_ack_frame" "c_streams c' ! 0 = deferred_stream 100"
    using initial_window_moves_streams [OF deferred_ok deferred_simps(5) room d range, of "[]"] slots [of 0] live_stream
    by (auto simp: deferred_simps)
  then show ?thesis by (simp add: deferred_facts)
qed

end
