(* ===== verification/Doom_Crc.thy ===== *)
theory Doom_Crc
  imports Prelude
begin

unbundle bit_operations_syntax

section \<open>The frame checksum of the headless DOOM driver\<close>

text \<open>
  \<open>crc32_update\<close> of \<open>src/phase1/doom/headless/i_video_headless.c\<close>: the reflected CRC-32, one bit at a
  time. The lemmas relate it to its table-driven form, show that it can be computed piece by piece,
  and that it detects every change within four consecutive bytes.
\<close>

subsection \<open>The loops\<close>

text \<open>One iteration of the inner loop: \<open>(uint32_t)-(int)(crc & 1)\<close> is \<open>- (crc AND 1)\<close>.\<close>

definition crc32_bit :: "u32 \<Rightarrow> u32" where
  "crc32_bit crc = drop_bit 1 crc XOR (0xedb88320 AND - (crc AND 1))"

definition crc32_byte :: "u32 \<Rightarrow> byte \<Rightarrow> u32" where
  "crc32_byte crc b = (crc32_bit ^^ 8) (crc XOR ucast b)"

text \<open>The outer loop from index \<open>i\<close> on, \<open>n\<close> bytes to go.\<close>

fun crc32_loop :: "byte list \<Rightarrow> nat \<Rightarrow> nat \<Rightarrow> u32 \<Rightarrow> u32 option" where
  "crc32_loop data i 0 crc = Some crc"
| "crc32_loop data i (Suc n) crc = do {
     b \<leftarrow> rd data i;
     crc32_loop data (Suc i) n (crc32_byte crc b)
   }"

definition crc32_update :: "u32 \<Rightarrow> byte list \<Rightarrow> nat \<Rightarrow> u32 option" where
  "crc32_update crc data len = do {
     crc \<leftarrow> crc32_loop data 0 len (NOT crc);
     Some (NOT crc)
   }"

subsection \<open>The sum of a list of bytes\<close>

definition crc32_sum :: "u32 \<Rightarrow> byte list \<Rightarrow> u32" where
  "crc32_sum crc data = NOT (foldl crc32_byte (NOT crc) data)"

lemma crc32_loop_eq: "i + n \<le> length data \<Longrightarrow> crc32_loop data i n crc = Some (foldl crc32_byte crc (take n (drop i data)))"
proof (induction n arbitrary: i crc)
  case (Suc n)
  then have "drop i data = data ! i # drop (Suc i) data" by (simp add: Cons_nth_drop_Suc)
  with Suc show ?case by (simp add: rd_in)
qed simp

lemma crc32_update_eq: "len \<le> length data \<Longrightarrow> crc32_update crc data len = Some (crc32_sum crc (take len data))"
  by (simp add: crc32_update_def crc32_loop_eq crc32_sum_def)

lemma crc32_loop_run_iff: "crc32_loop data i n crc = None \<longleftrightarrow> 0 < n \<and> length data < i + n"
proof (induction n arbitrary: i crc)
  case (Suc n)
  then show ?case by (cases "i < length data") (auto simp: rd_def)
qed simp

lemma crc32_sum_append: "crc32_sum crc (xs @ ys) = crc32_sum (crc32_sum crc xs) ys"
  by (simp add: crc32_sum_def)

lemma crc32_sum_Nil [simp]: "crc32_sum crc [] = crc"
  by (simp add: crc32_sum_def)

subsection \<open>Linearity and the table\<close>

lemma neg_low_bit: "- (x AND 1) = (if bit x 0 then - 1 else 0 :: u32)"
  by (simp add: and_one_eq odd_iff_mod_2_eq_one bit_0)

lemma crc32_bit_alt: "crc32_bit x = drop_bit 1 x XOR (if bit x 0 then 0xedb88320 else 0)"
  by (simp add: crc32_bit_def neg_low_bit)

lemma crc32_bit_0 [simp]: "crc32_bit 0 = 0"
  by (simp add: crc32_bit_alt)

lemma crc32_bit_xor: "crc32_bit (x XOR y) = crc32_bit x XOR crc32_bit y"
  by (simp add: crc32_bit_alt drop_bit_xor bit_xor_iff ac_simps)

lemma crc32_bits_xor: "(crc32_bit ^^ n) (x XOR y) = (crc32_bit ^^ n) x XOR (crc32_bit ^^ n) y"
  by (induction n) (simp_all add: crc32_bit_xor)

lemma crc32_bits_shift: "\<forall>i < n. \<not> bit x i \<Longrightarrow> (crc32_bit ^^ n) x = drop_bit n x"
proof (induction n arbitrary: x)
  case (Suc n)
  have "crc32_bit x = drop_bit 1 x" using Suc.prems by (simp add: crc32_bit_alt)
  moreover have "\<forall>i < n. \<not> bit (drop_bit 1 x) i" using Suc.prems by (simp add: bit_drop_bit_eq)
  ultimately show ?case using Suc.IH by (simp add: funpow_swap1 del: drop_bit_Suc)
qed simp

definition crc32_table :: "u32 \<Rightarrow> u32" where
  "crc32_table i = (crc32_bit ^^ 8) i"

lemma low_byte_mask: "(0xff :: u32) = mask 8"
  by (simp add: mask_eq_exp_minus_1)

lemma low_high: "x = (x AND 0xff) XOR push_bit 8 (drop_bit 8 x)" for x :: u32
  unfolding low_byte_mask
  by (rule bit_eqI) (auto simp: bit_xor_iff bit_and_iff bit_mask_iff bit_push_bit_iff bit_drop_bit_eq)

lemma drop_high: "drop_bit 8 (ucast b :: u32) = 0" for b :: byte
  by (rule bit_eqI) (auto simp: bit_drop_bit_eq bit_ucast_iff dest: bit_imp_le_length)

lemma crc32_bits_push: "(crc32_bit ^^ n) (push_bit n x) = drop_bit n (push_bit n x)" for x :: u32
  by (rule crc32_bits_shift) (simp add: bit_push_bit_iff)

lemma drop_push_drop: "drop_bit 8 (push_bit 8 (drop_bit 8 x)) = drop_bit 8 x" for x :: u32
  by (rule bit_eqI) (auto simp: bit_drop_bit_eq bit_push_bit_iff dest: bit_imp_le_length)

lemma crc32_byte_table:
  "crc32_byte crc b = crc32_table ((crc XOR ucast b) AND 0xff) XOR drop_bit 8 crc"
proof -
  let ?x = "crc XOR ucast b :: u32"
  have "(crc32_bit ^^ 8) ?x = (crc32_bit ^^ 8) (?x AND 0xff) XOR (crc32_bit ^^ 8) (push_bit 8 (drop_bit 8 ?x))"
    using low_high [of ?x] crc32_bits_xor by metis
  moreover have "(crc32_bit ^^ 8) (push_bit 8 (drop_bit 8 ?x)) = drop_bit 8 ?x"
    by (simp only: crc32_bits_push drop_push_drop)
  moreover have "drop_bit 8 ?x = drop_bit 8 crc" by (simp add: drop_bit_xor drop_high)
  ultimately show ?thesis by (simp only: crc32_byte_def crc32_table_def)
qed

subsection \<open>Every step is injective\<close>

lemma crc32_bit_eq_0: "crc32_bit x = 0 \<Longrightarrow> x = 0"
proof -
  assume z: "crc32_bit x = 0"
  have "\<not> bit (drop_bit 1 x) 31" by (auto simp: bit_drop_bit_eq dest: bit_imp_le_length)
  moreover have "bit (0xedb88320 :: u32) 31" by simp
  ultimately have "bit (crc32_bit x) 31 = bit x 0" by (simp add: crc32_bit_alt bit_xor_iff)
  with z have "\<not> bit x 0" by simp
  with z have "drop_bit 1 x = 0" by (simp add: crc32_bit_alt)
  show "x = 0"
  proof (rule bit_eqI)
    fix n
    show "bit x n = bit 0 n"
    proof (cases n)
      case (Suc m)
      have "bit (drop_bit 1 x) m = bit x (1 + m)" by (simp only: bit_drop_bit_eq comp_apply)
      with \<open>drop_bit 1 x = 0\<close> Suc show ?thesis by simp
    qed (use \<open>\<not> bit x 0\<close> in simp)
  qed
qed

lemma xor_twice: "(x XOR z) XOR z = x" for x z :: u32
  by (simp add: xor.assoc)

lemma xor_left_cancel: "x XOR z = y XOR z \<longleftrightarrow> x = y" for x y z :: u32
  by (metis xor_twice)

lemma xor_eq_0: "x XOR y = 0 \<Longrightarrow> x = y" for x y :: u32
  by (metis xor_twice xor.left_neutral)

lemma crc32_bits_inj: "(crc32_bit ^^ n) x = (crc32_bit ^^ n) y \<Longrightarrow> x = y"
proof (induction n arbitrary: x y)
  case (Suc n)
  from Suc.prems have "crc32_bit ((crc32_bit ^^ n) x) = crc32_bit ((crc32_bit ^^ n) y)" by simp
  then have "crc32_bit ((crc32_bit ^^ n) x XOR (crc32_bit ^^ n) y) = 0" by (simp only: crc32_bit_xor xor_self_eq)
  then have "(crc32_bit ^^ n) x = (crc32_bit ^^ n) y" by (rule xor_eq_0 [OF crc32_bit_eq_0])
  then show ?case by (rule Suc.IH)
qed simp

lemma crc32_bytes_inj: "foldl crc32_byte x data = foldl crc32_byte y data \<Longrightarrow> x = y"
proof (induction data arbitrary: x y)
  case (Cons b data)
  then have "crc32_byte x b = crc32_byte y b" by simp
  then have "x XOR ucast b = y XOR ucast b" unfolding crc32_byte_def by (rule crc32_bits_inj)
  then show ?case by (simp add: xor_left_cancel)
qed simp

text \<open>Up to four bytes, as one little-endian word.\<close>

fun le_word :: "byte list \<Rightarrow> u32" where
  "le_word [] = 0"
| "le_word (b # bs) = ucast b XOR push_bit 8 (le_word bs)"

lemma le_word_bits: "bit (le_word bs) i \<Longrightarrow> i < 8 * length bs"
proof (induction bs arbitrary: i)
  case (Cons b bs)
  show ?case
  proof (cases "8 \<le> i")
    case True
    with Cons.prems have "bit (le_word bs) (i - 8)"
      by (auto simp: bit_xor_iff bit_push_bit_iff bit_ucast_iff dest: bit_imp_le_length)
    from Cons.IH [OF this] True show ?thesis by simp
  qed simp
qed simp

lemma le_word_shift: "length bs \<le> 3 \<Longrightarrow> drop_bit 8 (push_bit 8 (le_word bs)) = le_word bs"
  by (rule bit_eqI) (auto simp: bit_drop_bit_eq bit_push_bit_iff dest: le_word_bits)

lemma crc32_bytes_word:
  "length bs \<le> 4 \<Longrightarrow> foldl crc32_byte crc bs = (crc32_bit ^^ (8 * length bs)) (crc XOR le_word bs)"
proof (induction bs arbitrary: crc)
  case (Cons b bs)
  then have "foldl crc32_byte crc (b # bs) = (crc32_bit ^^ (8 * length bs)) (crc32_byte crc b XOR le_word bs)"
    using Cons.IH [of "crc32_byte crc b"] by simp
  also have "crc32_byte crc b = (crc32_bit ^^ 8) (crc XOR ucast b)" by (rule crc32_byte_def)
  also have "le_word bs = (crc32_bit ^^ 8) (push_bit 8 (le_word bs))"
    using Cons.prems by (simp only: crc32_bits_push) (simp add: le_word_shift)
  also have "(crc32_bit ^^ 8) (crc XOR ucast b) XOR (crc32_bit ^^ 8) (push_bit 8 (le_word bs)) =
      (crc32_bit ^^ 8) (crc XOR le_word (b # bs))"
    by (simp only: crc32_bits_xor [symmetric]) (simp add: xor.assoc)
  finally show ?case by (simp only: funpow_add [symmetric, THEN fun_cong, unfolded comp_apply]) (simp add: add.commute)
qed simp

lemma le_word_inj: "length a = length b \<Longrightarrow> length a \<le> 4 \<Longrightarrow> le_word a = le_word b \<Longrightarrow> a = b"
proof (induction a b rule: list_induct2)
  case (Cons x xs y ys)
  have w: "bit x i = bit (le_word (x # xs)) i" if "i < 8" for x xs and i
    using that by (simp add: bit_xor_iff bit_push_bit_iff bit_ucast_iff)
  have "x = y"
  proof (rule bit_eqI)
    fix n
    assume "possible_bit TYPE(8 word) n"
    then have "n < 8" by simp
    from w [OF this, of x xs] w [OF this, of y ys] Cons.prems show "bit x n = bit y n" by (simp only:)
  qed
  have "ucast y XOR push_bit 8 (le_word xs) = ucast y XOR push_bit 8 (le_word ys)"
    using Cons.prems(2) \<open>x = y\<close> by (simp only: le_word.simps)
  then have "push_bit 8 (le_word xs) = push_bit 8 (le_word ys)"
    by (simp only: xor.commute [of "ucast y"] xor_left_cancel)
  then have "drop_bit 8 (push_bit 8 (le_word xs)) = drop_bit 8 (push_bit 8 (le_word ys))" by (simp only:)
  moreover have "length xs \<le> 3" "length ys \<le> 3" using Cons.hyps Cons.prems(1) by simp_all
  ultimately have "le_word xs = le_word ys" by (simp only: le_word_shift)
  then have "xs = ys" using Cons.prems(1) by (intro Cons.IH) simp_all
  with \<open>x = y\<close> show ?case by simp
qed simp

text \<open>C23: the checksum detects every change of a frame that lies within four consecutive bytes: two
  buffers that agree but for such a stretch have different checksums, whatever comes before and after
  and whatever the checksum of the earlier frames.\<close>

theorem crc_detects_burst:
  assumes "length a = length b" "length a \<le> 4" "a \<noteq> b" "n = length (p @ a @ s)"
  shows "crc32_update crc (p @ a @ s) n \<noteq> crc32_update crc (p @ b @ s) n"
proof
  assume "crc32_update crc (p @ a @ s) n = crc32_update crc (p @ b @ s) n"
  then have "foldl crc32_byte (foldl crc32_byte (foldl crc32_byte (NOT crc) p) a) s =
      foldl crc32_byte (foldl crc32_byte (foldl crc32_byte (NOT crc) p) b) s"
    using assms(1,4) by (simp add: crc32_update_eq crc32_sum_def)
  then have "foldl crc32_byte (foldl crc32_byte (NOT crc) p) a = foldl crc32_byte (foldl crc32_byte (NOT crc) p) b"
    by (rule crc32_bytes_inj)
  then have "foldl crc32_byte (NOT crc) p XOR le_word a = foldl crc32_byte (NOT crc) p XOR le_word b"
    using assms(1,2) by (simp add: crc32_bytes_word) (erule crc32_bits_inj)
  then have "le_word a = le_word b" by (metis xor.commute xor_left_cancel)
  with assms(1-3) le_word_inj show False by blast
qed

lemma crc_detects_burst_witness:
  "crc32_update 0 [7, 1, 2, 9] 4 \<noteq> crc32_update 0 [7, 1, 3, 9] 4"
  using crc_detects_burst [of "[1, 2]" "[1, 3]" 4 "[7]" "[9]" 0] by simp

end
