(* ===== verification/Doom_Headless.thy ===== *)
theory Doom_Headless
  imports Doom_Crc C_Numbers
begin

unbundle bit_operations_syntax

section \<open>The headless drivers of DOOM\<close>

text \<open>
  \<open>src/phase1/doom/headless\<close>: the platform layer that replaces the X11 video, the sound server and the
  network driver, so that the game runs under test. The game itself is vendored; what the drivers use
  of it (\<open>screens[0]\<close>, \<open>W_GetNumForName\<close>, \<open>doomcom\<close>) is an argument. The C library is the record
  \<open>doom_env\<close> over a world \<open>'w\<close> and file handles \<open>'f\<close>; a call of \<open>fprintf\<close> is the constructor of its
  format string with the arguments. Leaving the process is the left side of a sum. The functions of
  \<open>i_sound_headless.c\<close> and \<open>i_video_headless.c\<close> with empty bodies are not listed.
\<close>

subsection \<open>Video\<close>

datatype log_line = Log_Started | Log_Frame int u32 | Log_Max_Frames int | Log_Stopped int u32

record ('w, 'f) doom_env =
  env_getenv :: "byte list \<Rightarrow> byte list ptr"
  env_fopen :: "byte list \<Rightarrow> byte list \<Rightarrow> 'w \<Rightarrow> 'f ptr \<times> 'w"
  env_stdout :: 'f
  env_fprintf :: "'f \<Rightarrow> log_line \<Rightarrow> 'w \<Rightarrow> 'w"
  env_fflush :: "'f \<Rightarrow> 'w \<Rightarrow> 'w"
  env_fclose :: "'f \<Rightarrow> 'w \<Rightarrow> 'w"

text \<open>The static variables of \<open>i_video_headless.c\<close>.\<close>

record 'f headless =
  headless_log :: "'f ptr"
  frame_crc :: u32
  frame_count :: int
  max_frames :: int

definition headless_start :: "'f headless" where
  "headless_start = \<lparr>headless_log = NULL, frame_crc = 0, frame_count = 0, max_frames = - 1\<rparr>"

definition SCREEN_SIZE :: nat where
  "SCREEN_SIZE = 320 * 200"

definition log_file :: "('w, 'f) doom_env \<Rightarrow> 'f headless \<Rightarrow> 'w \<Rightarrow> 'f \<times> 'f headless \<times> 'w" where
  "log_file env h w =
     (case headless_log h of
        Ptr f \<Rightarrow> (f, h, w)
      | NULL \<Rightarrow>
          let path = env_getenv env (lit ''DOOM_HEADLESS_LOG'');
              (file, w) = env_fopen env (case path of Ptr p \<Rightarrow> p | NULL \<Rightarrow> lit ''qa/qa-smoke.log'') (lit ''w'') w;
              f = (case file of NULL \<Rightarrow> env_stdout env | Ptr f \<Rightarrow> f);
              h = h\<lparr>headless_log := Ptr f\<rparr>;
              w = env_fprintf env f Log_Started w;
              w = env_fflush env f w
          in (f, h, w))"

definition I_InitGraphics :: "('w, 'f) doom_env \<Rightarrow> 'f headless \<Rightarrow> 'w \<Rightarrow> 'f headless \<times> 'w" where
  "I_InitGraphics env h w = (case log_file env h w of (_, h, w) \<Rightarrow> (h, w))"

definition I_ShutdownGraphics :: "('w, 'f) doom_env \<Rightarrow> 'f headless \<Rightarrow> 'w \<Rightarrow> 'f headless \<times> 'w" where
  "I_ShutdownGraphics env h w =
     (let w = (case headless_log h of
                 NULL \<Rightarrow> w
               | Ptr f \<Rightarrow>
                   if f \<noteq> env_stdout env
                   then env_fclose env f (env_fprintf env f (Log_Stopped (frame_count h) (frame_crc h)) w)
                   else w)
      in (h\<lparr>headless_log := NULL\<rparr>, w))"

text \<open>\<open>fprintf(log_file(), ...)\<close> followed by \<open>fflush(headless_log)\<close>.\<close>

definition log_printf :: "('w, 'f) doom_env \<Rightarrow> log_line \<Rightarrow> 'f headless \<Rightarrow> 'w \<Rightarrow> 'f headless \<times> 'w" where
  "log_printf env line h w = (case log_file env h w of (f, h, w) \<Rightarrow> (h, env_fflush env f (env_fprintf env f line w)))"

definition headless_limit :: "('w, 'f) doom_env \<Rightarrow> int option" where
  "headless_limit env =
     (case env_getenv env (lit ''DOOM_HEADLESS_MAX_FRAMES'') of NULL \<Rightarrow> Some 0 | Ptr text \<Rightarrow> atoi text)"

text \<open>\<open>screen\<close> is the memory \<open>screens[0]\<close> points to. \<open>Inl\<close> is \<open>exit(0)\<close>.\<close>

definition I_FinishUpdate ::
  "('w, 'f) doom_env \<Rightarrow> byte list \<Rightarrow> 'f headless \<Rightarrow> 'w \<Rightarrow> (('f headless \<times> 'w) + ('f headless \<times> 'w)) option" where
  "I_FinishUpdate env screen h w = do {
     h \<leftarrow> (if max_frames h < 0 then do {
              limit \<leftarrow> headless_limit env;
              Some (h\<lparr>max_frames := limit\<rparr>)
            }
            else Some h);
     crc \<leftarrow> crc32_update (frame_crc h) screen SCREEN_SIZE;
     count \<leftarrow> i32 (frame_count h + 1);
     let h = h\<lparr>frame_crc := crc, frame_count := count\<rparr>;
     let (h, w) = (if frame_count h mod 32 = 0 then log_printf env (Log_Frame (frame_count h) (frame_crc h)) h w else (h, w));
     if max_frames h \<noteq> 0 \<and> frame_count h \<ge> max_frames h then
       let (h, w) = log_printf env (Log_Max_Frames (frame_count h)) h w
       in Some (Inl (I_ShutdownGraphics env h w))
     else Some (Inr (h, w))
   }"

definition I_ReadScreen :: "byte list \<Rightarrow> byte list \<Rightarrow> byte list option" where
  "I_ReadScreen scr screen = do {
     bytes \<leftarrow> rd_block screen SCREEN_SIZE;
     wr_block scr 0 bytes
   }"

text \<open>The game calls \<open>I_FinishUpdate\<close> once for every frame it has drawn.\<close>

fun headless_run ::
  "('w, 'f) doom_env \<Rightarrow> byte list list \<Rightarrow> 'f headless \<Rightarrow> 'w \<Rightarrow> (('f headless \<times> 'w) + ('f headless \<times> 'w)) option" where
  "headless_run env [] h w = Some (Inr (h, w))"
| "headless_run env (screen # frames) h w = do {
     r \<leftarrow> I_FinishUpdate env screen h w;
     (case r of
        Inl stopped \<Rightarrow> Some (Inl stopped)
      | Inr (h, w) \<Rightarrow> headless_run env frames h w)
   }"

subsection \<open>Sound\<close>

text \<open>\<open>namebuf\<close> has nine bytes, the terminator included; \<open>lump_num\<close> is \<open>W_GetNumForName\<close>.\<close>

definition I_GetSfxLumpNum :: "(byte list \<Rightarrow> int) \<Rightarrow> byte list \<Rightarrow> int option" where
  "I_GetSfxLumpNum lump_num sfx_name = do {
     namebuf \<leftarrow> store_str 9 (lit ''ds'' @ cstr sfx_name);
     Some (lump_num namebuf)
   }"

definition I_StartSound :: "int \<Rightarrow> int \<Rightarrow> int \<Rightarrow> int \<Rightarrow> int \<Rightarrow> int" where
  "I_StartSound sfx vol sep pitch priority = 0"

definition I_SoundIsPlaying :: "int \<Rightarrow> int" where
  "I_SoundIsPlaying handle = 0"

definition I_RegisterSong :: "'a ptr \<Rightarrow> int" where
  "I_RegisterSong data = 0"

subsection \<open>Network\<close>

text \<open>The fields of \<open>doomcom_t\<close> (\<open>vendor/idoom/linuxdoom-1.10/d_net.h\<close>) that the driver sets, and the
  packet buffer \<open>data\<close>; \<open>dc_rest\<close> stands for the fields it only clears.\<close>

record doomcom =
  dc_id :: int
  dc_remotenode :: int
  dc_numnodes :: int
  dc_ticdup :: int
  dc_consoleplayer :: int
  dc_numplayers :: int
  dc_rest :: "byte list"
  dc_data :: "byte list"

definition DOOMCOM_ID :: int where
  "DOOMCOM_ID = 305419896"

text \<open>\<open>memset\<close> of the whole object, \<open>rest\<close> and \<open>packet\<close> being the sizes of the last two parts.\<close>

definition zero_doomcom :: "nat \<Rightarrow> nat \<Rightarrow> doomcom" where
  "zero_doomcom rest packet = \<lparr>dc_id = 0, dc_remotenode = 0, dc_numnodes = 0, dc_ticdup = 0, dc_consoleplayer = 0,
     dc_numplayers = 0, dc_rest = replicate rest 0, dc_data = replicate packet 0\<rparr>"

text \<open>\<open>I_Error\<close> does not return: \<open>Inl\<close> is its message. The result is the object that \<open>doomcom\<close> then
  points to; \<open>netbuffer\<close> points to its \<open>dc_data\<close>.\<close>

definition I_InitNetwork :: "bool \<Rightarrow> nat \<Rightarrow> nat \<Rightarrow> byte list + doomcom" where
  "I_InitNetwork malloc_ok rest packet =
     (if \<not> malloc_ok then Inl (lit ''doomcom alloc failed'')
      else Inr ((zero_doomcom rest packet)\<lparr>dc_id := DOOMCOM_ID, dc_numplayers := 1, dc_numnodes := 1,
                                          dc_consoleplayer := 0, dc_ticdup := 1\<rparr>))"

definition I_NetCmd :: "doomcom ptr \<Rightarrow> doomcom option" where
  "I_NetCmd com = do {
     com \<leftarrow> deref com;
     Some (com\<lparr>dc_remotenode := - 1\<rparr>)
   }"

subsection \<open>The log file\<close>

lemma log_file_keeps:
  assumes "log_file env h w = (f, h', w')"
  shows "frame_crc h' = frame_crc h" "frame_count h' = frame_count h" "max_frames h' = max_frames h" "headless_log h' = Ptr f"
  using assms by (auto simp: log_file_def Let_def split: ptr.splits prod.splits)

lemma log_printf_keeps:
  assumes "log_printf env line h w = (h', w')"
  shows "frame_crc h' = frame_crc h" "frame_count h' = frame_count h" "max_frames h' = max_frames h"
  using assms log_file_keeps by (fastforce simp: log_printf_def split: prod.splits)+

lemma shutdown_keeps:
  assumes "I_ShutdownGraphics env h w = (h', w')"
  shows "frame_crc h' = frame_crc h" "frame_count h' = frame_count h" "max_frames h' = max_frames h" "headless_log h' = NULL"
  using assms by (auto simp: I_ShutdownGraphics_def Let_def)

subsection \<open>Frames\<close>

text \<open>The limit in force: the variable, once it has been read from the environment.\<close>

definition limit_of :: "('w, 'f) doom_env \<Rightarrow> 'f headless \<Rightarrow> int option" where
  "limit_of env h = (if max_frames h < 0 then headless_limit env else Some (max_frames h))"

lemma finish_update_eq:
  assumes "limit_of env h = Some m" "SCREEN_SIZE \<le> length screen" "- 1 \<le> frame_count h" "frame_count h < INT32_MAX"
  shows "\<exists>h' w'. I_FinishUpdate env screen h w =
      Some (if m \<noteq> 0 \<and> frame_count h + 1 \<ge> m then Inl (h', w') else Inr (h', w')) \<and>
    frame_crc h' = crc32_sum (frame_crc h) (take SCREEN_SIZE screen) \<and> frame_count h' = frame_count h + 1 \<and>
    max_frames h' = m \<and> (m \<noteq> 0 \<and> frame_count h + 1 \<ge> m \<longrightarrow> headless_log h' = NULL)"
proof -
  let ?h = "h\<lparr>max_frames := m, frame_crc := crc32_sum (frame_crc h) (take SCREEN_SIZE screen), frame_count := frame_count h + 1\<rparr>"
  obtain h1 w1 where h1: "(if frame_count ?h mod 32 = 0 then log_printf env (Log_Frame (frame_count ?h) (frame_crc ?h)) ?h w else (?h, w)) = (h1, w1)"
    by fastforce
  then have k1: "frame_crc h1 = frame_crc ?h" "frame_count h1 = frame_count ?h" "max_frames h1 = max_frames ?h"
    using log_printf_keeps [of env _ ?h w h1 w1] by (auto split: if_splits)
  obtain h2 w2 where h2: "log_printf env (Log_Max_Frames (frame_count h1)) h1 w1 = (h2, w2)" by fastforce
  obtain h3 w3 where h3: "I_ShutdownGraphics env h2 w2 = (h3, w3)" by fastforce
  note k2 = log_printf_keeps [OF h2] and k3 = shutdown_keeps [OF h3]
  have start: "(if max_frames h < 0 then do { limit \<leftarrow> headless_limit env; Some (h\<lparr>max_frames := limit\<rparr>) } else Some h) =
      Some (h\<lparr>max_frames := m\<rparr>)"
    using assms(1) by (auto simp: limit_of_def)
  have "i32 (frame_count h + 1) = Some (frame_count h + 1)" using assms(3,4) by (simp add: i32_def c_limits)
  with start have "I_FinishUpdate env screen h w =
      Some (if m \<noteq> 0 \<and> frame_count h + 1 \<ge> m then Inl (h3, w3) else Inr (h1, w1))"
    using assms(2) h1 h2 h3 k1 by (simp add: I_FinishUpdate_def crc32_update_eq)
  then show ?thesis using k1 k2 k3 by (cases "m \<noteq> 0 \<and> frame_count h + 1 \<ge> m") auto
qed

lemma headless_run_from:
  assumes "limit_of env h = Some m" "0 \<le> m" "m \<noteq> 0 \<longrightarrow> frame_count h < m" "0 \<le> frame_count h"
    "frame_count h + int (length frames) \<le> INT32_MAX" "\<forall>screen \<in> set frames. SCREEN_SIZE \<le> length screen"
  shows "\<exists>h' w'. headless_run env frames h w =
      Some (if m \<noteq> 0 \<and> m \<le> frame_count h + int (length frames) then Inl (h', w') else Inr (h', w')) \<and>
    (let n = (if m \<noteq> 0 \<and> m \<le> frame_count h + int (length frames) then nat (m - frame_count h) else length frames)
     in frame_count h' = frame_count h + int n \<and>
        frame_crc h' = crc32_sum (frame_crc h) (concat (map (take SCREEN_SIZE) (take n frames)))) \<and>
    (m \<noteq> 0 \<and> m \<le> frame_count h + int (length frames) \<longrightarrow> headless_log h' = NULL)"
  using assms
proof (induction frames arbitrary: h w)
  case Nil
  then show ?case by auto
next
  case (Cons screen frames)
  from Cons.prems finish_update_eq [of env h m screen w] obtain h1 w1 where
    step: "I_FinishUpdate env screen h w = Some (if m \<noteq> 0 \<and> frame_count h + 1 \<ge> m then Inl (h1, w1) else Inr (h1, w1))" and
    h1: "frame_crc h1 = crc32_sum (frame_crc h) (take SCREEN_SIZE screen)" "frame_count h1 = frame_count h + 1" "max_frames h1 = m"
      "m \<noteq> 0 \<and> frame_count h + 1 \<ge> m \<longrightarrow> headless_log h1 = NULL"
    by auto
  show ?case
  proof (cases "m \<noteq> 0 \<and> frame_count h + 1 \<ge> m")
    case True
    with Cons.prems have "m = frame_count h + 1" by simp
    with True step h1 Cons.prems show ?thesis by (auto simp: Let_def)
  next
    case False
    let ?stop = "m \<noteq> 0 \<and> m \<le> frame_count h1 + int (length frames)"
    let ?n = "if ?stop then nat (m - frame_count h1) else length frames"
    have "limit_of env h1 = Some m" using h1 Cons.prems(2) by (simp add: limit_of_def)
    with Cons.IH [of h1 w1] Cons.prems h1 False obtain h' w' where
      r: "headless_run env frames h1 w1 = Some (if ?stop then Inl (h', w') else Inr (h', w'))"
      "frame_count h' = frame_count h1 + int ?n"
      "frame_crc h' = crc32_sum (frame_crc h1) (concat (map (take SCREEN_SIZE) (take ?n frames)))"
      "?stop \<longrightarrow> headless_log h' = NULL"
      by (auto simp: Let_def)
    have run: "headless_run env (screen # frames) h w = headless_run env frames h1 w1" using step False by simp
    have "m \<noteq> 0 \<and> m \<le> frame_count h + int (length (screen # frames)) \<longleftrightarrow> ?stop" using h1(2) by auto
    moreover have "(if ?stop then nat (m - frame_count h) else length (screen # frames)) = Suc ?n"
      using h1(2) False by (auto simp: nat_eq_iff)
    ultimately show ?thesis using run r h1 by (simp add: Let_def crc32_sum_append)
  qed
qed

lemma headless_start_fields [simp]:
  "headless_log headless_start = NULL" "frame_crc headless_start = 0" "frame_count headless_start = 0" "max_frames headless_start = - 1"
  by (simp_all add: headless_start_def)

text \<open>C22: a test run shows the number of frames it was asked for and reports the checksum of exactly these
  frames. With \<open>DOOM_HEADLESS_MAX_FRAMES\<close> set to \<open>m > 0\<close>, the call for the \<open>m\<close>-th frame leaves the process
  with the log closed, and no earlier one does; unset or 0, the run goes on. In every case
  \<open>frame_crc\<close> is the checksum of the frames shown, as if \<open>crc32_update\<close> had been called once on all
  of them. (\<open>frame_count\<close> is an \<open>int\<close>, so the bound on the number of frames is needed.)\<close>

theorem headless_run_stops:
  assumes "headless_limit env = Some m" "0 \<le> m" "int (length frames) \<le> INT32_MAX"
    "\<forall>screen \<in> set frames. SCREEN_SIZE \<le> length screen"
    and "n = (if m \<noteq> 0 \<and> m \<le> int (length frames) then nat m else length frames)"
    and "shown = concat (map (take SCREEN_SIZE) (take n frames))"
  shows "\<exists>h w'. headless_run env frames headless_start w =
      Some (if m \<noteq> 0 \<and> m \<le> int (length frames) then Inl (h, w') else Inr (h, w')) \<and>
    frame_count h = int n \<and> crc32_update 0 shown (length shown) = Some (frame_crc h) \<and>
    (m \<noteq> 0 \<and> m \<le> int (length frames) \<longrightarrow> headless_log h = NULL)"
  using headless_run_from [of env headless_start m frames w] assms
  by (cases "m \<noteq> 0 \<and> m \<le> int (length frames)") (auto simp add: limit_of_def crc32_update_eq)

text \<open>A C library for examples: the world is the log, newest line first.\<close>

definition log_env :: "nat \<Rightarrow> (log_line list, unit) doom_env" where
  "log_env m = \<lparr>env_getenv = (\<lambda>var. if var = lit ''DOOM_HEADLESS_MAX_FRAMES'' then Ptr (decimal m) else NULL),
     env_fopen = (\<lambda>path mode w. (Ptr (), w)), env_stdout = (), env_fprintf = (\<lambda>f line w. line # w),
     env_fflush = (\<lambda>f w. w), env_fclose = (\<lambda>f w. w)\<rparr>"

lemma headless_run_stops_witness:
  "\<exists>h w'. headless_run (log_env 1) [replicate 64000 7, replicate 64000 9] headless_start [] = Some (Inl (h, w')) \<and>
     frame_count h = 1 \<and> crc32_update 0 (replicate 64000 7) 64000 = Some (frame_crc h) \<and> headless_log h = NULL"
proof -
  have "headless_limit (log_env 1) = Some 1"
    using atoi_decimal [of 1] by (simp add: headless_limit_def log_env_def c_limits)
  then show ?thesis
    using headless_run_stops [of "log_env 1" 1 "[replicate 64000 7, replicate 64000 9]" 1 "replicate 64000 7" "[]"]
    by (simp add: SCREEN_SIZE_def c_limits)
qed

text \<open>A negative limit is read again for every frame, is not 0, and is reached by the first frame: the
  run ends after one frame instead of going on, which is what unset and 0 mean.\<close>

lemma negative_limit_stops_at_once:
  assumes "headless_limit env = Some m" "m < 0" "SCREEN_SIZE \<le> length screen"
  shows "\<exists>h w'. I_FinishUpdate env screen headless_start w = Some (Inl (h, w')) \<and> frame_count h = 1"
  using finish_update_eq [of env headless_start m screen w] assms
  by (auto simp: limit_of_def headless_start_def c_limits)

subsection \<open>Sound effects\<close>

text \<open>The lump of a sound effect is looked up under its name with the prefix \<open>ds\<close>, and the stack buffer of
  the name holds names of up to six characters exactly: the call is defined for these and overruns
  \<open>namebuf\<close> for every longer name.\<close>

lemma sfx_name_fits:
  "I_GetSfxLumpNum lump_num sfx_name =
     (if length (cstr sfx_name) \<le> 6 then Some (lump_num (lit ''ds'' @ cstr sfx_name)) else None)"
  by (simp add: I_GetSfxLumpNum_def store_str_def)

end
