(* ===== verification/C11_Language.thy ===== *)
theory C11_Language
  imports Prelude
begin

section \<open>The parts of C11 the reference programs exercise\<close>

text \<open>
  The C11 rules that the programs under \<open>src/phase1/c11-ref\<close> are written to test, on the platform the
  suite is built for (x86-64, System V ABI): integer types with promotion and conversion, expressions with
  their types and values, generic selection, the layout of structures, stores and loads of the object representation, and the
  encodings of string literals. The programs themselves are in \<open>C11_Suite\<close>.
\<close>

subsection \<open>Arithmetic types\<close>

datatype ctype = C_char | C_schar | C_uchar | C_short | C_ushort | C_int | C_uint | C_long | C_ulong
  | C_bits nat | C_float | C_double | C_ldouble | C_pointer ctype | C_const ctype

fun width_of :: "ctype \<Rightarrow> nat" where
  "width_of C_char = 8" | "width_of C_schar = 8" | "width_of C_uchar = 8"
| "width_of C_short = 16" | "width_of C_ushort = 16" | "width_of C_int = 32" | "width_of C_uint = 32"
| "width_of C_long = 64" | "width_of C_ulong = 64" | "width_of (C_bits n) = n" | "width_of _ = 0"

fun is_unsigned :: "ctype \<Rightarrow> bool" where
  "is_unsigned (C_bits n) = True"
| "is_unsigned T = (T \<in> {C_uchar, C_ushort, C_uint, C_ulong})"

definition type_min :: "ctype \<Rightarrow> int" where
  "type_min T = (if is_unsigned T then 0 else - (2 ^ (width_of T - 1)))"

definition type_max :: "ctype \<Rightarrow> int" where
  "type_max T = (if is_unsigned T then 2 ^ width_of T - 1 else 2 ^ (width_of T - 1) - 1)"

definition in_type :: "ctype \<Rightarrow> int \<Rightarrow> bool" where
  "in_type T v \<longleftrightarrow> type_min T \<le> v \<and> v \<le> type_max T"

text \<open>Conversion to an integer type: modulo the width.\<close>

definition convert :: "ctype \<Rightarrow> int \<Rightarrow> int" where
  "convert T v =
     (if is_unsigned T then v mod 2 ^ width_of T
      else (v + 2 ^ (width_of T - 1)) mod 2 ^ width_of T - 2 ^ (width_of T - 1))"

definition promote :: "ctype \<Rightarrow> ctype" where
  "promote T =
     (if T \<in> {C_char, C_schar, C_uchar, C_short, C_ushort} then C_int
      else (case T of C_bits n \<Rightarrow> (if n < 32 then C_int else C_uint) | _ \<Rightarrow> T))"

definition common_type :: "ctype \<Rightarrow> ctype \<Rightarrow> ctype" where
  "common_type S T =
     (if C_ldouble \<in> {S, T} then C_ldouble
      else if C_double \<in> {S, T} then C_double
      else if C_float \<in> {S, T} then C_float
      else let S = promote S; T = promote T in
        if C_ulong \<in> {S, T} then C_ulong
        else if C_long \<in> {S, T} then C_long
        else if C_uint \<in> {S, T} then C_uint
        else C_int)"

text \<open>An integer value with its type. A signed result out of range is undefined, an unsigned one wraps.\<close>

type_synonym cvalue = "ctype \<times> int"

definition c_add :: "cvalue \<Rightarrow> cvalue \<Rightarrow> cvalue option" where
  "c_add x y =
     (let T = common_type (fst x) (fst y); v = convert T (snd x) + convert T (snd y) in
      if is_unsigned T then Some (T, convert T v)
      else if in_type T v then Some (T, v)
      else None)"

definition c_less :: "cvalue \<Rightarrow> cvalue \<Rightarrow> int" where
  "c_less x y = (let T = common_type (fst x) (fst y) in if convert T (snd x) < convert T (snd y) then 1 else 0)"

text \<open>The initializer of an object of type \<open>T\<close>, and the value an \<open>int\<close> member gets.\<close>

definition c_init :: "ctype \<Rightarrow> int \<Rightarrow> cvalue" where
  "c_init T v = (T, convert T v)"

definition to_int :: "cvalue \<Rightarrow> int" where
  "to_int x = convert C_int (snd x)"

subsection \<open>Expressions\<close>

text \<open>The expressions the programs give to \<open>_Generic\<close> or compute with: objects by their names (a member
  \<open>s.m\<close> is an object of its own), integer and floating constants with their suffixes, character
  constants, addresses, and the operators the programs use. A declared type may be qualified.\<close>

datatype suffix = No_suffix | Suffix_u | Suffix_f | Suffix_L

datatype c_expr =
    Object string
  | Integer_constant int suffix
  | Floating_constant string suffix
  | Character_constant char
  | Address_of string
  | Plus c_expr c_expr
  | Less c_expr c_expr

text \<open>A value is an integer, a floating value of the implementation or the address of an object or
  \<open>NULL\<close>. An environment gives each object its declared type and its value.\<close>

datatype 'd c_value = V_int int | V_real 'd | V_pointer "string ptr"

type_synonym 'd c_env = "string \<Rightarrow> (ctype \<times> 'd c_value) option"

text \<open>The value of an object has the unqualified version of its type.\<close>

fun unqualified :: "ctype \<Rightarrow> ctype" where
  "unqualified (C_const T) = unqualified T"
| "unqualified T = T"

text \<open>An integer object with its initializer.\<close>

definition int_object :: "ctype \<Rightarrow> int \<Rightarrow> ctype \<times> 'd c_value" where
  "int_object T v = (T, V_int (convert (unqualified T) v))"

definition arithmetic :: "ctype \<Rightarrow> bool" where
  "arithmetic T \<longleftrightarrow> (case T of C_pointer _ \<Rightarrow> False | C_const _ \<Rightarrow> False | _ \<Rightarrow> True)"

text \<open>The type of an expression, \<open>None\<close> when it is not one of the modelled forms. A decimal constant has
  type \<open>int\<close>, or \<open>long\<close> when it does not fit; a character constant has type \<open>int\<close>.\<close>

fun type_of :: "'d c_env \<Rightarrow> c_expr \<Rightarrow> ctype option" where
  "type_of env (Object x) = do { (T, _) \<leftarrow> env x; Some (unqualified T) }"
| "type_of env (Integer_constant n sfx) =
     (if sfx = No_suffix then Some (if in_type C_int n then C_int else C_long)
      else if sfx = Suffix_u then Some (if in_type C_uint n then C_uint else C_ulong)
      else if sfx = Suffix_L then Some C_long else None)"
| "type_of env (Floating_constant _ sfx) =
     (if sfx = No_suffix then Some C_double
      else if sfx = Suffix_f then Some C_float
      else if sfx = Suffix_L then Some C_ldouble else None)"
| "type_of env (Character_constant _) = Some C_int"
| "type_of env (Address_of x) = do { (T, _) \<leftarrow> env x; Some (C_pointer T) }"
| "type_of env (Plus a b) = do {
     S \<leftarrow> type_of env a;
     T \<leftarrow> type_of env b;
     (if arithmetic S \<and> arithmetic T then Some (common_type S T) else None)
   }"
| "type_of env (Less a b) = do {
     S \<leftarrow> type_of env a;
     T \<leftarrow> type_of env b;
     (if arithmetic S \<and> arithmetic T then Some C_int else None)
   }"

text \<open>The type and the value of an expression without floating constants and floating arithmetic.
  \<open>None\<close> is also a signed overflow.\<close>

fun c_eval :: "'d c_env \<Rightarrow> c_expr \<Rightarrow> (ctype \<times> 'd c_value) option" where
  "c_eval env (Object x) = do { (T, v) \<leftarrow> env x; Some (unqualified T, v) }"
| "c_eval env (Integer_constant n sfx) = do { T \<leftarrow> type_of env (Integer_constant n sfx); Some (T, V_int n) }"
| "c_eval env (Floating_constant _ sfx) = None"
| "c_eval env (Character_constant c) = Some (C_int, V_int (of_char c))"
| "c_eval env (Address_of x) = do { (T, _) \<leftarrow> env x; Some (C_pointer T, V_pointer (Ptr x)) }"
| "c_eval env (Plus a b) = do {
     (S, v) \<leftarrow> c_eval env a;
     (T, w) \<leftarrow> c_eval env b;
     (case (v, w) of
        (V_int v, V_int w) \<Rightarrow>
          if arithmetic S \<and> arithmetic T then do { (U, n) \<leftarrow> c_add (S, v) (T, w); Some (U, V_int n) } else None
      | _ \<Rightarrow> None)
   }"
| "c_eval env (Less a b) = do {
     (S, v) \<leftarrow> c_eval env a;
     (T, w) \<leftarrow> c_eval env b;
     (case (v, w) of
        (V_int v, V_int w) \<Rightarrow>
          if arithmetic S \<and> arithmetic T then Some (C_int, V_int (c_less (S, v) (T, w))) else None
      | _ \<Rightarrow> None)
   }"

text \<open>Evaluation agrees with the types: the value computed has the type of the expression.\<close>

lemma c_add_type: "c_add x y = Some (T, v) \<Longrightarrow> T = common_type (fst x) (fst y)"
  by (auto simp: c_add_def Let_def split: if_splits)

lemma c_eval_type: "c_eval env e = Some (T, v) \<Longrightarrow> type_of env e = Some T"
proof (induction e arbitrary: T v)
  case (Plus a b)
  then obtain S m U n where ab: "c_eval env a = Some (S, m)" "c_eval env b = Some (U, n)" by (auto simp: run_iff)
  with Plus.IH have "type_of env a = Some S" "type_of env b = Some U" by auto
  with Plus.prems ab show ?case by (cases m; cases n) (auto simp: run_iff dest!: c_add_type split: if_split_asm)
next
  case (Less a b)
  then obtain S m U n where ab: "c_eval env a = Some (S, m)" "c_eval env b = Some (U, n)" by (auto simp: run_iff)
  with Less.IH have "type_of env a = Some S" "type_of env b = Some U" by auto
  with Less.prems ab show ?case by (cases m; cases n) (auto split: if_split_asm)
qed (auto simp: run_iff)

text \<open>The value an expression gives an \<open>int\<close> object.\<close>

definition int_of_expr :: "'d c_env \<Rightarrow> c_expr \<Rightarrow> int option" where
  "int_of_expr env e = do {
     (_, v) \<leftarrow> c_eval env e;
     (case v of V_int n \<Rightarrow> Some (convert C_int n) | _ \<Rightarrow> None)
   }"

fun int_value :: "'d c_value \<Rightarrow> int option" where
  "int_value (V_int n) = Some n" | "int_value _ = None"

fun real_value :: "'d c_value \<Rightarrow> 'd option" where
  "real_value (V_real d) = Some d" | "real_value _ = None"

fun pointer_value :: "'d c_value \<Rightarrow> string ptr option" where
  "pointer_value (V_pointer p) = Some p" | "pointer_value _ = None"

text \<open>\<open>_Generic\<close> chooses the association whose type is the type of its first operand, else the default;
  the operand is not evaluated.\<close>

fun generic_select :: "(ctype \<times> 'a) list \<Rightarrow> 'a \<Rightarrow> ctype \<Rightarrow> 'a" where
  "generic_select [] d T = d"
| "generic_select ((S, x) # as) d T = (if S = T then x else generic_select as d T)"

definition generic_selection :: "'d c_env \<Rightarrow> c_expr \<Rightarrow> (ctype \<times> 'a) list \<Rightarrow> 'a \<Rightarrow> 'a option" where
  "generic_selection env e associations d = do {
     T \<leftarrow> type_of env e;
     Some (generic_select associations d T)
   }"

lemma type_cases_max:
  "type_max C_uchar = 255" "type_max C_int = 2147483647" "type_max C_uint = 4294967295"
  "type_min C_uchar = 0" "type_min C_int = - 2147483648" "type_min C_uint = 0"
  by (simp_all add: type_max_def type_min_def)

lemma convert_in_type: "0 < width_of T \<Longrightarrow> in_type T (convert T v)"
proof -
  assume w: "0 < width_of T"
  then have "(2 :: int) ^ width_of T = 2 * 2 ^ (width_of T - 1)" by (cases "width_of T") simp_all
  moreover have "0 \<le> (v + 2 ^ (width_of T - 1)) mod 2 ^ width_of T" "(v + 2 ^ (width_of T - 1)) mod 2 ^ width_of T < 2 ^ width_of T"
    "0 \<le> v mod 2 ^ width_of T" "v mod 2 ^ width_of T < 2 ^ width_of T" by simp_all
  ultimately show ?thesis by (auto simp: in_type_def convert_def type_min_def type_max_def)
qed

lemma convert_id:
  assumes "in_type T v" "0 < width_of T"
  shows "convert T v = v"
proof -
  have "(2 :: int) ^ width_of T = 2 * 2 ^ (width_of T - 1)" using assms(2) by (cases "width_of T") simp_all
  then show ?thesis using assms(1) by (auto simp: in_type_def convert_def type_min_def type_max_def)
qed

text \<open>Promotion keeps every value: the promoted type contains the type.\<close>

lemma promote_keeps_value:
  assumes "in_type T v" "0 < width_of T" "width_of T \<le> 32"
  shows "convert (promote T) v = v"
proof -
  have "2 ^ n \<le> (2 :: int) ^ 31" if "n < 32" for n using that by (intro power_increasing) simp_all
  then have "in_type (promote T) v"
    using assms by (cases T) (fastforce simp: in_type_def promote_def type_min_def type_max_def)+
  moreover have "0 < width_of (promote T)" using assms(2) by (cases T) (simp_all add: promote_def)
  ultimately show ?thesis by (rule convert_id)
qed

subsection \<open>Layout of structures\<close>

text \<open>A member is its size and its alignment.\<close>

type_synonym member = "nat \<times> nat"

definition align_up :: "nat \<Rightarrow> nat \<Rightarrow> nat" where
  "align_up a n = (n + (a - 1)) div a * a"

fun member_offsets :: "nat \<Rightarrow> member list \<Rightarrow> nat list" where
  "member_offsets pos [] = []"
| "member_offsets pos ((s, a) # ms) = align_up a pos # member_offsets (align_up a pos + s) ms"

fun members_end :: "nat \<Rightarrow> member list \<Rightarrow> nat" where
  "members_end pos [] = pos"
| "members_end pos ((s, a) # ms) = members_end (align_up a pos + s) ms"

definition struct_align :: "member list \<Rightarrow> nat" where
  "struct_align ms = foldr max (map snd ms) 1"

definition struct_size :: "member list \<Rightarrow> nat" where
  "struct_size ms = align_up (struct_align ms) (members_end 0 ms)"

lemma align_up_ge: "0 < a \<Longrightarrow> n \<le> align_up a n"
proof -
  assume a: "0 < a"
  have "n + (a - 1) = (n + (a - 1)) div a * a + (n + (a - 1)) mod a"
    by (rule div_mult_mod_eq [symmetric])
  moreover have "(n + (a - 1)) mod a < a" using a by (rule mod_less_divisor)
  ultimately show ?thesis using a unfolding align_up_def by linarith
qed

lemma align_up_dvd: "a dvd align_up a n"
  by (simp add: align_up_def)

text \<open>Every member is aligned, and the members follow each other without overlap.\<close>

lemma member_offsets_ok:
  assumes "\<forall>m \<in> set ms. 0 < snd m" "i < length ms"
  shows "snd (ms ! i) dvd member_offsets pos ms ! i \<and> pos \<le> member_offsets pos ms ! i \<and>
    (\<forall>j < i. member_offsets pos ms ! j + fst (ms ! j) \<le> member_offsets pos ms ! i)"
  using assms
proof (induction ms arbitrary: pos i)
  case (Cons m ms)
  obtain s a where m: "m = (s, a)" by (cases m)
  have ge: "pos \<le> align_up a pos" using Cons.prems m by (intro align_up_ge) simp
  show ?case
  proof (cases i)
    case 0
    then show ?thesis using m ge align_up_dvd by simp
  next
    case (Suc k)
    with Cons.IH [of k "align_up a pos + s"] Cons.prems m ge show ?thesis
      by (auto simp: less_Suc_eq_0_disj)
  qed
qed simp

subsection \<open>Object representation\<close>

text \<open>Little-endian two's complement.\<close>

fun le_bytes :: "nat \<Rightarrow> int \<Rightarrow> byte list" where
  "le_bytes 0 v = []"
| "le_bytes (Suc n) v = word_of_int v # le_bytes n (v div 256)"

fun le_value :: "byte list \<Rightarrow> int" where
  "le_value [] = 0"
| "le_value (b # bs) = uint b + 256 * le_value bs"

definition store_le :: "byte list \<Rightarrow> nat \<Rightarrow> nat \<Rightarrow> int \<Rightarrow> byte list option" where
  "store_le obj off n v = wr_block obj off (le_bytes n v)"

text \<open>The value of \<open>n\<close> bytes as a signed integer.\<close>

definition load_le :: "byte list \<Rightarrow> nat \<Rightarrow> nat \<Rightarrow> int option" where
  "load_le obj off n = do {
     bs \<leftarrow> rd_block (drop off obj) n;
     let v = le_value bs;
     Some (if v < 2 ^ (8 * n - 1) then v else v - 2 ^ (8 * n))
   }"

lemma length_le_bytes [simp]: "length (le_bytes n v) = n"
  by (induction n v rule: le_bytes.induct) simp_all

lemma le_value_bytes: "le_value (le_bytes n v) = v mod 256 ^ n"
proof (induction n v rule: le_bytes.induct)
  case (2 n v)
  have "v mod (256 * 256 ^ n) = v mod 256 + 256 * (v div 256 mod 256 ^ n)" by (subst zmod_zmult2_eq) simp_all
  with 2 show ?case by (simp add: uint_word_of_int take_bit_eq_mod)
qed simp

lemma load_stored:
  assumes "off + n \<le> length obj" "store_le obj off n v = Some obj'" "0 < n" "- (2 ^ (8 * n - 1)) \<le> v" "v < 2 ^ (8 * n - 1)"
  shows "load_le obj' off n = Some v"
proof -
  have obj': "obj' = take off obj @ le_bytes n v @ drop (off + n) obj"
    using assms(1,2) by (simp add: store_le_def wr_block_in)
  then have "rd_block (drop off obj') n = Some (le_bytes n v)" using assms(1) by (simp add: rd_block_def)
  moreover have p: "(256 :: int) ^ n = 2 * 2 ^ (8 * n - 1)"
    using assms(3) by (cases n) (simp_all add: power_mult power_add)
  moreover have "v mod 256 ^ n = (if 0 \<le> v then v else v + 256 ^ n)"
  proof (cases "0 \<le> v")
    case True
    then show ?thesis using assms(5) p by simp
  next
    case False
    then have "(v + 256 ^ n) mod 256 ^ n = v + 256 ^ n" using assms(4) p by (intro mod_pos_pos_trivial) simp_all
    with False show ?thesis by simp
  qed
  ultimately show ?thesis using assms(4,5) by (auto simp: load_le_def le_value_bytes power_mult)
qed

text \<open>A store does not change what a load at other bytes reads.\<close>

lemma load_other:
  assumes "store_le obj off n v = Some obj'" "off' + k \<le> off \<or> off + n \<le> off'" "off' + k \<le> length obj"
  shows "load_le obj' off' k = load_le obj off' k"
proof -
  have o: "off + n \<le> length obj" "obj' = take off obj @ le_bytes n v @ drop (off + n) obj"
    using assms(1) by (auto simp: store_le_def wr_block_def split: if_splits)
  from assms(2) have "take k (drop off' obj') = take k (drop off' obj)"
  proof
    assume "off' + k \<le> off"
    then show ?thesis using o by (simp add: take_drop min_def)
  next
    assume le: "off + n \<le> off'"
    then have "drop off' obj' = drop (off' - off - n) (drop (off + n) obj)" using o by simp
    then show ?thesis using le by simp
  qed
  moreover have "length obj' = length obj" using o by simp
  ultimately show ?thesis using assms(3) by (simp add: load_le_def rd_block_def)
qed

subsection \<open>String literals\<close>

text \<open>The encodings of a code point in UTF-8 and UTF-16.\<close>

definition utf8_encode :: "nat \<Rightarrow> byte list" where
  "utf8_encode cp =
     map of_nat
       (if cp < 0x80 then [cp]
        else if cp < 0x800 then [0xc0 + cp div 0x40, 0x80 + cp mod 0x40]
        else if cp < 0x10000 then [0xe0 + cp div 0x1000, 0x80 + cp div 0x40 mod 0x40, 0x80 + cp mod 0x40]
        else [0xf0 + cp div 0x40000, 0x80 + cp div 0x1000 mod 0x40, 0x80 + cp div 0x40 mod 0x40, 0x80 + cp mod 0x40])"

definition utf16_encode :: "nat \<Rightarrow> u16 list" where
  "utf16_encode cp =
     map of_nat
       (if cp < 0x10000 then [cp]
        else [0xd800 + (cp - 0x10000) div 0x400, 0xdc00 + (cp - 0x10000) mod 0x400])"

text \<open>The array of a literal: the encoded characters and a terminator.\<close>

definition utf8_literal :: "nat list \<Rightarrow> byte list" where
  "utf8_literal cps = concat (map utf8_encode cps) @ [0]"

definition utf16_literal :: "nat list \<Rightarrow> u16 list" where
  "utf16_literal cps = concat (map utf16_encode cps) @ [0]"

definition utf32_literal :: "nat list \<Rightarrow> u32 list" where
  "utf32_literal cps = map of_nat cps @ [0]"

end
