(* ===== verification/C11_Suite.thy ===== *)
theory C11_Suite
  imports C11_Language C_Numbers
begin

section \<open>The C11 reference programs\<close>

text \<open>
  The programs \<open>001\<close> to \<open>023\<close> under \<open>src/phase1/c11-ref\<close>, in their order. What the compiler decides
  (feature macros) and what the system answers (allocation, files, clocks, threads) are arguments. The
  lemmas at the end compute each program's result as a function of these answers.
\<close>

subsection \<open>001 to 004\<close>

text \<open>\<open>_Generic\<close> chooses by the type of the argument expression. The conversion of a \<open>double\<close> to \<open>int\<close> is
  an argument.\<close>

definition generic_classify_int :: "int \<Rightarrow> int option" where
  "generic_classify_int v = i32 (v + 1)"

definition generic_classify_char :: "int \<Rightarrow> int option" where
  "generic_classify_char v = i32 (v + 2)"

definition generic_classify_double :: "('d \<Rightarrow> int option) \<Rightarrow> 'd \<Rightarrow> int option" where
  "generic_classify_double trunc v = do {
     n \<leftarrow> trunc v;
     i32 (n + 3)
   }"

definition generic_classify_pointer :: "'o ptr \<Rightarrow> int option" where
  "generic_classify_pointer v = Some (case v of NULL \<Rightarrow> - 10 | Ptr _ \<Rightarrow> 10)"

text \<open>The function chosen is applied to the value of the argument.\<close>

definition GENERIC_CLASSIFY :: "('d \<Rightarrow> int option) \<Rightarrow> 'd c_env \<Rightarrow> c_expr \<Rightarrow> int option" where
  "GENERIC_CLASSIFY trunc env e = do {
     f \<leftarrow> generic_selection env e
       [(C_char, \<lambda>v. do { n \<leftarrow> int_value v; generic_classify_char n }),
        (C_int, \<lambda>v. do { n \<leftarrow> int_value v; generic_classify_int n }),
        (C_double, \<lambda>v. do { d \<leftarrow> real_value v; generic_classify_double trunc d })]
       (\<lambda>v. do { p \<leftarrow> pointer_value v; generic_classify_pointer p });
     (_, v) \<leftarrow> c_eval env e;
     f v
   }"

record generic_selection_result =
  char_result :: int
  int_result :: int
  literal_result :: int
  qualified_result :: int
  pointer_result :: int

definition generic_selection_run :: "('d \<Rightarrow> int option) \<Rightarrow> generic_selection_result option" where
  "generic_selection_run trunc = do {
     let env = [''c'' \<mapsto> int_object C_char 5, ''qualified'' \<mapsto> int_object (C_const C_int) 8,
                ''storage'' \<mapsto> int_object C_int 1];
     r1 \<leftarrow> GENERIC_CLASSIFY trunc env (Object ''c'');
     r2 \<leftarrow> GENERIC_CLASSIFY trunc env (Integer_constant 7 No_suffix);
     r3 \<leftarrow> GENERIC_CLASSIFY trunc env (Character_constant (CHR ''a''));
     r4 \<leftarrow> GENERIC_CLASSIFY trunc env (Object ''qualified'');
     r5 \<leftarrow> GENERIC_CLASSIFY trunc env (Address_of ''storage'');
     Some \<lparr>char_result = r1, int_result = r2, literal_result = r3, qualified_result = r4, pointer_result = r5\<rparr>
   }"

definition alignas_alignof_bucket :: "member list" where
  "alignas_alignof_bucket = [(1, 1), (32, 32)]"

record alignas_alignof_result =
  bucket_alignment :: nat
  byte_alignment :: nat
  bytes_offset :: nat
  max_alignment :: nat

definition alignas_alignof_asserts :: bool where
  "alignas_alignof_asserts \<longleftrightarrow>
     struct_align alignas_alignof_bucket \<ge> 32 \<and> member_offsets 0 alignas_alignof_bucket ! 1 mod 32 = 0"

definition alignas_alignof_run :: "nat \<Rightarrow> alignas_alignof_result" where
  "alignas_alignof_run max_align =
     \<lparr>bucket_alignment = struct_align alignas_alignof_bucket, byte_alignment = 1,
      bytes_offset = member_offsets 0 alignas_alignof_bucket ! 1, max_alignment = max_align\<rparr>"

text \<open>The atomic operations, each one step.\<close>

definition atomic_flag_test_and_set :: "bool \<Rightarrow> bool \<times> bool" where
  "atomic_flag_test_and_set flag = (flag, True)"

definition atomic_fetch_add :: "int \<Rightarrow> int \<Rightarrow> int \<times> int" where
  "atomic_fetch_add obj v = (obj, convert C_int (obj + v))"

definition atomic_compare_exchange :: "u32 \<Rightarrow> u32 \<Rightarrow> u32 \<Rightarrow> bool \<times> u32 \<times> u32" where
  "atomic_compare_exchange obj expected desired =
     (if obj = expected then (True, desired, expected) else (False, obj, obj))"

record atomic_qualifier_result =
  aq_supported :: int
  aq_final_value :: int
  aq_flag_was_clear :: int

definition atomic_qualifier_run :: "bool \<Rightarrow> atomic_qualifier_result" where
  "atomic_qualifier_run no_atomics =
     (if no_atomics then \<lparr>aq_supported = 0, aq_final_value = 0, aq_flag_was_clear = 0\<rparr>
      else
        let counter = 4;
            flag = False;
            (old, flag) = atomic_flag_test_and_set flag;
            was_clear = (if old then 0 else 1);
            (_, counter) = atomic_fetch_add counter 6;
            flag = False
        in \<lparr>aq_supported = 1, aq_final_value = counter, aq_flag_was_clear = was_clear\<rparr>)"

record atomic_specifier_result =
  as_supported :: int
  as_compare_exchange_succeeded :: int
  as_stored_value :: u32

definition atomic_specifier_run :: "bool \<Rightarrow> atomic_specifier_result" where
  "atomic_specifier_run no_atomics =
     (if no_atomics then \<lparr>as_supported = 0, as_compare_exchange_succeeded = 0, as_stored_value = 0\<rparr>
      else
        let expected = 11;
            replacement = 99;
            slot = expected;
            (exchanged, slot, expected) = atomic_compare_exchange slot expected replacement;
            loaded = slot
        in \<lparr>as_supported = 1, as_compare_exchange_succeeded = (if exchanged then 1 else 0), as_stored_value = loaded\<rparr>)"

subsection \<open>005 to 008\<close>

text \<open>A thread-local variable has one instance per thread; thread 0 is the main thread, 1 the worker.
  \<open>created\<close> tells whether \<open>thrd_create\<close> succeeds.\<close>

record thread_local_result =
  tl_threads_supported :: int
  tl_main_value :: int
  tl_worker_value :: int

definition thread_local_worker :: "nat \<Rightarrow> (nat \<Rightarrow> int) \<Rightarrow> (int \<times> (nat \<Rightarrow> int)) option" where
  "thread_local_worker me counter = do {
     let counter = counter(me := 41);
     v \<leftarrow> i32 (counter me + 1);
     let counter = counter(me := v);
     Some (counter me, counter)
   }"

definition thread_local_run :: "bool \<Rightarrow> bool \<Rightarrow> (nat \<Rightarrow> int) \<Rightarrow> thread_local_result option" where
  "thread_local_run no_threads created counter = do {
     let worker_value = 0;
     let counter = counter(0 := 5);
     (worker_value, counter) \<leftarrow>
       (if \<not> no_threads \<and> created then thread_local_worker 1 counter else Some (worker_value, counter));
     Some \<lparr>tl_threads_supported = (if no_threads then 0 else 1), tl_main_value = counter 0,
           tl_worker_value = worker_value\<rparr>
   }"

text \<open>\<open>exit\<close> does not return: \<open>Inl\<close> is the status of the process.\<close>

definition noreturn_leave_with :: "int \<Rightarrow> int + unit" where
  "noreturn_leave_with code = Inl code"

definition noreturn_function_is_addressable :: int where
  "noreturn_function_is_addressable = (case Ptr noreturn_leave_with of NULL \<Rightarrow> 0 | Ptr _ \<Rightarrow> 1)"

definition static_assert_record :: "member list" where
  "static_assert_record = [(1, 1), (4, 4)]"

definition static_asserts :: bool where
  "static_asserts \<longleftrightarrow> width_of C_char = 8 \<and> struct_size static_assert_record \<ge> 4 \<and>
     member_offsets 0 static_assert_record ! 1 > 0"

definition static_assert_runtime_value :: int where
  "static_assert_runtime_value = (let (tag, record_value) = (115 :: int, 77) in record_value)"

text \<open>The box: \<open>kind\<close>, then the union with alignment 8 whose struct has \<open>x\<close> and \<open>y\<close> at 0 and 4 and whose
  array has its elements at 0 and 8. \<open>box\<close> is its memory, with arbitrary contents before the
  initialization.\<close>

definition anonymous_struct_union_box :: "member list" where
  "anonymous_struct_union_box = [(4, 4), (16, 8)]"

record anonymous_struct_union_result =
  field_sum :: int
  overlay_value :: int

definition anonymous_struct_union_run :: "byte list \<Rightarrow> anonymous_struct_union_result option" where
  "anonymous_struct_union_run box = do {
     let union_at = member_offsets 0 anonymous_struct_union_box ! 1;
     box \<leftarrow> store_le box 0 4 3;
     box \<leftarrow> store_le box union_at 4 10;
     box \<leftarrow> store_le box (union_at + 4) 4 20;
     box \<leftarrow> store_le box (union_at + 8) 8 44;
     kind \<leftarrow> load_le box 0 4;
     x \<leftarrow> load_le box union_at 4;
     total \<leftarrow> i32 (kind + x);
     overlay \<leftarrow> load_le box (union_at + 8) 8;
     Some \<lparr>field_sum = total, overlay_value = overlay\<rparr>
   }"

subsection \<open>009 to 012\<close>

text \<open>\<open>sizeof\<close> of an array divided by the size of an element is the length of the list.\<close>

record unicode_literals_result =
  utf8_bytes :: nat
  utf16_units :: nat
  utf32_units :: nat
  wide_units :: nat
  utf8_first :: byte
  utf16_first :: u16
  utf32_first :: u32
  wide_first :: u32

definition unicode_literals_run :: unicode_literals_result where
  "unicode_literals_run =
     (let utf8_text = utf8_literal [67, 49, 49, 32, 0x3bb];
          utf16_text = utf16_literal [65, 122];
          utf32_text = utf32_literal [0x1F642];
          wide_text = utf32_literal [87, 120]
      in \<lparr>utf8_bytes = length utf8_text, utf16_units = length utf16_text, utf32_units = length utf32_text,
          wide_units = length wide_text, utf8_first = utf8_text ! 0, utf16_first = utf16_text ! 0,
          utf32_first = utf32_text ! 0, wide_first = wide_text ! 0\<rparr>)"

text \<open>A designated initializer sets one subobject; everything not designated is zero.\<close>

record designated_initializers_entry =
  de_id :: int
  de_values :: "int list"

definition zero_entry :: designated_initializers_entry where
  "zero_entry = \<lparr>de_id = 0, de_values = replicate 4 0\<rparr>"

definition set_entry :: "nat \<Rightarrow> (designated_initializers_entry \<Rightarrow> designated_initializers_entry) \<Rightarrow>
    designated_initializers_entry list \<Rightarrow> designated_initializers_entry list" where
  "set_entry i f entries = entries[i := f (entries ! i)]"

record designated_initializers_result =
  first_sum :: int
  sparse_value :: int
  nested_value :: int

definition designated_initializers_run :: "designated_initializers_result option" where
  "designated_initializers_run = do {
     let entries = replicate 3 zero_entry;
     let entries = set_entry 1 (\<lambda>_. zero_entry\<lparr>de_id := 11, de_values := (de_values zero_entry)[0 := 2, 3 := 5]\<rparr>) entries;
     let entries = set_entry 0 (\<lambda>e. e\<lparr>de_id := 7\<rparr>) entries;
     let entries = set_entry 0 (\<lambda>e. e\<lparr>de_values := (de_values e)[2 := 13]\<rparr>) entries;
     let entries = set_entry 2 (\<lambda>_. \<lparr>de_id = 17, de_values = [19, 23, 29, 31]\<rparr>) entries;
     e0 \<leftarrow> rd entries 0;
     v02 \<leftarrow> rd (de_values e0) 2;
     total \<leftarrow> i32 (de_id e0 + v02);
     e1 \<leftarrow> rd entries 1;
     v13 \<leftarrow> rd (de_values e1) 3;
     e2 \<leftarrow> rd entries 2;
     v21 \<leftarrow> rd (de_values e2) 1;
     Some \<lparr>first_sum = total, sparse_value = v13, nested_value = v21\<rparr>
   }"

record compound_literals_point =
  pt_x :: int
  pt_y :: int

definition compound_literals_sum :: "compound_literals_point ptr \<Rightarrow> int option" where
  "compound_literals_sum point = do {
     p \<leftarrow> deref point;
     i32 (pt_x p + pt_y p)
   }"

record compound_literals_result =
  scalar_sum :: int
  array_sum :: int
  pointer_sum :: int

definition compound_literals_run :: "compound_literals_result option" where
  "compound_literals_run = do {
     let scalar = Ptr 9;
     let array = [1, 3, 5, 7];
     v \<leftarrow> deref scalar;
     r1 \<leftarrow> i32 (v + 1);
     a0 \<leftarrow> rd array 0;
     a3 \<leftarrow> rd array 3;
     r2 \<leftarrow> i32 (a0 + a3);
     r3 \<leftarrow> compound_literals_sum (Ptr \<lparr>pt_x = 12, pt_y = 30\<rparr>);
     Some \<lparr>scalar_sum = r1, array_sum = r2, pointer_sum = r3\<rparr>
   }"

text \<open>The parts of the complex numbers are small integers, which \<open>double\<close> represents exactly and
  computes with exactly.\<close>

definition complex_add :: "int \<times> int \<Rightarrow> int \<times> int \<Rightarrow> int \<times> int" where
  "complex_add z w = (fst z + fst w, snd z + snd w)"

definition complex_mult :: "int \<times> int \<Rightarrow> int \<times> int \<Rightarrow> int \<times> int" where
  "complex_mult z w = (fst z * fst w - snd z * snd w, fst z * snd w + snd z * fst w)"

record complex_arithmetic_result =
  ca_supported :: int
  ca_real_part :: int
  ca_imaginary_part :: int

definition complex_arithmetic_run :: "bool \<Rightarrow> complex_arithmetic_result" where
  "complex_arithmetic_run no_complex =
     (if no_complex then \<lparr>ca_supported = 0, ca_real_part = 0, ca_imaginary_part = 0\<rparr>
      else
        let I = (0, 1);
            z = complex_mult (complex_add (3, 0) (complex_mult (4, 0) I)) (complex_add (1, 0) (complex_mult (2, 0) I))
        in \<lparr>ca_supported = 1, ca_real_part = fst z, ca_imaginary_part = snd z\<rparr>)"

subsection \<open>013: a variable length array\<close>

record vla_result =
  vla_supported :: int
  vla_sum :: int

text \<open>The loops from \<open>index\<close> on, \<open>n\<close> rounds to go. \<open>copy\<close> is the array of \<open>count\<close> elements; a variable
  length array without elements is undefined.\<close>

fun no_vla_sum_loop :: "int list \<Rightarrow> nat \<Rightarrow> nat \<Rightarrow> int \<Rightarrow> int option" where
  "no_vla_sum_loop vals index 0 acc = Some acc"
| "no_vla_sum_loop vals index (Suc n) acc = do {
     v \<leftarrow> rd vals index;
     acc \<leftarrow> i32 (acc + v);
     no_vla_sum_loop vals (size_add index 1) n acc
   }"

definition no_vla_weighted_sum :: "nat \<Rightarrow> int list \<Rightarrow> int option" where
  "no_vla_weighted_sum count vals = no_vla_sum_loop vals 0 count 0"

fun vla_sum_loop :: "int list \<Rightarrow> nat \<Rightarrow> nat \<Rightarrow> int list \<Rightarrow> int \<Rightarrow> int option" where
  "vla_sum_loop vals index 0 copy acc = Some acc"
| "vla_sum_loop vals index (Suc n) copy acc = do {
     v \<leftarrow> rd vals index;
     p \<leftarrow> i32 (v * cast_i32 (int (size_add index 1)));
     copy \<leftarrow> wr copy index p;
     c \<leftarrow> rd copy index;
     acc \<leftarrow> i32 (acc + c);
     vla_sum_loop vals (size_add index 1) n copy acc
   }"

definition vla_weighted_sum :: "nat \<Rightarrow> int list \<Rightarrow> int option" where
  "vla_weighted_sum count vals =
     (if count = 0 then None else vla_sum_loop vals 0 count (replicate count 0) 0)"

definition vla_run :: "bool \<Rightarrow> vla_result option" where
  "vla_run no_vla = do {
     let vals = [3, 5, 7];
     s \<leftarrow> (if no_vla then no_vla_weighted_sum 3 vals else vla_weighted_sum 3 vals);
     Some \<lparr>vla_supported = (if no_vla then 0 else 1), vla_sum = s\<rparr>
   }"

subsection \<open>014 to 019\<close>

record aligned_alloc_result =
  aa_allocated :: int
  aa_aligned :: int

text \<open>\<open>aligned_alloc\<close> gives the address of the new object or \<open>NULL\<close>.\<close>

definition aligned_alloc_run :: "(nat \<Rightarrow> nat \<Rightarrow> nat ptr) \<Rightarrow> aligned_alloc_result" where
  "aligned_alloc_run aligned_alloc =
     (let alignment = 32;
          size_of = 64;
          memory = aligned_alloc alignment size_of;
          allocated = (if memory \<noteq> NULL then 1 else 0);
          aligned = (case memory of NULL \<Rightarrow> 0 | Ptr p \<Rightarrow> if p mod alignment = 0 then 1 else 0)
      in \<lparr>aa_allocated = allocated, aa_aligned = aligned\<rparr>)"

definition static_assert_runtime_mix_header :: "member list" where
  "static_assert_runtime_mix_header = [(2, 2), (1, 1), (1, 1)]"

definition static_assert_runtime_mix_asserts :: bool where
  "static_assert_runtime_mix_asserts \<longleftrightarrow>
     struct_size static_assert_runtime_mix_header = 4 \<and> member_offsets 0 static_assert_runtime_mix_header ! 2 = 3"

definition static_assert_runtime_mix_run :: "int option" where
  "static_assert_runtime_mix_run = do {
     let (magic, version, flags) = (c_init C_ushort 0xC011, c_init C_uchar 1, c_init C_uchar 2);
     s \<leftarrow> i32 (to_int magic + to_int version);
     i32 (s + to_int flags)
   }"

record optional_feature_macros_result =
  of_atomics :: int
  of_threads :: int
  of_complex_numbers :: int
  of_vla :: int

definition optional_feature_macros_run :: "bool \<Rightarrow> bool \<Rightarrow> bool \<Rightarrow> bool \<Rightarrow> optional_feature_macros_result" where
  "optional_feature_macros_run no_atomics no_threads no_complex no_vla =
     \<lparr>of_atomics = (if no_atomics then 0 else 1), of_threads = (if no_threads then 0 else 1),
      of_complex_numbers = (if no_complex then 0 else 1), of_vla = (if no_vla then 0 else 1)\<rparr>"

record integer_promotions_result =
  unsigned_char_sum :: int
  signed_char_negative :: int
  bitfield_promoted :: int
  character_constant_type :: int

definition INTEGER_PROMOTION_KIND :: "'d c_env \<Rightarrow> c_expr \<Rightarrow> int option" where
  "INTEGER_PROMOTION_KIND env e = generic_selection env e [(C_char, 1), (C_int, 2), (C_uint, 3)] 4"

definition integer_promotions_run :: "integer_promotions_result option" where
  "integer_promotions_run = do {
     let env = ([''a'' \<mapsto> int_object C_uchar (type_max C_uchar), ''b'' \<mapsto> int_object C_schar (- 2),
                ''bits.small'' \<mapsto> int_object (C_bits 3) 7] :: unit c_env);
     r1 \<leftarrow> int_of_expr env (Plus (Object ''a'') (Integer_constant 1 No_suffix));
     r2 \<leftarrow> int_of_expr env (Less (Object ''b'') (Integer_constant 0 No_suffix));
     r3 \<leftarrow> int_of_expr env (Plus (Object ''bits.small'') (Integer_constant 1 No_suffix));
     r4 \<leftarrow> INTEGER_PROMOTION_KIND env (Character_constant (CHR ''x''));
     Some \<lparr>unsigned_char_sum = r1, signed_char_negative = r2, bitfield_promoted = r3, character_constant_type = r4\<rparr>
   }"

record usual_arithmetic_conversions_result =
  float_rank_selected :: int
  unsigned_wrap_greater :: int
  long_double_rank_selected :: int

definition USUAL_CONVERSION_KIND :: "'d c_env \<Rightarrow> c_expr \<Rightarrow> int option" where
  "USUAL_CONVERSION_KIND env e =
     generic_selection env e [(C_int, 1), (C_uint, 2), (C_long, 3), (C_double, 4), (C_ldouble, 5)] 6"

text \<open>\<open>a > b\<close> is \<open>b < a\<close>: the operands have no side effects.\<close>

definition usual_arithmetic_conversions_run :: "usual_arithmetic_conversions_result option" where
  "usual_arithmetic_conversions_run = do {
     let env = ([''unsigned_value'' \<mapsto> int_object C_uint 1, ''signed_negative'' \<mapsto> int_object C_int (- 2)] :: unit c_env);
     r1 \<leftarrow> USUAL_CONVERSION_KIND env (Plus (Floating_constant ''1.0'' Suffix_f) (Floating_constant ''2.0'' No_suffix));
     r2 \<leftarrow> int_of_expr env
       (Less (Integer_constant 10 Suffix_u) (Plus (Object ''signed_negative'') (Object ''unsigned_value'')));
     r3 \<leftarrow> USUAL_CONVERSION_KIND env (Plus (Floating_constant ''1.0'' Suffix_L) (Floating_constant ''2.0'' No_suffix));
     Some \<lparr>float_rank_selected = r1, unsigned_wrap_greater = r2, long_double_rank_selected = r3\<rparr>
   }"

definition corner_cases_aligned :: "member list" where
  "corner_cases_aligned = [(1, 1), (4, 16)]"

definition CORNER_KIND :: "'d c_env \<Rightarrow> c_expr \<Rightarrow> int option" where
  "CORNER_KIND env e = generic_selection env e [(C_int, 1), (C_char, 2)] 3"

record corner_cases_result =
  char_constant_kind :: int
  func_name_nonempty :: int
  aligned_offset :: nat
  typedef_value :: u32

definition corner_cases_run :: "corner_cases_result option" where
  "corner_cases_run = do {
     let func_name = lit ''corner_cases_run'' @ [0];
     kind \<leftarrow> CORNER_KIND (Map.empty :: unit c_env) (Character_constant (CHR ''q''));
     c \<leftarrow> rd func_name 0;
     Some \<lparr>char_constant_kind = kind, func_name_nonempty = (if c \<noteq> 0 then 1 else 0),
           aligned_offset = member_offsets 0 corner_cases_aligned ! 1, typedef_value = 33\<rparr>
   }"

subsection \<open>020 to 023\<close>

text \<open>A stream is its contents and the position in them. \<open>getline\<close> returns the length of the next line with
  its newline, or -1 at the end.\<close>

definition c_getline :: "byte list \<times> nat \<Rightarrow> int \<times> (byte list \<times> nat)" where
  "c_getline stream =
     (let (contents, pos) = stream;
          rest = drop pos contents;
          line = takeWhile (\<lambda>c. c \<noteq> 10) rest;
          n = (if length line < length rest then length line + 1 else length line)
      in if rest = [] then (- 1, stream) else (int n, (contents, pos + n)))"

record gets_removal_result =
  gets_macro_absent :: int
  getline_read_bytes :: int
  annex_k_gets_s_available :: int

definition gets_removal_annex_k_available :: "bool \<Rightarrow> int" where
  "gets_removal_annex_k_available lib_ext1 = (if lib_ext1 then 1 else 0)"

definition gets_removal_run :: "bool \<Rightarrow> bool \<Rightarrow> bool \<Rightarrow> gets_removal_result" where
  "gets_removal_run gets_macro lib_ext1 tmpfile_ok =
     (let read_bytes =
            (if tmpfile_ok then
               let stream = (lit ''c11'' @ [10], 4 :: nat);
                   stream = (fst stream, 0)
               in cast_i32 (fst (c_getline stream))
             else - 1)
      in \<lparr>gets_macro_absent = (if gets_macro then 0 else 1), getline_read_bytes = read_bytes,
          annex_k_gets_s_available = gets_removal_annex_k_available lib_ext1\<rparr>)"

text \<open>A directory is the map from the names of its files to their contents. \<open>fopen\<close> with mode \<open>wx\<close> creates
  a file, fails with \<open>EEXIST\<close> when there is one, or fails with an error of the system (\<open>refusal\<close>),
  whether there is a file or not. It answers the success, \<open>errno\<close> and the directory.\<close>

type_synonym files = "byte list \<Rightarrow> byte list option"

definition EEXIST :: int where
  "EEXIST = 17"

definition fopen_wx :: "int option \<Rightarrow> byte list \<Rightarrow> int \<Rightarrow> files \<Rightarrow> bool \<times> int \<times> files" where
  "fopen_wx refusal path errno fs =
     (case refusal of
        Some e \<Rightarrow> (False, e, fs)
      | None \<Rightarrow>
          if fs path \<noteq> None then (False, EEXIST, fs)
          else (True, errno, fs(path \<mapsto> [])))"

text \<open>\<open>remove\<close> deletes the file or, when the system does not let it (\<open>removable\<close>), changes nothing; the
  program ignores which.\<close>

definition remove_file :: "bool \<Rightarrow> byte list \<Rightarrow> files \<Rightarrow> files" where
  "remove_file removable path fs = (if removable then fs(path := None) else fs)"

record fopen_x_mode_result =
  first_open_succeeded :: int
  second_open_failed :: int
  errno_was_eexist :: int

text \<open>\<open>snprintf\<close> leaves at most \<open>size - 1\<close> characters.\<close>

definition fopen_x_mode_path :: "byte list ptr \<Rightarrow> nat \<Rightarrow> nat \<Rightarrow> byte list" where
  "fopen_x_mode_path tmpdir now buffer_size =
     (let tmpdir = (case tmpdir of NULL \<Rightarrow> lit ''/tmp'' | Ptr d \<Rightarrow> d)
      in take (buffer_size - 1) (tmpdir @ lit ''/c11_ref_fopen_x_'' @ decimal now @ lit ''.tmp''))"

text \<open>The answers of the system: whether each \<open>remove\<close> can delete the file, and the error with which each
  \<open>fopen\<close> fails for a reason of its own.\<close>

record fopen_x_mode_system =
  first_removable :: bool
  first_refusal :: "int option"
  second_refusal :: "int option"
  last_removable :: bool

definition fopen_x_mode_run ::
  "fopen_x_mode_system \<Rightarrow> byte list ptr \<Rightarrow> nat \<Rightarrow> int \<Rightarrow> files \<Rightarrow> fopen_x_mode_result \<times> files" where
  "fopen_x_mode_run sys tmpdir now errno fs =
     (let path = fopen_x_mode_path tmpdir now 256;
          fs = remove_file (first_removable sys) path fs;
          (first, errno, fs) = fopen_wx (first_refusal sys) path errno fs
      in if \<not> first then (\<lparr>first_open_succeeded = 0, second_open_failed = 0, errno_was_eexist = 0\<rparr>, fs)
         else
           let errno = 0;
               (second, errno, fs) = fopen_wx (second_refusal sys) path errno fs;
               second_errno = errno;
               fs = remove_file (last_removable sys) path fs
           in (\<lparr>first_open_succeeded = 1, second_open_failed = (if second then 0 else 1),
                errno_was_eexist = (if second_errno = EEXIST then 1 else 0)\<rparr>, fs))"

record quick_exit_result =
  child_status :: int
  sentinel_written :: int

definition quick_exit_probe_path :: "byte list" where
  "quick_exit_probe_path = lit ''.c11_ref_quick_exit_probe.tmp''"

definition quick_exit_write_sentinel :: "(byte list \<Rightarrow> bool) \<Rightarrow> files \<Rightarrow> files" where
  "quick_exit_write_sentinel can_open fs =
     (if can_open quick_exit_probe_path then fs(quick_exit_probe_path \<mapsto> lit ''Q'') else fs)"

definition quick_exit_sentinel_exists :: "files \<Rightarrow> int" where
  "quick_exit_sentinel_exists fs =
     (case fs quick_exit_probe_path of
        None \<Rightarrow> 0
      | Some contents \<Rightarrow> if contents \<noteq> [] \<and> hd contents = 81 then 1 else 0)"

definition quick_exit_run :: "files \<Rightarrow> int \<Rightarrow> quick_exit_result" where
  "quick_exit_run fs status = \<lparr>child_status = status, sentinel_written = quick_exit_sentinel_exists fs\<rparr>"

record timespec_get_result =
  returned_base :: int
  delta_from_time :: int

text \<open>A \<open>long\<close> result: undefined outside the range.\<close>

definition i64 :: "int \<Rightarrow> int option" where
  "i64 v = (if in_type C_long v then Some v else None)"

definition timespec_get_run :: "int \<Rightarrow> int \<Rightarrow> int \<Rightarrow> timespec_get_result option" where
  "timespec_get_run now spec_sec base = do {
     d \<leftarrow> i64 (spec_sec - now);
     delta \<leftarrow> i64 (abs d);
     Some \<lparr>returned_base = base, delta_from_time = delta\<rparr>
   }"

subsection \<open>The assertions of the tests\<close>

lemma anonymous_union_run:
  assumes "length box = 24"
  shows "anonymous_struct_union_run box = Some \<lparr>field_sum = 13, overlay_value = 44\<rparr>"
proof -
  have at: "member_offsets 0 anonymous_struct_union_box ! 1 = 8"
    by (simp add: anonymous_struct_union_box_def align_up_def)
  have run: "\<exists>box'. store_le b off n v = Some box' \<and> length box' = 24" if "length b = 24" "off + n \<le> 24" for b off n v
    using that by (simp add: store_le_def wr_block_in)
  obtain b1 where b1: "store_le box 0 4 3 = Some b1" "length b1 = 24" using run [of box 0 4] assms by auto
  obtain b2 where b2: "store_le b1 8 4 10 = Some b2" "length b2 = 24" using run [of b1 8 4] b1 by auto
  obtain b3 where b3: "store_le b2 12 4 20 = Some b3" "length b3 = 24" using run [of b2 12 4] b2 by auto
  obtain b4 where b4: "store_le b3 16 8 44 = Some b4" "length b4 = 24" using run [of b3 16 8] b3 by auto
  have "load_le b4 0 4 = load_le b1 0 4"
    using load_other [OF b2(1), of 0 4] load_other [OF b3(1), of 0 4] load_other [OF b4(1), of 0 4] b1 b2 b3 by simp
  moreover have "load_le b1 0 4 = Some 3" using load_stored [OF _ b1(1)] assms by simp
  moreover have "load_le b4 8 4 = load_le b2 8 4"
    using load_other [OF b3(1), of 8 4] load_other [OF b4(1), of 8 4] b2 b3 by simp
  moreover have "load_le b2 8 4 = Some 10" using load_stored [OF _ b2(1)] b1 by simp
  moreover have "load_le b4 16 8 = Some 44" using load_stored [OF _ b4(1)] b3 by simp
  ultimately show ?thesis
    using b1(1) b2(1) b3(1) b4(1) by (simp add: anonymous_struct_union_run_def at [unfolded One_nat_def] Let_def i32_def c_limits)
qed

text \<open>The value the sum has before element \<open>k\<close> is added, and what one round needs to be defined.\<close>

definition weighted_prefix :: "int list \<Rightarrow> nat \<Rightarrow> int" where
  "weighted_prefix vals k = (\<Sum>i<k. vals ! i * (int i + 1))"

definition in_int :: "int \<Rightarrow> bool" where
  "in_int v \<longleftrightarrow> INT32_MIN \<le> v \<and> v \<le> INT32_MAX"

definition round_defined :: "int list \<Rightarrow> nat \<Rightarrow> bool" where
  "round_defined vals i \<longleftrightarrow> i < length vals \<and> in_int (vals ! i * (int i + 1)) \<and> in_int (weighted_prefix vals (Suc i))"

lemma vla_sum_loop_eq:
  assumes "index + n = length copy" "int (length copy) \<le> INT32_MAX"
  shows "vla_sum_loop vals index n copy (weighted_prefix vals index) =
    (if \<forall>i \<in> {index..<index + n}. round_defined vals i then Some (weighted_prefix vals (index + n)) else None)"
  using assms
proof (induction n arbitrary: index copy)
  case (Suc n)
  have idx: "size_add index 1 = Suc index" using Suc.prems by (simp add: c_limits)
  have cast: "cast_i32 (int (Suc index)) = int index + 1"
    using Suc.prems by (simp add: cast_i32_id c_limits)
  have range: "{index..<index + Suc n} = insert index {Suc index..<Suc index + n}" by auto
  have nxt: "weighted_prefix vals (Suc index) = weighted_prefix vals index + vals ! index * (int index + 1)"
    by (simp add: weighted_prefix_def)
  show ?case
  proof (cases "round_defined vals index")
    case True
    let ?copy = "copy[index := vals ! index * (int index + 1)]"
    have "vla_sum_loop vals index (Suc n) copy (weighted_prefix vals index) =
        vla_sum_loop vals (Suc index) n ?copy (weighted_prefix vals (Suc index))"
      using True Suc.prems idx cast nxt by (simp add: round_defined_def in_int_def rd_in wr_in i32_in_range)
    also have "\<dots> = (if \<forall>i \<in> {Suc index..<Suc index + n}. round_defined vals i
        then Some (weighted_prefix vals (Suc index + n)) else None)"
      using Suc.prems by (intro Suc.IH) simp_all
    finally show ?thesis using True range by simp
  next
    case False
    then have "vla_sum_loop vals index (Suc n) copy (weighted_prefix vals index) = None"
      using Suc.prems idx cast nxt
      by (auto simp: round_defined_def in_int_def rd_def wr_in i32_def)
    with False range show ?thesis by simp
  qed
qed simp

text \<open>C24: \<open>vla_weighted_sum\<close> computes the sum of its elements weighted by their positions, exactly when
  the array is not empty, \<open>count\<close> elements can be read, and no product and no partial sum leaves
  \<open>int\<close>; otherwise the run is undefined. The writes to the variable length array stay inside it.\<close>

theorem vla_weighted_sum_spec:
  assumes "int count \<le> INT32_MAX"
  shows "vla_weighted_sum count vals =
    (if 0 < count \<and> (\<forall>i \<in> {0..<count}. round_defined vals i)
     then Some (\<Sum>i<count. vals ! i * (int i + 1)) else None)"
  using vla_sum_loop_eq [of 0 count "replicate count 0" vals] assms
  by (auto simp: vla_weighted_sum_def weighted_prefix_def)

lemma vla_weighted_sum_spec_witness: "vla_weighted_sum 2 [3, 5] = Some 13"
proof -
  have "\<forall>i \<in> {0..<2}. round_defined [3, 5] i"
    by (simp add: round_defined_def in_int_def weighted_prefix_def c_limits atLeast0_lessThan_Suc numeral_2_eq_2)
  then show ?thesis using vla_weighted_sum_spec [of 2 "[3, 5]"] by (simp add: c_limits numeral_2_eq_2)
qed

lemmas language_simps = type_of.simps c_eval.simps generic_selection_def int_object_def int_of_expr_def arithmetic_def
  convert_def in_type_def type_max_def type_min_def c_add_def c_less_def common_type_def promote_def

lemma generic_selection_passes: "generic_selection_run trunc =
    Some \<lparr>char_result = 7, int_result = 8, literal_result = 98, qualified_result = 9, pointer_result = 10\<rparr>"
  by (simp add: generic_selection_run_def GENERIC_CLASSIFY_def generic_classify_char_def generic_classify_int_def
      generic_classify_pointer_def i32_def c_limits language_simps)

lemma header_passes: "static_assert_runtime_mix_asserts"
  by code_simp

lemma layout_passes:
  "alignas_alignof_asserts"
  "alignas_alignof_run m = \<lparr>bucket_alignment = 32, byte_alignment = 1, bytes_offset = 32, max_alignment = m\<rparr>"
  "static_asserts" "static_assert_runtime_value = 77"
  "static_assert_runtime_mix_run = Some (0xC011 + 3)"
  "corner_cases_run = Some \<lparr>char_constant_kind = 1, func_name_nonempty = 1, aligned_offset = 16, typedef_value = 33\<rparr>"
  by (simp_all add: alignas_alignof_asserts_def alignas_alignof_run_def alignas_alignof_bucket_def struct_align_def struct_size_def
      align_up_def static_asserts_def static_assert_record_def static_assert_runtime_value_def static_assert_runtime_mix_run_def c_init_def convert_def to_int_def i32_def c_limits
      corner_cases_run_def corner_cases_aligned_def CORNER_KIND_def generic_selection_def rd_def lit_def)

lemma literals_pass: "unicode_literals_run =
    \<lparr>utf8_bytes = 7, utf16_units = 3, utf32_units = 2, wide_units = 3, utf8_first = 67, utf16_first = 65,
      utf32_first = 0x1F642, wide_first = 87\<rparr>"
  by (simp add: unicode_literals_run_def utf8_literal_def utf16_literal_def utf32_literal_def utf8_encode_def utf16_encode_def)

lemma initializers_pass:
  "designated_initializers_run = Some \<lparr>first_sum = 20, sparse_value = 5, nested_value = 23\<rparr>"
  "compound_literals_run = Some \<lparr>scalar_sum = 10, array_sum = 8, pointer_sum = 42\<rparr>"
  by (simp_all add: designated_initializers_run_def zero_entry_def set_entry_def compound_literals_run_def compound_literals_sum_def
      rd_def i32_def c_limits numeral_2_eq_2 numeral_3_eq_3)

lemma arithmetic_passes:
  "complex_arithmetic_run False = \<lparr>ca_supported = 1, ca_real_part = - 5, ca_imaginary_part = 10\<rparr>"
  "integer_promotions_run =
     Some \<lparr>unsigned_char_sum = 256, signed_char_negative = 1, bitfield_promoted = 8, character_constant_type = 2\<rparr>"
  "usual_arithmetic_conversions_run =
     Some \<lparr>float_rank_selected = 4, unsigned_wrap_greater = 1, long_double_rank_selected = 5\<rparr>"
  by (simp_all add: complex_arithmetic_run_def complex_mult_def complex_add_def integer_promotions_run_def
      INTEGER_PROMOTION_KIND_def usual_arithmetic_conversions_run_def USUAL_CONVERSION_KIND_def language_simps)

lemma sums_pass:
  "vla_run False = Some \<lparr>vla_supported = 1, vla_sum = 34\<rparr>"
  "vla_run True = Some \<lparr>vla_supported = 0, vla_sum = 15\<rparr>"
  by (simp_all add: vla_run_def vla_weighted_sum_def no_vla_weighted_sum_def numeral_3_eq_3 i32_def c_limits cast_i32_def
      wr_def rd_def)

lemma atomics_pass:
  "atomic_qualifier_run no_atomics =
      (if no_atomics then \<lparr>aq_supported = 0, aq_final_value = 0, aq_flag_was_clear = 0\<rparr>
       else \<lparr>aq_supported = 1, aq_final_value = 10, aq_flag_was_clear = 1\<rparr>)"
  "atomic_specifier_run no_atomics =
      (if no_atomics then \<lparr>as_supported = 0, as_compare_exchange_succeeded = 0, as_stored_value = 0\<rparr>
       else \<lparr>as_supported = 1, as_compare_exchange_succeeded = 1, as_stored_value = 99\<rparr>)"
  by (simp_all add: atomic_qualifier_run_def atomic_flag_test_and_set_def atomic_fetch_add_def convert_def
      atomic_specifier_run_def atomic_compare_exchange_def)

lemma thread_local_passes: "thread_local_run no_threads created counter =
      Some \<lparr>tl_threads_supported = (if no_threads then 0 else 1), tl_main_value = 5,
            tl_worker_value = (if no_threads then 0 else if created then 42 else 0)\<rparr>"
  by (simp add: thread_local_run_def thread_local_worker_def i32_def c_limits)

lemma allocation_passes: "aligned_alloc_run alloc =
      (case alloc 32 64 of
         NULL \<Rightarrow> \<lparr>aa_allocated = 0, aa_aligned = 0\<rparr>
       | Ptr p \<Rightarrow> \<lparr>aa_allocated = 1, aa_aligned = (if 32 dvd p then 1 else 0)\<rparr>)"
  by (simp add: aligned_alloc_run_def Let_def dvd_eq_mod_eq_0 split: ptr.split)

lemma gets_removal_passes: "gets_removal_run False lib_ext1 tmpfile_ok =
      \<lparr>gets_macro_absent = 1, getline_read_bytes = (if tmpfile_ok then 4 else - 1),
       annex_k_gets_s_available = (if lib_ext1 then 1 else 0)\<rparr>"
  by (simp add: gets_removal_run_def c_getline_def lit_def cast_i32_def gets_removal_annex_k_available_def)

text \<open>When the leftover file is gone and the system lets the file be created, the second exclusive open
  fails, with \<open>EEXIST\<close> unless the system has an error of its own; otherwise the first one fails.\<close>

lemma fopen_x_cases:
  fixes fs :: files and tmpdir :: "byte list ptr" and now :: nat
  defines "path \<equiv> fopen_x_mode_path tmpdir now 256"
  shows "fopen_x_mode_run sys tmpdir now errno fs =
     (if first_refusal sys = None \<and> (first_removable sys \<or> fs path = None)
      then (\<lparr>first_open_succeeded = 1, second_open_failed = 1,
              errno_was_eexist = (if second_refusal sys \<in> {None, Some EEXIST} then 1 else 0)\<rparr>,
            if last_removable sys then fs(path := None) else fs(path \<mapsto> []))
      else (\<lparr>first_open_succeeded = 0, second_open_failed = 0, errno_was_eexist = 0\<rparr>,
            if first_removable sys then fs(path := None) else fs))"
  by (cases "first_refusal sys"; cases "second_refusal sys"; cases "first_removable sys"; cases "last_removable sys")
     (simp_all add: fopen_x_mode_run_def fopen_wx_def remove_file_def path_def EEXIST_def Let_def)

lemma quick_exit_passes:
  "quick_exit_run (quick_exit_write_sentinel can_open (remove_file True quick_exit_probe_path fs)) status =
      \<lparr>child_status = status, sentinel_written = (if can_open quick_exit_probe_path then 1 else 0)\<rparr>"
  by (simp add: quick_exit_run_def quick_exit_write_sentinel_def remove_file_def quick_exit_sentinel_exists_def lit_def)

lemma timespec_get_passes:
  assumes "in_type C_long (spec_sec - now)" "spec_sec - now \<noteq> type_min C_long"
  shows "timespec_get_run now spec_sec base = Some \<lparr>returned_base = base, delta_from_time = abs (spec_sec - now)\<rparr>"
  using assms by (auto simp: timespec_get_run_def i64_def in_type_def type_min_def type_max_def)

end
