(* ===== verification/Spec2Isabelle.thy ===== *)
theory Spec2Isabelle
  imports Server_Props H2d_Main Connection_Session Connection_Deferred Doom_Headless C11_Suite
begin

text \<open>
  A verification development for the C programs of this repository: the HTTP/2 server
  \<open>src/phase1/http2\<close>, the drivers \<open>src/phase1/doom/headless\<close> that let DOOM run under test, and the
  reference programs \<open>src/phase1/c11-ref\<close>.

  \<^bold>\<open>The server and its parts.\<close> \<open>main.c\<close> reads the options and calls \<open>h2_server_run\<close> of \<open>server.c\<close>: a
  table of 128 clients, a listening socket and an event loop over one of three backends
  (\<open>io_epoll.c\<close>, \<open>io_kqueue.c\<close>, \<open>io_uring.c\<close>) behind the interface \<open>io.h\<close>. Bytes that arrive for a client
  go through \<open>h2_connection_feed\<close> of \<open>connection.c\<close>, which cuts them into frames (\<open>frame.c\<close>), decodes
  header blocks (\<open>hpack.c\<close>, \<open>hpack_static.c\<close>), drives the streams (\<open>stream.c\<close>) and queues its answers in
  an output array; the server writes what is queued and consumes what the socket took.

  \<^bold>\<open>Which theory models what.\<close> Every definition has the name of the function or type it models; the
  text before it says how its arguments correspond. Each component has a theory of definitions,
  translated from the source in its order, and theories of lemmas about them.

  \<^item> \<open>Prelude\<close>: machine integers, memory, undefined behaviour, strings and shared automation.
    \<open>C_Numbers\<close>: numbers in text (\<open>%zu\<close>, \<open>strtoul\<close>, \<open>atoi\<close>).
  \<^item> \<open>Frame\<close>: \<open>frame.h\<close>, \<open>frame.c\<close>. \<open>Frame_Props\<close>, \<open>Frame_Codec\<close>, \<open>Frame_Parsers\<close> and \<open>Frame_Roundtrip\<close>: the
    encoders meet one contract (the locale \<open>frame_encoder\<close>, interpreted ten times), the parsers stay
    inside the payload, and each parser gives back what its encoder was called with.
  \<^item> \<open>Hpack_Static\<close>, \<open>Hpack\<close>: \<open>hpack_static.c\<close>, \<open>hpack.c\<close>. \<open>Hpack_Codec\<close>: integers and strings against a
    reference reading of RFC 7541. \<open>Hpack_Blocks\<close>: both block decoders are instances of the locale
    \<open>block_decoder\<close>, always return, and agree on the path.
  \<^item> \<open>H2_Stream\<close>: \<open>stream.h\<close>, \<open>stream.c\<close>, the step relation of a stream, its windows, and the refinement
    of the RFC 7540 life cycle, whose labelled form every operation of a run follows.
  \<^item> \<open>Connection\<close>, \<open>Connection_Feed\<close>: \<open>connection.h\<close>, \<open>connection.c\<close>. \<open>Connection_Queue\<close>: the output array
    is a bounded FIFO (the locale \<open>output_queue\<close>). \<open>Connection_Invariant\<close>, \<open>Connection_Response\<close>,
    \<open>Connection_Safety\<close>: \<open>conn_ok\<close> and its preservation by every handler on arbitrary bytes.
    \<open>Connection_Protocol\<close>: what a request, a PING, an interrupted header block and received data lead
    to. \<open>Connection_Deferred\<close>: responses that wait for a window, what a WINDOW_UPDATE sends of them and what a
    change of the initial window does. \<open>Connection_Blind\<close>, \<open>Connection_Segments\<close>, \<open>Connection_Session\<close>: how the input is cut into \<open>read\<close>s
    does not matter, and a client's first request is answered in any cut.
  \<^item> \<open>Io\<close>: \<open>io.h\<close> and the locale \<open>io_backend\<close>, the contract of a backend. \<open>Io_Epoll\<close>, \<open>Io_Kqueue\<close>,
    \<open>Io_Uring\<close>: the backends over their system calls; the first two interpret the contract on the
    spot, \<open>Uring_Safety\<close> does so for io_uring with the invariant \<open>uring_ok\<close>. \<open>Uring_Props\<close>: generations,
    submission and saved completions.
  \<^item> \<open>Server\<close>: \<open>server.h\<close>, \<open>server.c\<close>. \<open>Server_Safety\<close>: the invariant \<open>server_ok\<close>, the reachable states of
    the event loop as an inductive relation, and the locale \<open>event_server\<close> that extends \<open>io_backend\<close>.
    \<open>Server_Props\<close>: its three interpretations and the properties of the whole server.
  \<^item> \<open>H2d_Main\<close>: \<open>main.c\<close>, and exactly which texts its number options accept.
  \<^item> \<open>Doom_Crc\<close>: \<open>crc32_update\<close>, its table form, its pieces and what it detects. \<open>Doom_Headless\<close>:
    \<open>i_video_headless.c\<close>, \<open>i_sound_headless.c\<close>, \<open>i_net_headless.c\<close>.
  \<^item> \<open>C11_Language\<close>: the rules of C11 that the reference programs exercise, among them the type and the value
    of an expression. \<open>C11_Suite\<close>: the 23 programs and their results as functions of what the system answers.

  \<^bold>\<open>Conventions.\<close> \<open>None\<close> is undefined behaviour (an access outside an object, signed overflow, a \<open>NULL\<close>
  dereference) or a loop that does not end; \<open>Some\<close> is a defined run with its result. Theorems that a
  run is \<open>Some\<close> are therefore safety and termination at once. Error codes and \<open>errno\<close> are values.
  \<open>size_t\<close> is a \<open>nat\<close> whose additions and subtractions wrap explicitly; \<open>int32_t\<close> is an \<open>int\<close> whose
  operations are checked; unsigned integers of fixed width are words.

  \<^bold>\<open>Loops.\<close> No fuel is used. Loops whose progress is not structural are \<open>partial_function (option)\<close>, so
  that not returning is \<open>None\<close>, and are proved to return: the header decoders because every item takes
  at least one byte, the feed loop because every frame takes at least nine, the loops of the server
  that end at \<open>EAGAIN\<close> because the hypothesis \<open>kernel_ok\<close> bounds what is waiting, and the io_uring
  drain because the hypothesis \<open>uring_kernel\<close> bounds the completions that are outstanding. The
  event loop of the server itself is meant not to end: its states are reachable states and every
  one has a next step.

  \<^bold>\<open>Parameters.\<close> System calls are records of functions over an abstract world (\<open>h2_os\<close>, the records of
  the backends, \<open>doom_env\<close>). What the proofs need of them is named (\<open>kernel_ok\<close>, \<open>epoll_ready\<close>,
  \<open>kqueue_ready\<close>, \<open>uring_ready\<close>) and states their documented behaviour: a descriptor from \<open>accept\<close> is
  new, \<open>read\<close> returns at most what was asked for, events report registered descriptors within the
  array. The witnesses run the server on small concrete systems.

  \<^bold>\<open>Not modelled.\<close> Messages on \<open>stderr\<close> (\<open>h2_log_stack_limit\<close>, the usage text, \<open>perror\<close>, the name of the
  backend in the listening message), the value of \<open>errno\<close> that a failing call leaves for its caller
  where no caller reads it, \<open>signal(SIGPIPE, SIG_IGN)\<close>, \<open>free\<close>, and the addresses of the mapped rings
  (\<open>h2_uring_offset\<close>; the rings are read through as one record). Of the headless drivers, the
  functions with empty bodies. Vendored DOOM, the Zig sources under \<open>src/phase2\<close>, the tests, the
  build files and scripts are not part of the development.
\<close>

end
